(* ===== verification/Prelude.thy ===== *)
theory Prelude
  imports Complex_Main
begin

text \<open>
  Shared vocabulary of the development: results of fallible code as sums, text formatting of
  integers, JSON values, Python dictionaries as association lists, tables as lists of rows, and the
  lemmas about them that the component theories use. The collection \<open>result_simps\<close> gathers the
  rules for raising code.
\<close>

named_theorems result_simps \<open>equations and inversion rules for raising code\<close>

section \<open>Results of code that may raise\<close>

text \<open>
  A Python call that may raise is a value of \<open>'e + 'a\<close>: \<open>Inl\<close> is the exception, \<open>Inr\<close> the
  returned value. \<open>bindE\<close> is statement sequencing (an exception skips the rest), \<open>raise_if\<close> is
  \<^verbatim>\<open>if cond: raise e\<close>, \<open>catchE\<close> is \<^verbatim>\<open>try / except\<close>.
\<close>

definition bindE :: "'e + 'a \<Rightarrow> ('a \<Rightarrow> 'e + 'b) \<Rightarrow> 'e + 'b" where
  "bindE m f = (case m of Inl e \<Rightarrow> Inl e | Inr x \<Rightarrow> f x)"

definition raise_if :: "bool \<Rightarrow> 'e \<Rightarrow> 'e + unit" where
  "raise_if c e = (if c then Inl e else Inr ())"

definition catchE :: "'e + 'a \<Rightarrow> ('e \<Rightarrow> 'e) \<Rightarrow> 'e + 'a" where
  "catchE m h = (case m of Inl e \<Rightarrow> Inl (h e) | Inr x \<Rightarrow> Inr x)"

definition of_option :: "'e \<Rightarrow> 'a option \<Rightarrow> 'e + 'a" where
  "of_option e m = (case m of None \<Rightarrow> Inl e | Some x \<Rightarrow> Inr x)"

lemma bindE_simps [simp]:
  "bindE (Inl e) f = Inl e"
  "bindE (Inr x) f = f x"
  by (simp_all add: bindE_def)

lemma bindE_Inr_iff [result_simps]:
  "bindE m f = Inr y \<longleftrightarrow> (\<exists>x. m = Inr x \<and> f x = Inr y)"
  by (cases m) auto

lemma bindE_Inl_iff [result_simps]:
  "bindE m f = Inl e \<longleftrightarrow> m = Inl e \<or> (\<exists>x. m = Inr x \<and> f x = Inl e)"
  by (cases m) auto

lemma bindE_assoc: "bindE (bindE m f) g = bindE m (\<lambda>x. bindE (f x) g)"
  by (cases m) auto

lemma bindE_cong [fundef_cong]:
  "m = m' \<Longrightarrow> (\<And>x. m' = Inr x \<Longrightarrow> f x = g x) \<Longrightarrow> bindE m f = bindE m' g"
  by (cases m') auto

lemma raise_if_simps [simp]:
  "raise_if True e = Inl e"
  "raise_if False e = Inr ()"
  by (simp_all add: raise_if_def)

lemma raise_if_Inr_iff [result_simps]: "raise_if c e = Inr u \<longleftrightarrow> \<not> c"
  by (simp add: raise_if_def)

lemma raise_if_Inl_iff [result_simps]: "raise_if c e = Inl e' \<longleftrightarrow> c \<and> e' = e"
  by (auto simp: raise_if_def)

lemma catchE_simps [simp]:
  "catchE (Inl e) h = Inl (h e)"
  "catchE (Inr x) h = Inr x"
  by (simp_all add: catchE_def)

lemma catchE_Inr_iff [result_simps]: "catchE m h = Inr x \<longleftrightarrow> m = Inr x"
  by (cases m) auto

lemma catchE_Inl_iff [result_simps]: "catchE m h = Inl e \<longleftrightarrow> (\<exists>d. m = Inl d \<and> e = h d)"
  by (cases m) auto

lemma of_option_simps [simp]:
  "of_option e None = Inl e"
  "of_option e (Some x) = Inr x"
  by (simp_all add: of_option_def)

lemma of_option_Inr_iff [result_simps]: "of_option e m = Inr x \<longleftrightarrow> m = Some x"
  by (cases m) auto

lemma of_option_Inl_iff [result_simps]: "of_option e m = Inl e' \<longleftrightarrow> m = None \<and> e' = e"
  by (cases m) auto

text \<open>The first condition of a list that fails, by name.\<close>

fun first_violation :: "(bool \<times> string) list \<Rightarrow> string option" where
  "first_violation [] = None"
| "first_violation ((ok, name) # cs) = (if ok then first_violation cs else Some name)"

lemma first_violation_None_iff: "first_violation cs = None \<longleftrightarrow> (\<forall>c \<in> set cs. fst c)"
  by (induction cs) (auto split: if_splits)

lemma first_violation_Some: "first_violation cs = Some n \<Longrightarrow> n \<in> snd ` set cs"
  by (induction cs) (auto split: if_splits)

section \<open>Text of integers\<close>

definition digit_char :: "nat \<Rightarrow> char" where
  "digit_char d = char_of (48 + d)"

fun show_nat :: "nat \<Rightarrow> string" where
  "show_nat n = (if n < 10 then [digit_char n] else show_nat (n div 10) @ [digit_char (n mod 10)])"

declare show_nat.simps [simp del]

definition show_int :: "int \<Rightarrow> string" where
  "show_int i = (if i < 0 then ''-'' @ show_nat (nat (- i)) else show_nat (nat i))"

lemma length_show_nat: "n < 10 ^ k \<Longrightarrow> 0 < k \<Longrightarrow> length (show_nat n) \<le> k"
proof (induction n arbitrary: k rule: show_nat.induct)
  case (1 n)
  show ?case
  proof (cases "n < 10")
    case True
    then show ?thesis using "1.prems"(2) by (simp add: show_nat.simps)
  next
    case False
    then obtain k' where k: "k = Suc k'" "0 < k'"
      using "1.prems" by (cases k; cases "k - 1") auto
    have "n div 10 < 10 ^ k'"
      using "1.prems"(1) k by (simp add: less_mult_imp_div_less mult.commute)
    then have "length (show_nat (n div 10)) \<le> k'"
      using "1.IH" False k(2) by blast
    then show ?thesis
      using False k by (simp add: show_nat.simps [of n])
  qed
qed

section \<open>JSON values\<close>

datatype json =
    JNull
  | JBool bool
  | JInt int
  | JStr string
  | JArr "json list"
  | JObj "(string \<times> json) list"

definition json_of_int_option :: "int option \<Rightarrow> json" where
  "json_of_int_option m = (case m of None \<Rightarrow> JNull | Some i \<Rightarrow> JInt i)"

section \<open>Python dictionaries\<close>

text \<open>
  A dictionary whose order matters is an association list in insertion order. \<open>dict_set\<close> is
  \<^verbatim>\<open>d[k] = v\<close> and \<open>dict_add\<close> is \<^verbatim>\<open>d[k] += v\<close> on a \<^verbatim>\<open>defaultdict(int)\<close>.
\<close>

fun dict_set :: "'k \<Rightarrow> 'v \<Rightarrow> ('k \<times> 'v) list \<Rightarrow> ('k \<times> 'v) list" where
  "dict_set k v [] = [(k, v)]"
| "dict_set k v ((k', v') # d) = (if k = k' then (k, v) # d else (k', v') # dict_set k v d)"

fun dict_add :: "'k \<Rightarrow> int \<Rightarrow> ('k \<times> int) list \<Rightarrow> ('k \<times> int) list" where
  "dict_add k v [] = [(k, v)]"
| "dict_add k v ((k', v') # d) = (if k = k' then (k', v' + v) # d else (k', v') # dict_add k v d)"

lemma map_of_dict_set [simp]: "map_of (dict_set k v d) = (map_of d)(k \<mapsto> v)"
  by (induction d) (auto simp: fun_eq_iff)

lemma map_of_dict_add:
  "map_of (dict_add k v d) = (map_of d)(k \<mapsto> (case map_of d k of None \<Rightarrow> 0 | Some w \<Rightarrow> w) + v)"
  by (induction d) (auto simp: fun_eq_iff)

lemma keys_dict_add [simp]: "fst ` set (dict_add k v d) = insert k (fst ` set d)"
  by (induction k v d rule: dict_add.induct) (simp_all add: insert_commute)

lemma distinct_dict_add: "distinct (map fst d) \<Longrightarrow> distinct (map fst (dict_add k v d))"
proof (induction k v d rule: dict_add.induct)
  case (2 k v k' v' d)
  moreover have "set (map fst (dict_add k v d)) = insert k (set (map fst d))"
    by simp
  ultimately show ?case
    by (simp del: set_map)
qed simp

lemma sum_dict_add: "sum_list (map snd (dict_add k v d)) = sum_list (map snd d) + v"
  by (induction k v d rule: dict_add.induct) auto

section \<open>Tables\<close>

text \<open>
  A database table is the list of its rows in insertion order. \<open>update_where\<close> is
  \<^verbatim>\<open>UPDATE ... WHERE\<close>; a \<^verbatim>\<open>SELECT\<close> of one row is \<open>find\<close>, of many \<open>filter\<close>.
\<close>

definition update_where :: "('r \<Rightarrow> bool) \<Rightarrow> ('r \<Rightarrow> 'r) \<Rightarrow> 'r list \<Rightarrow> 'r list" where
  "update_where P f rows = map (\<lambda>r. if P r then f r else r) rows"

lemma update_where_Nil [simp]: "update_where P f [] = []"
  by (simp add: update_where_def)

lemma update_where_Cons [simp]:
  "update_where P f (r # rows) = (if P r then f r else r) # update_where P f rows"
  by (simp add: update_where_def)

lemma map_update_where:
  "(\<And>r. P r \<Longrightarrow> g (f r) = g r) \<Longrightarrow> map g (update_where P f rows) = map g rows"
  by (simp add: update_where_def)

lemma set_update_where:
  "set (update_where P f rows) = (\<lambda>r. if P r then f r else r) ` set rows"
  by (simp add: update_where_def)

lemma update_where_append [simp]:
  "update_where P f (xs @ ys) = update_where P f xs @ update_where P f ys"
  by (simp add: update_where_def)

lemma find_SomeD: "find P xs = Some x \<Longrightarrow> x \<in> set xs \<and> P x"
  by (auto simp: find_Some_iff)

lemma find_unique:
  assumes "distinct (map key xs)" "x \<in> set xs"
  shows "find (\<lambda>y. key y = key x) xs = Some x"
  using assms by (induction xs) force+

lemma find_cong_set: "(\<And>x. x \<in> set xs \<Longrightarrow> P x = Q x) \<Longrightarrow> find P xs = find Q xs"
  by (induction xs) auto

text \<open>A sum over a table changes by exactly what the rows selected by the update change.\<close>

lemma sum_update_where:
  fixes g :: "'r \<Rightarrow> int"
  shows "sum_list (map g (update_where P f rows)) =
    sum_list (map g rows) + sum_list (map (\<lambda>r. g (f r) - g r) (filter P rows))"
  by (induction rows) auto

lemma filter_unique:
  assumes "distinct (map key xs)" "x \<in> set xs"
  shows "filter (\<lambda>y. key y = key x) xs = [x]"
  using assms
proof (induction xs)
  case (Cons a xs)
  show ?case
  proof (cases "x = a")
    case True
    with Cons.prems show ?thesis
      by (auto simp: filter_empty_conv image_iff)
  next
    case False
    with Cons show ?thesis by force
  qed
qed simp

text \<open>A join on a unique key: the nested loop finds the one matching row.\<close>

lemma join_unique:
  assumes "distinct (map key xs)" "x \<in> set xs" "key x = k"
  shows "concat (map (\<lambda>y. if key y = k then f y else []) xs) = f x"
proof -
  have "concat (map (\<lambda>y. if key y = k then f y else []) ys) = concat (map f (filter (\<lambda>y. key y = k) ys))" for ys
    by (induction ys) simp_all
  then show ?thesis using filter_unique [OF assms(1,2)] assms(3) by simp
qed

lemma sum_list_filter_pos: "sum_list (map (f :: 'a \<Rightarrow> int) (filter P xs)) =
    sum_list (map (\<lambda>x. if P x then f x else 0) xs)"
  by (induction xs) auto

lemma sum_list_swap:
  fixes f :: "'a \<Rightarrow> 'b \<Rightarrow> int"
  shows "sum_list (map (\<lambda>x. sum_list (map (f x) ys)) xs) =
    sum_list (map (\<lambda>y. sum_list (map (\<lambda>x. f x y) xs)) ys)"
  by (induction xs) (simp_all add: sum_list_addf)

end
