(* ===== verification/Domain.thy ===== *)
theory Domain
  imports Prelude
begin

text \<open>
  The domain vocabulary of the engine: the enumerations of \<^verbatim>\<open>app/domain/enums.py\<close>, the error
  codes and their catalogue from \<^verbatim>\<open>app/domain/errors.py\<close>, the exceptions the services raise, and
  the masking of member identifiers (\<^verbatim>\<open>app/domain/masking.py\<close>). Moments and durations are
  integers of microseconds, the resolution of Python's \<^verbatim>\<open>datetime\<close> and \<^verbatim>\<open>timedelta\<close>.
\<close>

type_synonym moment = int
type_synonym duration = int

section \<open>Enumerations\<close>

datatype program_type = CARD | LOYALTY

datatype owner_type = USER | SYSTEM

datatype account_type = USER_BALANCE | TRANSFER_CLEARING | PARTNER_SETTLEMENT

datatype entry_direction = DEBIT | CREDIT

datatype journal_type = SEED | TRANSFER_DEBIT | TRANSFER_SETTLE | TRANSFER_REVERSAL

datatype transfer_status =
    PENDING | SOURCE_DEBITED | PARTNER_SUBMITTED | PENDING_VERIFICATION
  | COMPLETED | REVERSED | MANUAL_REVIEW

text \<open>Statuses the reconciler may need to pick up.\<close>

definition reconcilable_statuses :: "transfer_status list" where
  "reconcilable_statuses = [SOURCE_DEBITED, PARTNER_SUBMITTED, PENDING_VERIFICATION]"

text \<open>Why a transfer was reversed or needs review (\<^verbatim>\<open>app/domain/transfer_state.py\<close>).\<close>

datatype transfer_failure_code =
    PARTNER_REJECTED | PARTNER_UNAVAILABLE | PARTNER_NOT_RECEIVED | TRANSFER_INTERRUPTED
  | VERIFICATION_EXHAUSTED

fun failure_code_text :: "transfer_failure_code \<Rightarrow> string" where
  "failure_code_text PARTNER_REJECTED = ''PARTNER_REJECTED''"
| "failure_code_text PARTNER_UNAVAILABLE = ''PARTNER_UNAVAILABLE''"
| "failure_code_text PARTNER_NOT_RECEIVED = ''PARTNER_NOT_RECEIVED''"
| "failure_code_text TRANSFER_INTERRUPTED = ''TRANSFER_INTERRUPTED''"
| "failure_code_text VERIFICATION_EXHAUSTED = ''VERIFICATION_EXHAUSTED''"

datatype idempotency_status = KEY_IN_PROGRESS | KEY_COMPLETED

section \<open>Error codes\<close>

datatype error_code =
    VALIDATION_ERROR | NOT_FOUND | METHOD_NOT_ALLOWED | ADMIN_AUTH_REQUIRED
  | AUTHENTICATION_REQUIRED | RATE_LIMITED | INVALID_CURSOR | HTTP_ERROR | INTERNAL_ERROR
  | PROGRAM_NOT_FOUND | PROGRAM_INACTIVE | SAME_PROGRAM | ROUTE_NOT_SUPPORTED
  | BELOW_MINIMUM | ABOVE_MAXIMUM | INVALID_INCREMENT | ZERO_DESTINATION_POINTS
  | ACCOUNT_NOT_FOUND | INSUFFICIENT_BALANCE | TRANSFER_NOT_FOUND
  | IDEMPOTENCY_KEY_REQUIRED | IDEMPOTENCY_KEY_INVALID
  | IDEMPOTENCY_REQUEST_IN_PROGRESS | IDEMPOTENCY_KEY_REUSED
  | INVALID_RATE | INVALID_BONUS | BONUS_OVERLAP

record error_spec =
  spec_status :: int
  spec_title :: string

text \<open>\<^verbatim>\<open>ERROR_CATALOGUE\<close>: the HTTP status and the title of every code.\<close>

fun error_catalogue :: "error_code \<Rightarrow> error_spec" where
  "error_catalogue VALIDATION_ERROR = \<lparr>spec_status = 422, spec_title = ''Request validation failed''\<rparr>"
| "error_catalogue NOT_FOUND = \<lparr>spec_status = 404, spec_title = ''Resource not found''\<rparr>"
| "error_catalogue METHOD_NOT_ALLOWED = \<lparr>spec_status = 405, spec_title = ''Method not allowed''\<rparr>"
| "error_catalogue ADMIN_AUTH_REQUIRED =
     \<lparr>spec_status = 401, spec_title = ''A valid X-Admin-Key header is required''\<rparr>"
| "error_catalogue AUTHENTICATION_REQUIRED =
     \<lparr>spec_status = 401, spec_title = ''A valid X-User-Id header is required''\<rparr>"
| "error_catalogue RATE_LIMITED = \<lparr>spec_status = 429, spec_title = ''Too many requests''\<rparr>"
| "error_catalogue INVALID_CURSOR = \<lparr>spec_status = 400, spec_title = ''Invalid pagination cursor''\<rparr>"
| "error_catalogue ACCOUNT_NOT_FOUND =
     \<lparr>spec_status = 422, spec_title = ''No account in this program for the user''\<rparr>"
| "error_catalogue INSUFFICIENT_BALANCE = \<lparr>spec_status = 422, spec_title = ''Insufficient balance''\<rparr>"
| "error_catalogue TRANSFER_NOT_FOUND = \<lparr>spec_status = 404, spec_title = ''Transfer not found''\<rparr>"
| "error_catalogue IDEMPOTENCY_KEY_REQUIRED =
     \<lparr>spec_status = 400, spec_title = ''The Idempotency-Key header is required''\<rparr>"
| "error_catalogue IDEMPOTENCY_KEY_INVALID =
     \<lparr>spec_status = 400, spec_title = ''The Idempotency-Key header is invalid''\<rparr>"
| "error_catalogue IDEMPOTENCY_REQUEST_IN_PROGRESS =
     \<lparr>spec_status = 409,
      spec_title = ''A request with this Idempotency-Key is still in progress''\<rparr>"
| "error_catalogue IDEMPOTENCY_KEY_REUSED =
     \<lparr>spec_status = 422,
      spec_title = ''This Idempotency-Key was already used with a different request''\<rparr>"
| "error_catalogue HTTP_ERROR = \<lparr>spec_status = 400, spec_title = ''HTTP error''\<rparr>"
| "error_catalogue INTERNAL_ERROR = \<lparr>spec_status = 500, spec_title = ''Internal error''\<rparr>"
| "error_catalogue PROGRAM_NOT_FOUND = \<lparr>spec_status = 422, spec_title = ''Unknown loyalty program''\<rparr>"
| "error_catalogue PROGRAM_INACTIVE =
     \<lparr>spec_status = 422, spec_title = ''Loyalty program is inactive''\<rparr>"
| "error_catalogue SAME_PROGRAM =
     \<lparr>spec_status = 422, spec_title = ''Source and destination programs are the same''\<rparr>"
| "error_catalogue ROUTE_NOT_SUPPORTED =
     \<lparr>spec_status = 422, spec_title = ''Transfer route is not supported''\<rparr>"
| "error_catalogue BELOW_MINIMUM =
     \<lparr>spec_status = 422, spec_title = ''Amount is below the route minimum''\<rparr>"
| "error_catalogue ABOVE_MAXIMUM =
     \<lparr>spec_status = 422, spec_title = ''Amount is above the route maximum''\<rparr>"
| "error_catalogue INVALID_INCREMENT =
     \<lparr>spec_status = 422, spec_title = ''Amount is not a valid increment for the route''\<rparr>"
| "error_catalogue ZERO_DESTINATION_POINTS =
     \<lparr>spec_status = 422, spec_title = ''Amount converts to zero destination points''\<rparr>"
| "error_catalogue INVALID_RATE = \<lparr>spec_status = 422, spec_title = ''Invalid rate definition''\<rparr>"
| "error_catalogue INVALID_BONUS = \<lparr>spec_status = 422, spec_title = ''Invalid bonus definition''\<rparr>"
| "error_catalogue BONUS_OVERLAP =
     \<lparr>spec_status = 409, spec_title = ''Bonus overlaps an existing bonus on the same route''\<rparr>"

section \<open>Exceptions\<close>

text \<open>
  \<open>domain_error\<close> is the class \<^verbatim>\<open>DomainError\<close>: a code, a text that is safe to show, response headers
  and machine-readable extra fields. The other exceptions are internal: \<open>ledger_fault\<close> lists the
  reasons for a \<^verbatim>\<open>LedgerError\<close>, \<open>IntegrityError\<close> and \<open>DataError\<close> are the database's refusals
  (a violated constraint by name; a value out of the range of its column).
\<close>

record domain_error =
  err_code :: error_code
  err_detail :: string
  err_headers :: "(string \<times> string) list"
  err_extra :: "(string \<times> json) list"

datatype ledger_fault =
    TooFewPostings
  | NonPositiveAmount int
  | Unbalanced "(int \<times> int) list"
  | AccountsMissing "int list"
  | NoSystemAccount int account_type

datatype exc =
    DomainError domain_error
  | LedgerError ledger_fault
  | JournalAlreadyPostedError "string option" journal_type
  | InvalidStateTransitionError string transfer_status transfer_status
  | IntegrityError string
  | DataError string
  | LookupError string
  | RuntimeError string
  | UnknownPartnerError string
  | OverflowError
  | ValueError string
  | OtherError string

type_synonym 'a result = "exc + 'a"

definition mk_domain_error :: "error_code \<Rightarrow> string \<Rightarrow> (string \<times> json) list \<Rightarrow> exc" where
  "mk_domain_error c d extra =
     DomainError \<lparr>err_code = c, err_detail = d, err_headers = [], err_extra = extra\<rparr>"

definition error_status :: "domain_error \<Rightarrow> int" where
  "error_status e = spec_status (error_catalogue (err_code e))"

definition error_title :: "domain_error \<Rightarrow> string" where
  "error_title e = spec_title (error_catalogue (err_code e))"

text \<open>The code of a client-facing error, if the exception is one.\<close>

fun code_of :: "exc \<Rightarrow> error_code option" where
  "code_of (DomainError e) = Some (err_code e)"
| "code_of _ = None"

lemma code_of_mk_domain_error [simp]: "code_of (mk_domain_error c d x) = Some c"
  by (simp add: mk_domain_error_def)

lemma mk_domain_error_neq [simp]:
  "mk_domain_error c d x \<noteq> LedgerError f"
  "mk_domain_error c d x \<noteq> IntegrityError n"
  "IntegrityError n \<noteq> mk_domain_error c d x"
  "mk_domain_error c d x \<noteq> DataError n"
  by (simp_all add: mk_domain_error_def)

section \<open>Masking\<close>

definition VISIBLE_SUFFIX :: nat where "VISIBLE_SUFFIX = 4"

definition MASK :: string where "MASK = ''****''"

text \<open>Python's \<^verbatim>\<open>s[-n:]\<close> for \<open>n \<le> len(s)\<close>.\<close>

definition last_chars :: "nat \<Rightarrow> string \<Rightarrow> string" where
  "last_chars n s = drop (length s - n) s"

definition mask_member_id :: "string option \<Rightarrow> string option" where
  "mask_member_id member_id =
     (case member_id of
        None \<Rightarrow> None
      | Some m \<Rightarrow> if length m \<le> VISIBLE_SUFFIX then Some MASK
                  else Some (MASK @ last_chars VISIBLE_SUFFIX m))"

text \<open>
  The mask does not depend on the hidden part: two identifiers longer than four characters with the
  same last four characters have the same mask, and a masked value is never longer than eight
  characters.
\<close>

lemma mask_member_id_hides:
  assumes "4 < length a" "4 < length b" "last_chars 4 a = last_chars 4 b"
  shows "mask_member_id (Some a) = mask_member_id (Some b)"
  using assms by (simp add: mask_member_id_def VISIBLE_SUFFIX_def)

lemma mask_member_id_length:
  "mask_member_id (Some m) = Some r \<Longrightarrow> length r = (if length m \<le> 4 then 4 else 8)"
  by (auto simp: mask_member_id_def VISIBLE_SUFFIX_def MASK_def last_chars_def split: if_splits)

section \<open>Facts about the catalogue\<close>

lemma error_catalogue_range:
  "spec_status (error_catalogue c) \<in> {400, 401, 404, 405, 409, 422, 429, 500}"
  by (cases c) simp_all

lemma error_catalogue_server_error:
  "500 \<le> spec_status (error_catalogue c) \<longleftrightarrow> c = INTERNAL_ERROR"
  by (cases c) simp_all

end
