(* ===== verification/Rate_Engine.thy ===== *)
theory Rate_Engine
  imports Domain
begin

text \<open>
  The conversion rate engine, \<^verbatim>\<open>app/services/rate_engine.py\<close>: the value objects, the pure
  conversion, the route guards and quoting. Points and rates are Python integers, so \<open>int\<close>, and
  \<^verbatim>\<open>//\<close> and \<^verbatim>\<open>%\<close> are \<open>div\<close> and \<open>mod\<close> (both round towards minus infinity). The
  checks that the request models of \<^verbatim>\<open>app/api/schemas.py\<close> apply to amounts and rate terms are here
  too, because the size bounds of the conversion rest on them.
\<close>

definition BPS_DENOMINATOR :: int where "BPS_DENOMINATOR = 10000"

section \<open>Value objects\<close>

record program_ref =
  pr_id :: int
  pr_code :: string
  pr_active :: bool

record rate_rule =
  rr_rate_id :: int
  rr_version :: int
  rr_numerator :: int
  rr_denominator :: int
  rr_min_source_points :: int
  rr_source_increment :: int
  rr_max_source_points :: "int option"
  rr_effective_to :: "moment option"

record bonus_rule =
  br_bonus_id :: int
  br_bonus_bps :: int
  br_starts_at :: moment
  br_ends_at :: moment

definition applies_at :: "bonus_rule \<Rightarrow> moment \<Rightarrow> bool" where
  "applies_at b at_time = (br_starts_at b \<le> at_time \<and> at_time < br_ends_at b)"

record route_config =
  rc_source :: program_ref
  rc_destination :: program_ref
  rc_rate :: "rate_rule option"
  rc_bonus :: "bonus_rule option"
  rc_valid_until :: "moment option"

record rate_snapshot =
  rs_rate_id :: int
  rs_version :: int
  rs_numerator :: int
  rs_denominator :: int
  rs_bonus_id :: "int option"
  rs_bonus_bps :: "int option"

definition snapshot_to_dict :: "rate_snapshot \<Rightarrow> (string \<times> json) list" where
  "snapshot_to_dict s =
     [(''rate_id'', JInt (rs_rate_id s)),
      (''version'', JInt (rs_version s)),
      (''numerator'', JInt (rs_numerator s)),
      (''denominator'', JInt (rs_denominator s)),
      (''bonus_id'', json_of_int_option (rs_bonus_id s)),
      (''bonus_bps'', json_of_int_option (rs_bonus_bps s))]"

record conversion =
  cv_source_points :: int
  cv_base_points :: int
  cv_bonus_points :: int
  cv_destination_points :: int
  cv_snapshot :: rate_snapshot

record quote =
  q_source_program :: string
  q_destination_program :: string
  q_conversion :: conversion
  q_quoted_at :: moment
  q_expires_at :: moment

section \<open>The conversion\<close>

text \<open>
  The amounts: the base is rounded down, the bonus is rounded down from the base. A division by a
  zero denominator raises in Python; the schema forbids it (\<open>rate_rule_ok\<close> below) and
  \<open>calculate_conversion\<close> makes the raise explicit, for \<^verbatim>\<open>%\<close> by a zero increment too.
\<close>

definition base_points_of :: "rate_rule \<Rightarrow> int \<Rightarrow> int" where
  "base_points_of rate source_points = source_points * rr_numerator rate div rr_denominator rate"

definition applied_bonus :: "bonus_rule option \<Rightarrow> moment \<Rightarrow> bonus_rule option" where
  "applied_bonus bonus at_time =
     (case bonus of Some b \<Rightarrow> if applies_at b at_time then Some b else None | None \<Rightarrow> None)"

definition bonus_points_of :: "bonus_rule option \<Rightarrow> int \<Rightarrow> int" where
  "bonus_points_of applied base_points =
     (case applied of Some b \<Rightarrow> base_points * br_bonus_bps b div BPS_DENOMINATOR | None \<Rightarrow> 0)"

definition calculate_conversion ::
  "rate_rule \<Rightarrow> int \<Rightarrow> bonus_rule option \<Rightarrow> moment \<Rightarrow> conversion result" where
  "calculate_conversion rate source_points bonus at_time =
     bindE (raise_if (source_points < rr_min_source_points rate)
       (mk_domain_error BELOW_MINIMUM
         (''Minimum transfer for this route is '' @ show_int (rr_min_source_points rate) @ '' points.'')
         [(''min_source_points'', JInt (rr_min_source_points rate))])) (\<lambda>_.
     bindE (case rr_max_source_points rate of
         None \<Rightarrow> Inr ()
       | Some mx \<Rightarrow> raise_if (source_points > mx)
           (mk_domain_error ABOVE_MAXIMUM
             (''Maximum transfer for this route is '' @ show_int mx @ '' points.'')
             [(''max_source_points'', JInt mx)])) (\<lambda>_.
     bindE (raise_if (rr_source_increment rate = 0) (OtherError ''ZeroDivisionError'')) (\<lambda>_.
     bindE (raise_if (source_points mod rr_source_increment rate \<noteq> 0)
       (mk_domain_error INVALID_INCREMENT
         (''Points must be a multiple of '' @ show_int (rr_source_increment rate) @ '' for this route.'')
         [(''source_increment'', JInt (rr_source_increment rate))])) (\<lambda>_.
     bindE (raise_if (rr_denominator rate = 0) (OtherError ''ZeroDivisionError'')) (\<lambda>_.
     let base_points = base_points_of rate source_points;
         applied = applied_bonus bonus at_time;
         bonus_points = bonus_points_of applied base_points;
         destination_points = base_points + bonus_points
     in
     bindE (raise_if (destination_points = 0)
       (mk_domain_error ZERO_DESTINATION_POINTS
         ''This amount converts to zero destination points.'' [])) (\<lambda>_.
     Inr \<lparr>cv_source_points = source_points, cv_base_points = base_points,
          cv_bonus_points = bonus_points, cv_destination_points = destination_points,
          cv_snapshot = \<lparr>rs_rate_id = rr_rate_id rate, rs_version = rr_version rate,
            rs_numerator = rr_numerator rate, rs_denominator = rr_denominator rate,
            rs_bonus_id = map_option br_bonus_id applied,
            rs_bonus_bps = map_option br_bonus_bps applied\<rparr>\<rparr>))))))"

section \<open>Route guards and quoting\<close>

definition ensure_active :: "program_ref \<Rightarrow> unit result" where
  "ensure_active program =
     raise_if (\<not> pr_active program)
       (mk_domain_error PROGRAM_INACTIVE
         (''Program '' @ pr_code program @ '' is not accepting transfers.'')
         [(''program'', JStr (pr_code program))])"

definition ensure_route_usable :: "route_config \<Rightarrow> rate_rule result" where
  "ensure_route_usable route =
     bindE (ensure_active (rc_source route)) (\<lambda>_.
     bindE (ensure_active (rc_destination route)) (\<lambda>_.
     of_option
       (mk_domain_error ROUTE_NOT_SUPPORTED
         (''Transfers from '' @ pr_code (rc_source route) @ '' to ''
            @ pr_code (rc_destination route) @ '' are not supported.'')
         [(''source_program'', JStr (pr_code (rc_source route))),
          (''destination_program'', JStr (pr_code (rc_destination route)))])
       (rc_rate route)))"

definition ensure_within_platform_limit :: "int \<Rightarrow> int option \<Rightarrow> unit result" where
  "ensure_within_platform_limit source_points max_points =
     (case max_points of
        None \<Rightarrow> Inr ()
      | Some mx \<Rightarrow> raise_if (source_points > mx)
          (mk_domain_error ABOVE_MAXIMUM
            (''A single transfer may not exceed '' @ show_int mx @ '' points.'')
            [(''max_source_points'', JInt mx)]))"

definition ensure_different_programs :: "string \<Rightarrow> string \<Rightarrow> unit result" where
  "ensure_different_programs source_code destination_code =
     raise_if (source_code = destination_code)
       (mk_domain_error SAME_PROGRAM ''Source and destination programs must be different.'' [])"

text \<open>
  \<^verbatim>\<open>QuoteService.quote\<close>. The route provider is its protocol \<^verbatim>\<open>RouteProvider\<close>: a function of the
  two codes and the moment.
\<close>

definition quote_transfer ::
  "(string \<Rightarrow> string \<Rightarrow> moment \<Rightarrow> route_config result) \<Rightarrow> duration \<Rightarrow> int option \<Rightarrow> moment
    \<Rightarrow> string \<Rightarrow> string \<Rightarrow> int \<Rightarrow> quote result" where
  "quote_transfer get_route quote_ttl max_transfer_points now source_code destination_code source_points =
     bindE (ensure_different_programs source_code destination_code) (\<lambda>_.
     bindE (ensure_within_platform_limit source_points max_transfer_points) (\<lambda>_.
     bindE (get_route source_code destination_code now) (\<lambda>route.
     bindE (ensure_route_usable route) (\<lambda>rate.
     bindE (calculate_conversion rate source_points (rc_bonus route) now) (\<lambda>conversion.
     Inr \<lparr>q_source_program = source_code, q_destination_program = destination_code,
          q_conversion = conversion, q_quoted_at = now, q_expires_at = now + quote_ttl\<rparr>)))))"

section \<open>Bounds of the request models\<close>

definition MAX_POINTS :: int where "MAX_POINTS = 1000000000000"

definition MAX_RATE_TERM :: int where "MAX_RATE_TERM = 1000000"

text \<open>The field types \<^verbatim>\<open>Points\<close> and \<^verbatim>\<open>RateTerm\<close> of \<^verbatim>\<open>app/api/schemas.py\<close>.\<close>

definition points_field_ok :: "int \<Rightarrow> bool" where
  "points_field_ok p = (0 < p \<and> p \<le> MAX_POINTS)"

definition rate_term_field_ok :: "int \<Rightarrow> bool" where
  "rate_term_field_ok t = (0 < t \<and> t \<le> MAX_RATE_TERM)"

text \<open>The range of a PostgreSQL \<^verbatim>\<open>BIGINT\<close>.\<close>

definition in_bigint :: "int \<Rightarrow> bool" where
  "in_bigint x = (- (2 ^ 63) \<le> x \<and> x < 2 ^ 63)"

text \<open>What the CHECK constraints of \<^verbatim>\<open>conversion_rates\<close> and \<^verbatim>\<open>transfer_bonuses\<close> guarantee of a
  loaded rule.\<close>

definition rate_rule_ok :: "rate_rule \<Rightarrow> bool" where
  "rate_rule_ok r =
     (0 < rr_numerator r \<and> 0 < rr_denominator r \<and> 1 \<le> rr_min_source_points r
      \<and> 1 \<le> rr_source_increment r
      \<and> (case rr_max_source_points r of None \<Rightarrow> True | Some mx \<Rightarrow> rr_min_source_points r \<le> mx))"

definition bonus_rule_ok :: "bonus_rule \<Rightarrow> bool" where
  "bonus_rule_ok b = (0 < br_bonus_bps b \<and> br_bonus_bps b \<le> 10000 \<and> br_starts_at b < br_ends_at b)"

section \<open>Correctness of the conversion\<close>

lemmas conversion_defs = base_points_of_def applied_bonus_def bonus_points_of_def BPS_DENOMINATOR_def

text \<open>Success of the conversion, as one equation: the guards and the value.\<close>

lemma calculate_conversion_Inr_iff:
  "calculate_conversion rate p bonus t = Inr c \<longleftrightarrow>
     rr_min_source_points rate \<le> p
     \<and> (\<forall>mx. rr_max_source_points rate = Some mx \<longrightarrow> p \<le> mx)
     \<and> rr_source_increment rate \<noteq> 0 \<and> p mod rr_source_increment rate = 0
     \<and> rr_denominator rate \<noteq> 0
     \<and> base_points_of rate p + bonus_points_of (applied_bonus bonus t) (base_points_of rate p) \<noteq> 0
     \<and> c = \<lparr>cv_source_points = p, cv_base_points = base_points_of rate p,
            cv_bonus_points = bonus_points_of (applied_bonus bonus t) (base_points_of rate p),
            cv_destination_points =
              base_points_of rate p + bonus_points_of (applied_bonus bonus t) (base_points_of rate p),
            cv_snapshot = \<lparr>rs_rate_id = rr_rate_id rate, rs_version = rr_version rate,
              rs_numerator = rr_numerator rate, rs_denominator = rr_denominator rate,
              rs_bonus_id = map_option br_bonus_id (applied_bonus bonus t),
              rs_bonus_bps = map_option br_bonus_bps (applied_bonus bonus t)\<rparr>\<rparr>"
  by (auto simp: calculate_conversion_def Let_def result_simps split: option.splits)

lemma applied_bonus_ok:
  "\<forall>b. bonus = Some b \<longrightarrow> bonus_rule_ok b \<Longrightarrow> applied_bonus bonus t = Some b' \<Longrightarrow> bonus_rule_ok b'"
  by (auto simp: applied_bonus_def split: option.splits if_splits)

lemma div_bounds:
  fixes a d :: int
  assumes "0 < d"
  shows "d * (a div d) \<le> a" "a < d * (a div d + 1)"
  using assms by (simp_all add: distrib_left minus_mod_eq_mult_div [symmetric])

lemma base_points_mono:
  assumes "rate_rule_ok rate" "p \<le> q"
  shows "base_points_of rate p \<le> base_points_of rate q"
  using assms by (auto simp: rate_rule_ok_def base_points_of_def intro!: zdiv_mono1 mult_right_mono)

lemma base_points_nonneg:
  "rate_rule_ok rate \<Longrightarrow> 0 \<le> p \<Longrightarrow> 0 \<le> base_points_of rate p"
  by (auto simp: rate_rule_ok_def base_points_of_def pos_imp_zdiv_nonneg_iff)

lemma bonus_points_mono:
  assumes "\<forall>b. applied = Some b \<longrightarrow> bonus_rule_ok b" "x \<le> y"
  shows "bonus_points_of applied x \<le> bonus_points_of applied y"
  using assms
  by (auto simp: bonus_points_of_def bonus_rule_ok_def BPS_DENOMINATOR_def
      intro!: zdiv_mono1 mult_right_mono split: option.splits)

lemma bonus_points_range:
  assumes "\<forall>b. applied = Some b \<longrightarrow> bonus_rule_ok b" "0 \<le> x"
  shows "0 \<le> bonus_points_of applied x" "bonus_points_of applied x \<le> x"
proof -
  have "x * k div 10000 \<le> x" if "0 < k" "k \<le> 10000" for k :: int
  proof -
    have "x * k \<le> x * 10000"
      using assms(2) that by (simp add: mult_left_mono)
    then have "x * k div 10000 \<le> x * 10000 div 10000"
      by (rule zdiv_mono1) simp
    then show ?thesis by simp
  qed
  then show "bonus_points_of applied x \<le> x"
    using assms by (auto simp: bonus_points_of_def bonus_rule_ok_def BPS_DENOMINATOR_def split: option.splits)
  show "0 \<le> bonus_points_of applied x"
    using assms by (auto simp: bonus_points_of_def bonus_rule_ok_def BPS_DENOMINATOR_def
        pos_imp_zdiv_nonneg_iff split: option.splits)
qed

text \<open>Rounding down twice is superadditive: floor of a sum is at least the sum of the floors.\<close>

lemma div_superadditive:
  fixes a b d :: int
  assumes "0 < d"
  shows "a div d + b div d \<le> (a + b) div d"
proof -
  have "d * (a div d + b div d) \<le> a + b"
    using div_bounds(1) [OF assms, of a] div_bounds(1) [OF assms, of b] by (simp add: distrib_left)
  then have "d * (a div d + b div d) div d \<le> (a + b) div d"
    using assms by (intro zdiv_mono1)
  with assms show ?thesis by simp
qed

lemma base_points_superadditive:
  "rate_rule_ok rate \<Longrightarrow> base_points_of rate p + base_points_of rate q \<le> base_points_of rate (p + q)"
  using div_superadditive by (simp add: rate_rule_ok_def base_points_of_def distrib_right)

lemma bonus_points_superadditive:
  "bonus_points_of applied x + bonus_points_of applied y \<le> bonus_points_of applied (x + y)"
  using div_superadditive by (auto simp: bonus_points_of_def BPS_DENOMINATOR_def distrib_right split: option.splits)

section \<open>Sample rules\<close>

text \<open>
  Values at which the properties are instantiated: the seeded 2:3 route, a 1:1 route and a 1:3 route
  back, and a bonus of 25 percent that runs over \<open>[0, 100)\<close>.
\<close>

definition rate_2_3 :: rate_rule where
  "rate_2_3 = \<lparr>rr_rate_id = 4, rr_version = 1, rr_numerator = 2, rr_denominator = 3,
     rr_min_source_points = 5000, rr_source_increment = 1000, rr_max_source_points = Some 300000,
     rr_effective_to = None\<rparr>"

definition rate_1_1 :: rate_rule where
  "rate_1_1 = rate_2_3\<lparr>rr_numerator := 1, rr_denominator := 1, rr_min_source_points := 1000\<rparr>"

definition rate_1_3 :: rate_rule where
  "rate_1_3 = rate_2_3\<lparr>rr_numerator := 1, rr_denominator := 3, rr_min_source_points := 50,
     rr_source_increment := 50\<rparr>"

definition bonus_25 :: bonus_rule where
  "bonus_25 = \<lparr>br_bonus_id = 1, br_bonus_bps = 2500, br_starts_at = 0, br_ends_at = 100\<rparr>"

lemmas sample_rule_defs = rate_2_3_def rate_1_1_def rate_1_3_def bonus_25_def

lemma sample_rules_ok [simp]:
  "rate_rule_ok rate_2_3" "rate_rule_ok rate_1_1" "rate_rule_ok rate_1_3" "bonus_rule_ok bonus_25"
  by (simp_all add: rate_rule_ok_def bonus_rule_ok_def sample_rule_defs)

definition conv_of :: "rate_rule \<Rightarrow> int \<Rightarrow> bonus_rule option \<Rightarrow> moment \<Rightarrow> conversion" where
  "conv_of rate p bonus t =
     (let base = base_points_of rate p; a = applied_bonus bonus t; bp = bonus_points_of a base in
      \<lparr>cv_source_points = p, cv_base_points = base, cv_bonus_points = bp,
       cv_destination_points = base + bp,
       cv_snapshot = \<lparr>rs_rate_id = rr_rate_id rate, rs_version = rr_version rate,
         rs_numerator = rr_numerator rate, rs_denominator = rr_denominator rate,
         rs_bonus_id = map_option br_bonus_id a, rs_bonus_bps = map_option br_bonus_bps a\<rparr>\<rparr>)"

lemma sample_conversions:
  "calculate_conversion rate_2_3 5000 (Some bonus_25) 10 = Inr (conv_of rate_2_3 5000 (Some bonus_25) 10)"
  "calculate_conversion rate_2_3 7000 (Some bonus_25) 10 = Inr (conv_of rate_2_3 7000 (Some bonus_25) 10)"
  "calculate_conversion rate_2_3 12000 (Some bonus_25) 10 = Inr (conv_of rate_2_3 12000 (Some bonus_25) 10)"
  "calculate_conversion rate_1_1 5000 (Some bonus_25) 10 = Inr (conv_of rate_1_1 5000 (Some bonus_25) 10)"
  "calculate_conversion rate_1_3 6250 None 10 = Inr (conv_of rate_1_3 6250 None 10)"
  by (simp_all add: calculate_conversion_Inr_iff conv_of_def conversion_defs applies_at_def
      sample_rule_defs)

section \<open>Properties of the engine\<close>

text \<open>
  C32: both rounding steps go down and lose less than one point. For a rate and a bonus the schema
  admits, an accepted conversion has base points that are the floor of
  \<open>source * numerator / denominator\<close>, bonus points that are the floor of \<open>base * bps / 10000\<close> (zero
  when no bonus applies at that moment), and credits exactly their sum, which is positive.
\<close>

theorem conversion_rounds_down:
  assumes rate: "rate_rule_ok rate"
    and bonus: "\<forall>b. bonus = Some b \<longrightarrow> bonus_rule_ok b"
    and conv: "calculate_conversion rate p bonus t = Inr c"
  shows "rr_denominator rate * cv_base_points c \<le> p * rr_numerator rate
    \<and> p * rr_numerator rate < rr_denominator rate * (cv_base_points c + 1)
    \<and> (case applied_bonus bonus t of
         None \<Rightarrow> cv_bonus_points c = 0
       | Some b \<Rightarrow> 10000 * cv_bonus_points c \<le> cv_base_points c * br_bonus_bps b
           \<and> cv_base_points c * br_bonus_bps b < 10000 * (cv_bonus_points c + 1))
    \<and> cv_destination_points c = cv_base_points c + cv_bonus_points c
    \<and> 0 < cv_destination_points c \<and> 0 \<le> cv_bonus_points c \<and> cv_bonus_points c \<le> cv_base_points c"
proof -
  let ?base = "base_points_of rate p"
  let ?bonus = "bonus_points_of (applied_bonus bonus t) ?base"
  from conv have c: "cv_base_points c = ?base" "cv_bonus_points c = ?bonus"
    "cv_destination_points c = ?base + ?bonus" "?base + ?bonus \<noteq> 0" "rr_min_source_points rate \<le> p"
    by (simp_all add: calculate_conversion_Inr_iff)
  from rate c(5) have "0 < rr_denominator rate" "0 \<le> p"
    by (simp_all add: rate_rule_ok_def)
  moreover have "0 \<le> ?base"
    using rate \<open>0 \<le> p\<close> by (rule base_points_nonneg)
  moreover have "\<forall>b. applied_bonus bonus t = Some b \<longrightarrow> bonus_rule_ok b"
    using bonus applied_bonus_ok by blast
  ultimately show ?thesis
    using c bonus_points_range [of "applied_bonus bonus t" ?base]
      div_bounds [of "rr_denominator rate" "p * rr_numerator rate"] div_bounds [of "10000::int"]
    by (auto simp: base_points_of_def bonus_points_of_def BPS_DENOMINATOR_def split: option.splits)
qed

theorem conversion_rounds_down_witness:
  "cv_base_points (conv_of rate_2_3 5000 (Some bonus_25) 10) = 3333
    \<and> cv_bonus_points (conv_of rate_2_3 5000 (Some bonus_25) 10) = 833
    \<and> 3 * cv_base_points (conv_of rate_2_3 5000 (Some bonus_25) 10) \<le> 5000 * 2
    \<and> 5000 * 2 < 3 * (cv_base_points (conv_of rate_2_3 5000 (Some bonus_25) 10) + 1)"
  using conversion_rounds_down [OF sample_rules_ok(1) _ sample_conversions(1)]
  by (simp add: conv_of_def conversion_defs applies_at_def sample_rule_defs)

text \<open>
  C33: which amounts are accepted and which code refuses the others. The checks run in the order
  minimum, maximum, increment, zero result, so the first that fails names the code; a zero result
  means exactly that \<open>source * numerator\<close> is below the denominator, bonus or not.
\<close>

theorem conversion_verdict:
  assumes rate: "rate_rule_ok rate" and bonus: "\<forall>b. bonus = Some b \<longrightarrow> bonus_rule_ok b"
  shows "(case calculate_conversion rate p bonus t of Inl e \<Rightarrow> code_of e | Inr _ \<Rightarrow> None) =
    (if p < rr_min_source_points rate then Some BELOW_MINIMUM
     else if \<exists>mx. rr_max_source_points rate = Some mx \<and> mx < p then Some ABOVE_MAXIMUM
     else if \<not> rr_source_increment rate dvd p then Some INVALID_INCREMENT
     else if p * rr_numerator rate < rr_denominator rate then Some ZERO_DESTINATION_POINTS
     else None)
    \<and> (\<forall>e. calculate_conversion rate p bonus t = Inl e \<longrightarrow> code_of e \<noteq> None)"
proof -
  have zero: "base_points_of rate p + bonus_points_of (applied_bonus bonus t) (base_points_of rate p) = 0
      \<longleftrightarrow> p * rr_numerator rate < rr_denominator rate" if p: "rr_min_source_points rate \<le> p"
  proof -
    let ?base = "base_points_of rate p"
    from p rate have nonneg: "0 \<le> ?base" "0 < rr_denominator rate" "0 \<le> p * rr_numerator rate"
      by (auto intro: base_points_nonneg simp: rate_rule_ok_def)
    have "\<forall>b. applied_bonus bonus t = Some b \<longrightarrow> bonus_rule_ok b"
      using bonus applied_bonus_ok by blast
    from bonus_points_range [OF this nonneg(1)]
    have "?base + bonus_points_of (applied_bonus bonus t) ?base = 0 \<longleftrightarrow> ?base = 0"
      by auto
    also have "\<dots> \<longleftrightarrow> p * rr_numerator rate < rr_denominator rate"
      using nonneg by (auto simp: base_points_of_def zdiv_eq_0_iff)
    finally show ?thesis .
  qed
  show ?thesis
    using rate zero
    by (auto simp: calculate_conversion_def Let_def raise_if_def rate_rule_ok_def dvd_eq_mod_eq_0
        split: option.splits)
qed

theorem conversion_verdict_witness:
  "(case calculate_conversion rate_2_3 5500 None 0 of Inl e \<Rightarrow> code_of e | Inr _ \<Rightarrow> None)
    = Some INVALID_INCREMENT"
  using conversion_verdict [OF sample_rules_ok(1), of None 5500 0]
  by (simp add: sample_rule_defs)

text \<open>
  C34: splitting a transfer never pays. If two amounts and their sum are all accepted under the same
  rate and bonus at the same moment, converting them separately credits no more than converting the
  sum at once.
\<close>

theorem conversion_split_never_gains:
  assumes rate: "rate_rule_ok rate" and bonus: "\<forall>b. bonus = Some b \<longrightarrow> bonus_rule_ok b"
    and "calculate_conversion rate p bonus t = Inr c1"
    and "calculate_conversion rate q bonus t = Inr c2"
    and "calculate_conversion rate (p + q) bonus t = Inr c"
  shows "cv_destination_points c1 + cv_destination_points c2 \<le> cv_destination_points c"
proof -
  let ?a = "applied_bonus bonus t"
  have ok: "\<forall>b. ?a = Some b \<longrightarrow> bonus_rule_ok b"
    using bonus applied_bonus_ok by blast
  have base: "base_points_of rate p + base_points_of rate q \<le> base_points_of rate (p + q)"
    using rate by (rule base_points_superadditive)
  have "bonus_points_of ?a (base_points_of rate p) + bonus_points_of ?a (base_points_of rate q)
      \<le> bonus_points_of ?a (base_points_of rate p + base_points_of rate q)"
    by (rule bonus_points_superadditive)
  also have "\<dots> \<le> bonus_points_of ?a (base_points_of rate (p + q))"
    using ok base by (rule bonus_points_mono)
  finally show ?thesis
    using assms(3-5) base by (simp add: calculate_conversion_Inr_iff)
qed

theorem conversion_split_never_gains_witness:
  "cv_destination_points (conv_of rate_2_3 5000 (Some bonus_25) 10)
    + cv_destination_points (conv_of rate_2_3 7000 (Some bonus_25) 10)
    \<le> cv_destination_points (conv_of rate_2_3 12000 (Some bonus_25) 10)"
  using conversion_split_never_gains [OF sample_rules_ok(1) _ sample_conversions(1,2)]
    sample_conversions(3) by simp

text \<open>The basis points that a bonus adds at a moment.\<close>

definition applied_bps :: "bonus_rule option \<Rightarrow> moment \<Rightarrow> int" where
  "applied_bps bonus at_time =
     (case applied_bonus bonus at_time of Some b \<Rightarrow> br_bonus_bps b | None \<Rightarrow> 0)"

lemma conversion_upper_bound:
  assumes "rate_rule_ok rate" "\<forall>b. bonus = Some b \<longrightarrow> bonus_rule_ok b"
    and "calculate_conversion rate p bonus t = Inr c"
  shows "10000 * rr_denominator rate * cv_destination_points c
    \<le> p * rr_numerator rate * (10000 + applied_bps bonus t)"
proof -
  let ?k = "applied_bps bonus t" and ?base = "base_points_of rate p"
  have k: "0 \<le> ?k" and dest: "10000 * cv_destination_points c \<le> ?base * (10000 + ?k)"
    using assms applied_bonus_ok [OF assms(2), of t]
      div_bounds(1) [of 10000 "base_points_of rate p * br_bonus_bps b" for b]
    by (auto simp: calculate_conversion_Inr_iff applied_bps_def bonus_points_of_def
        BPS_DENOMINATOR_def bonus_rule_ok_def distrib_left split: option.splits)
  have d: "0 < rr_denominator rate"
    using assms(1) by (simp add: rate_rule_ok_def)
  have "rr_denominator rate * (10000 * cv_destination_points c)
      \<le> rr_denominator rate * (?base * (10000 + ?k))"
    using d dest by (simp add: mult_left_mono)
  also have "\<dots> = (rr_denominator rate * ?base) * (10000 + ?k)"
    by simp
  also have "\<dots> \<le> (p * rr_numerator rate) * (10000 + ?k)"
    using div_bounds(1) [OF d] k by (intro mult_right_mono) (simp_all add: base_points_of_def)
  finally show ?thesis by (simp add: mult.assoc mult.left_commute)
qed

text \<open>
  no gain from converting back and forth. If the product of the two directed rates, each with the
  bonus that applies, is at most one, then the points that come back never exceed the points spent.
\<close>

lemma conversion_round_trip_never_gains:
  assumes rates: "rate_rule_ok fwd" "rate_rule_ok back"
    and bonuses: "\<forall>b. bonus1 = Some b \<longrightarrow> bonus_rule_ok b" "\<forall>b. bonus2 = Some b \<longrightarrow> bonus_rule_ok b"
    and out: "calculate_conversion fwd p bonus1 t1 = Inr c"
    and home: "calculate_conversion back (cv_destination_points c) bonus2 t2 = Inr d"
    and product: "rr_numerator fwd * (10000 + applied_bps bonus1 t1)
        * (rr_numerator back * (10000 + applied_bps bonus2 t2))
      \<le> 10000 * rr_denominator fwd * (10000 * rr_denominator back)"
  shows "cv_destination_points d \<le> p"
proof -
  let ?A = "10000 * rr_denominator fwd" and ?B = "10000 * rr_denominator back"
  let ?F = "rr_numerator fwd * (10000 + applied_bps bonus1 t1)"
  let ?G = "rr_numerator back * (10000 + applied_bps bonus2 t2)"
  have "0 \<le> applied_bps bonus2 t2"
    using applied_bonus_ok [OF bonuses(2), of t2]
    by (auto simp: applied_bps_def bonus_rule_ok_def split: option.splits)
  then have pos: "0 < ?A" "0 < ?B" "0 \<le> ?G"
    using rates by (auto simp: rate_rule_ok_def)
  have steps: "?A * cv_destination_points c \<le> p * ?F"
      "?B * cv_destination_points d \<le> cv_destination_points c * ?G"
    using conversion_upper_bound [OF rates(1) bonuses(1) out]
      conversion_upper_bound [OF rates(2) bonuses(2) home] by (simp_all add: mult.assoc)
  have "(?A * ?B) * cv_destination_points d = ?A * (?B * cv_destination_points d)"
    by (simp only: mult.assoc)
  also have "\<dots> \<le> ?A * (cv_destination_points c * ?G)"
    by (rule mult_left_mono [OF steps(2)]) (use pos in simp)
  also have "\<dots> = (?A * cv_destination_points c) * ?G"
    by (simp only: mult.assoc)
  also have "\<dots> \<le> (p * ?F) * ?G"
    by (rule mult_right_mono [OF steps(1) pos(3)])
  also have "\<dots> = p * (?F * ?G)"
    by (simp only: mult.assoc)
  also have "\<dots> \<le> p * (?A * ?B)"
    using product rates out by (intro mult_left_mono) (auto simp: calculate_conversion_Inr_iff rate_rule_ok_def)
  finally show ?thesis
    using pos by (simp add: mult.commute)
qed

text \<open>
  C35: amounts fit their columns. For an amount and rate terms that pass the request models, the
  product \<open>points * numerator\<close> and every amount of the conversion fit a PostgreSQL BIGINT.
\<close>

theorem conversion_fits_bigint:
  assumes "rate_rule_ok rate" "\<forall>b. bonus = Some b \<longrightarrow> bonus_rule_ok b"
    and "points_field_ok p" "rate_term_field_ok (rr_numerator rate)"
    and conv: "calculate_conversion rate p bonus t = Inr c"
  shows "in_bigint (p * rr_numerator rate) \<and> in_bigint (cv_source_points c)
    \<and> in_bigint (cv_base_points c) \<and> in_bigint (cv_bonus_points c)
    \<and> in_bigint (cv_destination_points c)"
proof -
  let ?base = "base_points_of rate p"
  have p: "0 \<le> p" "p \<le> 1000000000000" "0 < rr_numerator rate" "rr_numerator rate \<le> 1000000"
    using assms by (simp_all add: points_field_ok_def MAX_POINTS_def rate_term_field_ok_def MAX_RATE_TERM_def)
  then have prod: "0 \<le> p * rr_numerator rate" "p * rr_numerator rate \<le> 1000000000000 * 1000000"
    by (simp, intro mult_mono) auto
  have d: "0 < rr_denominator rate"
    using assms(1) by (simp add: rate_rule_ok_def)
  then have "?base \<le> p * rr_numerator rate"
    using prod by (auto simp: base_points_of_def intro: order.trans [OF zdiv_mono2 [of _ 1]])
  moreover have "0 \<le> ?base"
    using assms(1) p(1) by (rule base_points_nonneg)
  moreover have "\<forall>b. applied_bonus bonus t = Some b \<longrightarrow> bonus_rule_ok b"
    using assms(2) applied_bonus_ok by blast
  ultimately show ?thesis
    using conv prod p bonus_points_range [of "applied_bonus bonus t" ?base]
    by (simp add: calculate_conversion_Inr_iff in_bigint_def)
qed

theorem conversion_fits_bigint_witness:
  "in_bigint (5000 * rr_numerator rate_2_3)
    \<and> in_bigint (cv_destination_points (conv_of rate_2_3 5000 (Some bonus_25) 10))"
  using conversion_fits_bigint [OF sample_rules_ok(1) _ _ _ sample_conversions(1)]
  by (simp add: points_field_ok_def rate_term_field_ok_def MAX_POINTS_def MAX_RATE_TERM_def
      rate_2_3_def)

end
