(* ===== verification/Schema.thy ===== *)
theory Schema
  imports Rate_Engine
begin

text \<open>
  The PostgreSQL schema of \<^verbatim>\<open>app/db/models.py\<close>: the text formats of its CHECK constraints, one record per
  table row (every column, prefixed by its table), and the database as a record of tables with the next
  value of each identity column.
\<close>

section \<open>Text formats\<close>

definition in_range :: "char \<Rightarrow> char \<Rightarrow> char \<Rightarrow> bool" where
  "in_range lo hi c = ((of_char lo :: nat) \<le> of_char c \<and> (of_char c :: nat) \<le> of_char hi)"

definition is_digit :: "char \<Rightarrow> bool" where "is_digit c = in_range CHR ''0'' CHR ''9'' c"

definition is_upper :: "char \<Rightarrow> bool" where "is_upper c = in_range CHR ''A'' CHR ''Z'' c"

definition is_lower :: "char \<Rightarrow> bool" where "is_lower c = in_range CHR ''a'' CHR ''z'' c"

text \<open>\<^verbatim>\<open>[0-9A-HJKMNP-TV-Z]\<close>: the letters and digits of Crockford base 32.\<close>

definition is_crockford :: "char \<Rightarrow> bool" where
  "is_crockford c = (is_digit c \<or> in_range CHR ''A'' CHR ''H'' c \<or> c = CHR ''J'' \<or> c = CHR ''K''
     \<or> c = CHR ''M'' \<or> c = CHR ''N'' \<or> in_range CHR ''P'' CHR ''T'' c \<or> in_range CHR ''V'' CHR ''Z'' c)"

text \<open>\<^verbatim>\<open>^tr_[0-9A-HJKMNP-TV-Z]{26}$\<close>\<close>

definition transfer_id_format :: "string \<Rightarrow> bool" where
  "transfer_id_format s = (take 3 s = ''tr_'' \<and> length s = 29 \<and> list_all is_crockford (drop 3 s))"

text \<open>\<^verbatim>\<open>^[A-Za-z0-9_.-]{1,64}$\<close>\<close>

definition user_id_format :: "string \<Rightarrow> bool" where
  "user_id_format s =
     (1 \<le> length s \<and> length s \<le> 64 \<and>
      list_all (\<lambda>c. is_upper c \<or> is_lower c \<or> is_digit c \<or> c = CHR ''_'' \<or> c = CHR ''.'' \<or> c = CHR ''-'') s)"

text \<open>\<^verbatim>\<open>^[A-Z][A-Z0-9_]{1,49}$\<close>\<close>

definition program_code_format :: "string \<Rightarrow> bool" where
  "program_code_format s =
     (case s of [] \<Rightarrow> False
      | c # cs \<Rightarrow> is_upper c \<and> 1 \<le> length cs \<and> length cs \<le> 49 \<and>
          list_all (\<lambda>d. is_upper d \<or> is_digit d \<or> d = CHR ''_'') cs)"

text \<open>\<^verbatim>\<open>^[0-9a-f]{64}$\<close>\<close>

definition fingerprint_format :: "string \<Rightarrow> bool" where
  "fingerprint_format s = (length s = 64 \<and> list_all (\<lambda>c. is_digit c \<or> in_range CHR ''a'' CHR ''f'' c) s)"

section \<open>Rows\<close>

record user_row =
  usr_id :: string
  usr_created_at :: moment

record program =
  prg_id :: int
  prg_code :: string
  prg_name :: string
  prg_type :: program_type
  prg_partner_code :: string
  prg_active :: bool
  prg_created_at :: moment

record conversion_rate =
  cr_id :: int
  cr_source_program_id :: int
  cr_destination_program_id :: int
  cr_numerator :: int
  cr_denominator :: int
  cr_min_source_points :: int
  cr_source_increment :: int
  cr_max_source_points :: "int option"
  cr_version :: int
  cr_effective_from :: moment
  cr_effective_to :: "moment option"
  cr_active :: bool
  cr_created_at :: moment

record transfer_bonus =
  tb_id :: int
  tb_source_program_id :: int
  tb_destination_program_id :: int
  tb_bonus_bps :: int
  tb_starts_at :: moment
  tb_ends_at :: moment
  tb_created_at :: moment

record account =
  acc_id :: int
  acc_owner_type :: owner_type
  acc_user_id :: "string option"
  acc_program_id :: int
  acc_account_type :: account_type
  acc_external_member_id :: "string option"
  acc_balance :: int
  acc_created_at :: moment
  acc_updated_at :: moment

record transfer =
  tr_id :: string
  tr_user_id :: string
  tr_idempotency_key :: string
  tr_source_program_id :: int
  tr_destination_program_id :: int
  tr_source_account_id :: int
  tr_destination_account_id :: int
  tr_source_points :: int
  tr_base_points :: int
  tr_bonus_points :: int
  tr_destination_points :: int
  tr_rate_id :: int
  tr_rate_snapshot :: "(string \<times> json) list"
  tr_status :: transfer_status
  tr_failure_code :: "transfer_failure_code option"
  tr_failure_message :: "string option"
  tr_partner_reference :: "string option"
  tr_partner_confirmation_id :: "string option"
  tr_verification_attempts :: int
  tr_next_verification_at :: "moment option"
  tr_created_at :: moment
  tr_updated_at :: moment
  tr_completed_at :: "moment option"

record transfer_event =
  ev_id :: int
  ev_transfer_id :: string
  ev_from_status :: "transfer_status option"
  ev_to_status :: transfer_status
  ev_reason :: string
  ev_metadata :: "(string \<times> json) list"
  ev_created_at :: moment

record ledger_journal =
  jr_id :: int
  jr_journal_type :: journal_type
  jr_transfer_id :: "string option"
  jr_created_at :: moment

record ledger_entry =
  en_id :: int
  en_journal_id :: int
  en_account_id :: int
  en_program_id :: int
  en_direction :: entry_direction
  en_amount :: int
  en_created_at :: moment

record idempotency_key =
  ik_id :: int
  ik_user_id :: string
  ik_key :: string
  ik_request_fingerprint :: string
  ik_status :: idempotency_status
  ik_response_status_code :: "int option"
  ik_response_body :: "json option"
  ik_transfer_id :: "string option"
  ik_created_at :: moment
  ik_expires_at :: moment

text \<open>The database: its tables, and the next value of each identity column.\<close>

record db =
  db_users :: "user_row list"
  db_programs :: "program list"
  db_rates :: "conversion_rate list"
  db_bonuses :: "transfer_bonus list"
  db_accounts :: "account list"
  db_transfers :: "transfer list"
  db_events :: "transfer_event list"
  db_journals :: "ledger_journal list"
  db_entries :: "ledger_entry list"
  db_keys :: "idempotency_key list"
  db_next_program_id :: int
  db_next_rate_id :: int
  db_next_bonus_id :: int
  db_next_account_id :: int
  db_next_event_id :: int
  db_next_journal_id :: int
  db_next_entry_id :: int
  db_next_key_id :: int

definition empty_db :: db where
  "empty_db = \<lparr>db_users = [], db_programs = [], db_rates = [], db_bonuses = [], db_accounts = [],
     db_transfers = [], db_events = [], db_journals = [], db_entries = [], db_keys = [],
     db_next_program_id = 1, db_next_rate_id = 1, db_next_bonus_id = 1, db_next_account_id = 1,
     db_next_event_id = 1, db_next_journal_id = 1, db_next_entry_id = 1, db_next_key_id = 1\<rparr>"

end
