(* ===== verification/Database.thy ===== *)
theory Database
  imports Schema
begin

text \<open>
  The statements that the services run against the schema, with the constraints of
  \<^verbatim>\<open>app/db/models.py\<close> and the triggers of the migration, and the transaction helper
  \<^verbatim>\<open>unit_of_work\<close> of \<^verbatim>\<open>app/db/session.py\<close> with the deferred trigger that rejects an unbalanced
  journal at commit. A statement that violates a constraint raises \<open>IntegrityError\<close> with the constraint's
  name, a value outside its column raises \<open>DataError\<close> with the column's name. CHECK constraints are tested
  in the order of their names, as PostgreSQL does, then unique indexes in order of creation, then foreign keys.
\<close>

section \<open>Constraints\<close>

definition checked :: "(bool \<times> string) list \<Rightarrow> unit result" where
  "checked cs = (case first_violation cs of None \<Rightarrow> Inr () | Some n \<Rightarrow> Inl (IntegrityError n))"

definition ranged :: "(bool \<times> string) list \<Rightarrow> unit result" where
  "ranged cs = (case first_violation cs of None \<Rightarrow> Inr () | Some n \<Rightarrow> Inl (DataError n))"

lemma checked_Inr_iff [result_simps]: "checked cs = Inr u \<longleftrightarrow> (\<forall>c \<in> set cs. fst c)"
  using first_violation_None_iff [of cs] by (auto simp: checked_def split: option.splits)

lemma ranged_Inr_iff [result_simps]: "ranged cs = Inr u \<longleftrightarrow> (\<forall>c \<in> set cs. fst c)"
  using first_violation_None_iff [of cs] by (auto simp: ranged_def split: option.splits)

lemma checked_Inl: "checked cs = Inl e \<Longrightarrow> \<exists>n \<in> snd ` set cs. e = IntegrityError n"
  using first_violation_Some [of cs] by (auto simp: checked_def split: option.splits)

lemma ranged_Inl: "ranged cs = Inl e \<Longrightarrow> \<exists>n \<in> snd ` set cs. e = DataError n"
  using first_violation_Some [of cs] by (auto simp: ranged_def split: option.splits)

definition in_int4 :: "int \<Rightarrow> bool" where
  "in_int4 x = (- (2 ^ 31) \<le> x \<and> x < 2 ^ 31)"

definition fits :: "nat \<Rightarrow> string option \<Rightarrow> bool" where
  "fits n s = (case s of None \<Rightarrow> True | Some t \<Rightarrow> length t \<le> n)"

definition owner_consistent :: "account \<Rightarrow> bool" where
  "owner_consistent a =
     ((acc_owner_type a = USER \<and> acc_user_id a \<noteq> None \<and> acc_account_type a = USER_BALANCE
        \<and> acc_external_member_id a \<noteq> None)
      \<or> (acc_owner_type a = SYSTEM \<and> acc_user_id a = None \<and> acc_account_type a \<noteq> USER_BALANCE
        \<and> acc_external_member_id a = None))"

definition account_checks :: "account \<Rightarrow> (bool \<times> string) list" where
  "account_checks a =
     [(owner_consistent a, ''ck_accounts_owner_consistent''),
      (acc_owner_type a \<noteq> USER \<or> 0 \<le> acc_balance a, ''ck_accounts_user_balance_non_negative'')]"

definition transfer_ranges :: "transfer \<Rightarrow> (bool \<times> string) list" where
  "transfer_ranges t =
     [(length (tr_id t) \<le> 40, ''id''),
      (length (tr_user_id t) \<le> 64, ''user_id''),
      (length (tr_idempotency_key t) \<le> 255, ''idempotency_key''),
      (in_bigint (tr_source_points t), ''source_points''),
      (in_bigint (tr_base_points t), ''base_points''),
      (in_bigint (tr_bonus_points t), ''bonus_points''),
      (in_bigint (tr_destination_points t), ''destination_points''),
      (fits 500 (tr_failure_message t), ''failure_message''),
      (fits 64 (tr_partner_reference t), ''partner_reference''),
      (fits 128 (tr_partner_confirmation_id t), ''partner_confirmation_id''),
      (in_int4 (tr_verification_attempts t), ''verification_attempts'')]"

definition transfer_checks :: "transfer \<Rightarrow> (bool \<times> string) list" where
  "transfer_checks t =
     [(0 \<le> tr_base_points t, ''ck_transfers_base_points_non_negative''),
      (0 \<le> tr_bonus_points t, ''ck_transfers_bonus_points_non_negative''),
      (tr_status t \<noteq> COMPLETED \<or> tr_partner_confirmation_id t \<noteq> None,
        ''ck_transfers_completed_has_confirmation''),
      (0 < tr_destination_points t, ''ck_transfers_destination_points_positive''),
      (tr_destination_points t = tr_base_points t + tr_bonus_points t,
        ''ck_transfers_destination_points_sum''),
      (tr_source_program_id t \<noteq> tr_destination_program_id t, ''ck_transfers_distinct_programs''),
      ((tr_status t \<in> {COMPLETED, REVERSED}) = (tr_completed_at t \<noteq> None),
        ''ck_transfers_final_has_completed_at''),
      (transfer_id_format (tr_id t), ''ck_transfers_id_format''),
      (tr_status t \<noteq> REVERSED \<or> tr_failure_code t \<noteq> None, ''ck_transfers_reversed_has_failure_code''),
      (0 < tr_source_points t, ''ck_transfers_source_points_positive''),
      (0 \<le> tr_verification_attempts t, ''ck_transfers_verification_attempts_non_negative'')]"

definition transfer_uniques :: "db \<Rightarrow> transfer \<Rightarrow> (bool \<times> string) list" where
  "transfer_uniques s t =
     [(\<not> list_ex (\<lambda>r. tr_id r = tr_id t) (db_transfers s), ''pk_transfers''),
      (\<not> list_ex (\<lambda>r. tr_partner_reference t \<noteq> None \<and> tr_partner_reference r = tr_partner_reference t)
          (db_transfers s), ''uq_transfers_partner_reference''),
      (\<not> list_ex (\<lambda>r. tr_user_id r = tr_user_id t \<and> tr_idempotency_key r = tr_idempotency_key t)
          (db_transfers s), ''uq_transfers_user_idempotency_key'')]"

definition account_in_program :: "db \<Rightarrow> int \<Rightarrow> int \<Rightarrow> bool" where
  "account_in_program s aid pid = list_ex (\<lambda>a. acc_id a = aid \<and> acc_program_id a = pid) (db_accounts s)"

definition transfer_references :: "db \<Rightarrow> transfer \<Rightarrow> (bool \<times> string) list" where
  "transfer_references s t =
     [(account_in_program s (tr_destination_account_id t) (tr_destination_program_id t),
        ''fk_transfers_destination_account_program''),
      (list_ex (\<lambda>p. prg_id p = tr_destination_program_id t) (db_programs s),
        ''fk_transfers_destination_program_id_programs''),
      (list_ex (\<lambda>r. cr_id r = tr_rate_id t) (db_rates s), ''fk_transfers_rate_id_conversion_rates''),
      (account_in_program s (tr_source_account_id t) (tr_source_program_id t),
        ''fk_transfers_source_account_program''),
      (list_ex (\<lambda>p. prg_id p = tr_source_program_id t) (db_programs s),
        ''fk_transfers_source_program_id_programs''),
      (list_ex (\<lambda>u. usr_id u = tr_user_id t) (db_users s), ''fk_transfers_user_id_users'')]"

section \<open>Statements\<close>

text \<open>\<^verbatim>\<open>INSERT INTO transfers\<close>; the two timestamps are the server default \<^verbatim>\<open>now()\<close>.\<close>

definition insert_transfer :: "moment \<Rightarrow> db \<Rightarrow> transfer \<Rightarrow> (transfer \<times> db) result" where
  "insert_transfer dbnow s t0 =
     (let t = t0\<lparr>tr_created_at := dbnow, tr_updated_at := dbnow\<rparr> in
      bindE (ranged (transfer_ranges t)) (\<lambda>_.
      bindE (checked (transfer_checks t @ transfer_uniques s t @ transfer_references s t)) (\<lambda>_.
      Inr (t, s\<lparr>db_transfers := db_transfers s @ [t]\<rparr>))))"

text \<open>
  The flush of a loaded transfer whose attributes were changed: nothing if no attribute changed,
  otherwise an \<^verbatim>\<open>UPDATE\<close> in which \<^verbatim>\<open>updated_at\<close> is \<^verbatim>\<open>now()\<close> (\<^verbatim>\<open>onupdate\<close>) unless it was
  changed too. Services change only the columns below, never the keys.
\<close>

definition touch_updated_at :: "moment \<Rightarrow> transfer \<Rightarrow> transfer \<Rightarrow> transfer" where
  "touch_updated_at dbnow old new =
     (if tr_updated_at new = tr_updated_at old then new\<lparr>tr_updated_at := dbnow\<rparr> else new)"

definition flush_transfer :: "moment \<Rightarrow> db \<Rightarrow> transfer \<Rightarrow> transfer \<Rightarrow> db result" where
  "flush_transfer dbnow s old new =
     (if new = old then Inr s
      else let t = touch_updated_at dbnow old new in
        bindE (ranged (transfer_ranges t)) (\<lambda>_.
        bindE (checked (transfer_checks t)) (\<lambda>_.
        Inr (s\<lparr>db_transfers := update_where (\<lambda>r. tr_id r = tr_id old) (\<lambda>_. t) (db_transfers s)\<rparr>))))"

definition insert_event ::
  "moment \<Rightarrow> db \<Rightarrow> string \<Rightarrow> transfer_status option \<Rightarrow> transfer_status \<Rightarrow> string
    \<Rightarrow> (string \<times> json) list \<Rightarrow> db result" where
  "insert_event dbnow s tid from_status to_status reason metadata =
     bindE (ranged [(length reason \<le> 200, ''reason'')]) (\<lambda>_.
     bindE (checked [(list_ex (\<lambda>t. tr_id t = tid) (db_transfers s),
       ''fk_transfer_events_transfer_id_transfers'')]) (\<lambda>_.
     Inr (s\<lparr>db_events := db_events s @ [\<lparr>ev_id = db_next_event_id s, ev_transfer_id = tid,
            ev_from_status = from_status, ev_to_status = to_status, ev_reason = reason,
            ev_metadata = metadata, ev_created_at = dbnow\<rparr>],
          db_next_event_id := db_next_event_id s + 1\<rparr>)))"

definition journal_checks :: "db \<Rightarrow> journal_type \<Rightarrow> string option \<Rightarrow> (bool \<times> string) list" where
  "journal_checks s jt tid =
     [((jt = SEED) = (tid = None), ''ck_ledger_journals_transfer_link_consistent''),
      (\<not> list_ex (\<lambda>j. tid \<noteq> None \<and> jr_transfer_id j = tid \<and> jr_journal_type j = jt) (db_journals s),
        ''uq_ledger_journals_transfer_type''),
      (case tid of None \<Rightarrow> True | Some i \<Rightarrow> list_ex (\<lambda>t. tr_id t = i) (db_transfers s),
        ''fk_ledger_journals_transfer_id_transfers'')]"

definition insert_journal ::
  "moment \<Rightarrow> db \<Rightarrow> journal_type \<Rightarrow> string option \<Rightarrow> (ledger_journal \<times> db) result" where
  "insert_journal dbnow s jt tid =
     bindE (checked (journal_checks s jt tid)) (\<lambda>_.
     let j = \<lparr>jr_id = db_next_journal_id s, jr_journal_type = jt, jr_transfer_id = tid,
              jr_created_at = dbnow\<rparr>
     in Inr (j, s\<lparr>db_journals := db_journals s @ [j],
                 db_next_journal_id := db_next_journal_id s + 1\<rparr>))"

definition insert_entry ::
  "moment \<Rightarrow> db \<Rightarrow> int \<Rightarrow> int \<Rightarrow> int \<Rightarrow> entry_direction \<Rightarrow> int \<Rightarrow> db result" where
  "insert_entry dbnow s jid aid pid dir amount =
     bindE (ranged [(in_bigint amount, ''amount'')]) (\<lambda>_.
     bindE (checked [(0 < amount, ''ck_ledger_entries_amount_positive''),
       (account_in_program s aid pid, ''fk_ledger_entries_account_program''),
       (list_ex (\<lambda>j. jr_id j = jid) (db_journals s), ''fk_ledger_entries_journal_id_ledger_journals'')]) (\<lambda>_.
     Inr (s\<lparr>db_entries := db_entries s @ [\<lparr>en_id = db_next_entry_id s, en_journal_id = jid,
            en_account_id = aid, en_program_id = pid, en_direction = dir, en_amount = amount,
            en_created_at = dbnow\<rparr>],
          db_next_entry_id := db_next_entry_id s + 1\<rparr>)))"

text \<open>\<^verbatim>\<open>UPDATE accounts SET balance = balance + delta, updated_at = now() WHERE id = aid\<close>\<close>

definition update_account_balance :: "moment \<Rightarrow> db \<Rightarrow> int \<Rightarrow> int \<Rightarrow> db result" where
  "update_account_balance dbnow s aid delta =
     (case find (\<lambda>a. acc_id a = aid) (db_accounts s) of
        None \<Rightarrow> Inr s
      | Some a \<Rightarrow>
          bindE (ranged [(in_bigint (acc_balance a + delta), ''balance'')]) (\<lambda>_.
          bindE (checked (account_checks (a\<lparr>acc_balance := acc_balance a + delta\<rparr>))) (\<lambda>_.
          Inr (s\<lparr>db_accounts := update_where (\<lambda>r. acc_id r = aid)
            (\<lambda>r. r\<lparr>acc_balance := acc_balance r + delta, acc_updated_at := dbnow\<rparr>) (db_accounts s)\<rparr>))))"

section \<open>Transactions\<close>

definition direction_total :: "ledger_entry list \<Rightarrow> int \<Rightarrow> int \<Rightarrow> entry_direction \<Rightarrow> int" where
  "direction_total entries jid pid dir =
     sum_list (map en_amount
       (filter (\<lambda>e. en_journal_id e = jid \<and> en_program_id e = pid \<and> en_direction e = dir) entries))"

text \<open>\<^verbatim>\<open>check_ledger_journal_balanced\<close>: no program of the journal has debits \<open>\<noteq>\<close> credits.\<close>

definition journal_balanced :: "ledger_entry list \<Rightarrow> int \<Rightarrow> bool" where
  "journal_balanced entries jid =
     list_all (\<lambda>e. en_journal_id e = jid \<longrightarrow>
       direction_total entries jid (en_program_id e) DEBIT
       = direction_total entries jid (en_program_id e) CREDIT) entries"

text \<open>The deferred trigger runs at commit for every entry the transaction inserted.\<close>

definition commit_checks :: "db \<Rightarrow> db \<Rightarrow> bool" where
  "commit_checks before after =
     list_all (\<lambda>e. journal_balanced (db_entries after) (en_journal_id e))
       (drop (length (db_entries before)) (db_entries after))"

definition unit_of_work :: "(db \<Rightarrow> ('a \<times> db) result) \<Rightarrow> db \<Rightarrow> 'a result \<times> db" where
  "unit_of_work body s =
     (case body s of
        Inl e \<Rightarrow> (Inl e, s)
      | Inr (x, s') \<Rightarrow> if commit_checks s s' then (Inr x, s') else (Inl (IntegrityError ''''), s))"

lemma unit_of_work_Inr_iff:
  "unit_of_work body s = (Inr x, s') \<longleftrightarrow> body s = Inr (x, s') \<and> commit_checks s s'"
  by (auto simp: unit_of_work_def split: sum.splits)

lemma unit_of_work_Inl: "unit_of_work body s = (Inl e, s') \<Longrightarrow> s' = s"
  by (auto simp: unit_of_work_def split: sum.splits if_splits)

end
