(* ===== verification/Ledger_Books.thy ===== *)
theory Ledger_Books
  imports Ledger
begin

text \<open>
  Why the ledger's books stay right. \<open>ledger_ok\<close> is what the schema's constraints guarantee of the
  ledger tables, \<open>books_ok\<close> is double entry: every stored balance is the sum of its entries, and every
  journal has equal debits and credits in every program. Under \<open>ledger_ok\<close>, \<open>books_ok\<close> is exactly
  that the four queries of \<^verbatim>\<open>ledger_invariants.py\<close> return no row. A posted journal keeps both, so the
  deferred trigger never rejects a commit of code that writes the ledger through \<open>post_journal\<close>.
\<close>

section \<open>What the constraints guarantee\<close>

definition ledger_ok :: "db \<Rightarrow> bool" where
  "ledger_ok s =
     (accounts_ok s
      \<and> distinct (map prg_id (db_programs s)) \<and> distinct (map prg_code (db_programs s))
      \<and> (\<forall>a \<in> set (db_accounts s). acc_program_id a \<in> prg_id ` set (db_programs s))
      \<and> distinct (map jr_id (db_journals s))
      \<and> (\<forall>j \<in> set (db_journals s). jr_id j < db_next_journal_id s)
      \<and> (\<forall>e \<in> set (db_entries s). account_in_program s (en_account_id e) (en_program_id e)
           \<and> en_journal_id e < db_next_journal_id s))"

definition balances_match :: "db \<Rightarrow> bool" where
  "balances_match s = (\<forall>a \<in> set (db_accounts s). acc_balance a = ledger_balance s (acc_id a))"

definition journals_balanced :: "db \<Rightarrow> bool" where
  "journals_balanced s =
     (\<forall>jid pid. direction_total (db_entries s) jid pid DEBIT = direction_total (db_entries s) jid pid CREDIT)"

definition books_ok :: "db \<Rightarrow> bool" where
  "books_ok s = (balances_match s \<and> journals_balanced s)"

definition program_total :: "db \<Rightarrow> int \<Rightarrow> int" where
  "program_total s pid = sum_list (map acc_balance (filter (\<lambda>a. acc_program_id a = pid) (db_accounts s)))"

lemma ledger_ok_accounts_ok: "ledger_ok s \<Longrightarrow> accounts_ok s"
  by (simp add: ledger_ok_def)

section \<open>Sums over entries\<close>

definition entry_total :: "ledger_entry list \<Rightarrow> int \<Rightarrow> int \<Rightarrow> int" where
  "entry_total es jid pid =
     sum_list (map entry_signed (filter (\<lambda>e. en_journal_id e = jid \<and> en_program_id e = pid) es))"

lemma entry_total_eq:
  "entry_total es jid pid = direction_total es jid pid CREDIT - direction_total es jid pid DEBIT"
proof (induction es)
  case (Cons e es)
  then show ?case
    by (cases "en_direction e") (simp_all add: entry_total_def direction_total_def entry_signed_def)
qed (simp add: entry_total_def direction_total_def)

lemma journals_balanced_iff: "journals_balanced s \<longleftrightarrow> (\<forall>jid pid. entry_total (db_entries s) jid pid = 0)"
  by (auto simp: journals_balanced_def entry_total_eq)

lemma sum_list_group:
  fixes f :: "'a \<Rightarrow> int"
  assumes "finite K" "key ` set xs \<subseteq> K"
  shows "sum_list (map f xs) = (\<Sum>k \<in> K. sum_list (map f (filter (\<lambda>x. key x = k) xs)))"
  using assms(2)
proof (induction xs)
  case (Cons x xs)
  have "(\<Sum>k \<in> K. sum_list (map f (filter (\<lambda>y. key y = k) (x # xs))))
      = (\<Sum>k \<in> K. (if k = key x then f x else 0) + sum_list (map f (filter (\<lambda>y. key y = k) xs)))"
    by (intro sum.cong) auto
  also have "\<dots> = f x + (\<Sum>k \<in> K. sum_list (map f (filter (\<lambda>y. key y = k) xs)))"
    using Cons.prems assms(1) by (simp add: sum.distrib)
  finally show ?case
    using Cons by simp
qed simp

text \<open>Balanced journals make the signed entries of a program cancel out.\<close>

lemma journals_balanced_program:
  assumes "journals_balanced s"
  shows "sum_list (map entry_signed (filter (\<lambda>e. en_program_id e = pid) (db_entries s))) = 0"
proof -
  let ?es = "filter (\<lambda>e. en_program_id e = pid) (db_entries s)"
  have "sum_list (map entry_signed ?es)
      = (\<Sum>jid \<in> en_journal_id ` set ?es. sum_list (map entry_signed (filter (\<lambda>e. en_journal_id e = jid) ?es)))"
    by (rule sum_list_group) auto
  also have "\<dots> = (\<Sum>jid \<in> en_journal_id ` set ?es. entry_total (db_entries s) jid pid)"
    by (simp add: entry_total_def conj_commute)
  also have "\<dots> = 0"
    using assms by (simp add: journals_balanced_iff)
  finally show ?thesis .
qed

lemma sum_list_pick:
  assumes "distinct (map key xs)"
  shows "sum_list (map (\<lambda>x. if P x \<and> key x = k then c else 0) xs)
    = (if \<exists>x \<in> set xs. P x \<and> key x = k then c else (0 :: int))"
  using assms by (induction xs) (auto simp: image_iff)

lemma program_total_entries:
  assumes ok: "ledger_ok s" and match: "balances_match s"
  shows "program_total s pid = sum_list (map entry_signed (filter (\<lambda>e. en_program_id e = pid) (db_entries s)))"
proof -
  have "program_total s pid
      = sum_list (map (\<lambda>a. if acc_program_id a = pid then ledger_balance s (acc_id a) else 0) (db_accounts s))"
    unfolding program_total_def sum_list_filter_pos
    using match by (intro arg_cong [where f = sum_list] map_cong) (auto simp: balances_match_def)
  also have "\<dots> = sum_list (map (\<lambda>a. sum_list (map
      (\<lambda>e. if acc_program_id a = pid \<and> acc_id a = en_account_id e then entry_signed e else 0) (db_entries s))) (db_accounts s))"
    by (intro arg_cong [where f = sum_list] map_cong refl)
      (auto simp: ledger_balance_def sum_list_filter_pos intro!: arg_cong [where f = sum_list])
  also have "\<dots> = sum_list (map (\<lambda>e. sum_list (map
      (\<lambda>a. if acc_program_id a = pid \<and> acc_id a = en_account_id e then entry_signed e else 0) (db_accounts s))) (db_entries s))"
    by (rule sum_list_swap)
  also have "\<dots> = sum_list (map (\<lambda>e. if en_program_id e = pid then entry_signed e else 0) (db_entries s))"
  proof (intro arg_cong [where f = sum_list] map_cong refl)
    fix e assume e: "e \<in> set (db_entries s)"
    have dist: "distinct (map acc_id (db_accounts s))"
      using ok by (simp add: ledger_ok_def accounts_ok_def)
    from ok e obtain a where a: "a \<in> set (db_accounts s)" "acc_id a = en_account_id e"
      "acc_program_id a = en_program_id e"
      by (auto simp: ledger_ok_def account_in_program_def list_ex_iff)
    have "b = a" if "b \<in> set (db_accounts s)" "acc_id b = en_account_id e" for b
      using dist a that by (auto simp: distinct_map inj_on_def)
    then show "sum_list (map (\<lambda>a. if acc_program_id a = pid \<and> acc_id a = en_account_id e
        then entry_signed e else 0) (db_accounts s)) = (if en_program_id e = pid then entry_signed e else 0)"
      unfolding sum_list_pick [OF dist] using a by (metis (mono_tags, lifting))
  qed
  finally show ?thesis
    by (simp add: sum_list_filter_pos)
qed

section \<open>The four queries say that the books are right\<close>

lemma joined_balances_program:
  assumes "ledger_ok s" "p \<in> set (db_programs s)"
  shows "sum_list (joined_balances s (prg_code p)) = program_total s (prg_id p)"
proof -
  have "distinct (map prg_code (db_programs s))"
    using assms(1) by (simp add: ledger_ok_def)
  then have one: "filter (\<lambda>q. prg_code q = prg_code p) (db_programs s) = [p]"
    using assms(2) by (rule filter_unique)
  have "[acc_balance a. q \<leftarrow> qs, prg_id q = acc_program_id a, prg_code q = prg_code p]
      = [acc_balance a. q \<leftarrow> filter (\<lambda>q. prg_code q = prg_code p) qs, prg_id q = acc_program_id a]"
    for a :: account and qs :: "program list"
    by (induction qs) auto
  then have "joined_balances s (prg_code p)
      = concat (map (\<lambda>a. if prg_id p = acc_program_id a then [acc_balance a] else []) (db_accounts s))"
    by (simp only: joined_balances_def one) simp
  moreover have "sum_list (concat (map (\<lambda>a. if prg_id p = acc_program_id a then [acc_balance a] else []) as))
      = sum_list (map acc_balance (filter (\<lambda>a. acc_program_id a = prg_id p) as))"
    for as :: "account list"
    by (induction as) auto
  ultimately show ?thesis
    by (simp add: program_total_def)
qed

lemma direction_total_outside:
  "(jid, pid) \<notin> (\<lambda>e. (en_journal_id e, en_program_id e)) ` set es \<Longrightarrow> direction_total es jid pid dir = 0"
  by (induction es) (auto simp: direction_total_def)

lemma list_comp_empty: "concat (map (\<lambda>x. if P x then [f x] else []) xs) = [] \<longleftrightarrow> (\<forall>x \<in> set xs. \<not> P x)"
  by auto

lemma journals_query_empty: "journals_balanced_per_program s = [] \<longleftrightarrow> journals_balanced s"
proof -
  have "journals_balanced_per_program s = [] \<longleftrightarrow>
    (\<forall>(jid, pid) \<in> (\<lambda>e. (en_journal_id e, en_program_id e)) ` set (db_entries s).
       direction_total (db_entries s) jid pid DEBIT = direction_total (db_entries s) jid pid CREDIT)"
    by (simp add: journals_balanced_per_program_def)
  also have "\<dots> \<longleftrightarrow> journals_balanced s"
    unfolding journals_balanced_def
  proof (intro iffI allI)
    fix jid pid
    assume "\<forall>(jid, pid) \<in> (\<lambda>e. (en_journal_id e, en_program_id e)) ` set (db_entries s).
       direction_total (db_entries s) jid pid DEBIT = direction_total (db_entries s) jid pid CREDIT"
    then show "direction_total (db_entries s) jid pid DEBIT = direction_total (db_entries s) jid pid CREDIT"
      using direction_total_outside [of jid pid "db_entries s"]
      by (cases "(jid, pid) \<in> (\<lambda>e. (en_journal_id e, en_program_id e)) ` set (db_entries s)") auto
  qed auto
  finally show ?thesis .
qed

lemma balances_query_empty: "account_balance_matches_entries s = [] \<longleftrightarrow> balances_match s"
  by (auto simp: account_balance_matches_entries_def balances_match_def)

lemma program_totals_zero:
  assumes "ledger_ok s" "books_ok s"
  shows "program_total s pid = 0"
  using program_total_entries [of s pid] journals_balanced_program [of s pid] assms
  by (simp add: books_ok_def)

lemma find_violations_empty_iff: "ledger_ok s \<Longrightarrow> find_violations s = [] \<longleftrightarrow> books_ok s"
proof -
  assume ok: "ledger_ok s"
  have "user_balances_non_negative s = []"
    using ok by (auto simp: user_balances_non_negative_def ledger_ok_def accounts_ok_def)
  moreover have "program_balances_sum_to_zero s = []" if "books_ok s"
    using joined_balances_program [OF ok] program_totals_zero [OF ok that]
    by (auto simp: program_balances_sum_to_zero_def)
  ultimately show ?thesis
    by (auto simp: find_violations_def books_ok_def journals_query_empty balances_query_empty)
qed

section \<open>Posting keeps the books\<close>

lemma posted_entries_account:
  "sum_list (map entry_signed (filter (\<lambda>e. en_account_id e = aid) (posted_entries dbnow n jid ps)))
     = account_net ps aid"
  by (induction ps arbitrary: n) (simp_all add: entry_signed_def signed_amount_def)

lemma posted_entries_total:
  "entry_total (posted_entries dbnow n jid ps) k pid = (if k = jid then net_of po_program_id ps pid else 0)"
  by (induction ps arbitrary: n) (auto simp: entry_total_def entry_signed_def signed_amount_def)

lemma entry_total_append [simp]: "entry_total (xs @ ys) jid pid = entry_total xs jid pid + entry_total ys jid pid"
  by (simp add: entry_total_def)

lemma posted_entries_mem:
  "e \<in> set (posted_entries dbnow n jid ps) \<Longrightarrow> en_journal_id e = jid \<and>
     (\<exists>p \<in> set ps. en_account_id e = po_account_id p \<and> en_program_id e = po_program_id p
        \<and> en_direction e = po_direction p \<and> en_amount e = po_amount p)"
  by (induction ps arbitrary: n) auto

lemma posted_simps [simp]:
  "db_users (posted dbnow s jt ps tid) = db_users s"
  "db_programs (posted dbnow s jt ps tid) = db_programs s"
  "db_rates (posted dbnow s jt ps tid) = db_rates s"
  "db_bonuses (posted dbnow s jt ps tid) = db_bonuses s"
  "db_transfers (posted dbnow s jt ps tid) = db_transfers s"
  "db_events (posted dbnow s jt ps tid) = db_events s"
  "db_keys (posted dbnow s jt ps tid) = db_keys s"
  "db_journals (posted dbnow s jt ps tid) = db_journals s @ [new_journal dbnow s jt tid]"
  "db_next_journal_id (posted dbnow s jt ps tid) = db_next_journal_id s + 1"
  "db_next_event_id (posted dbnow s jt ps tid) = db_next_event_id s"
  "db_entries (posted dbnow s jt ps tid)
     = db_entries s @ posted_entries dbnow (db_next_entry_id s) (db_next_journal_id s) ps"
  "db_accounts (posted dbnow s jt ps tid)
     = map (\<lambda>a. moved dbnow (account_net ps (acc_id a)) a) (db_accounts s)"
  by (simp_all add: posted_def)

lemma new_journal_simps [simp]:
  "jr_id (new_journal dbnow s jt tid) = db_next_journal_id s"
  "jr_journal_type (new_journal dbnow s jt tid) = jt"
  "jr_transfer_id (new_journal dbnow s jt tid) = tid"
  by (simp_all add: new_journal_def)

lemma ledger_balance_posted:
  "ledger_balance (posted dbnow s jt ps tid) aid = ledger_balance s aid + account_net ps aid"
  by (simp add: ledger_balance_def posted_entries_account)

lemma account_in_program_posted [simp]:
  "account_in_program (posted dbnow s jt ps tid) aid pid = account_in_program s aid pid"
  by (simp add: account_in_program_def list_ex_iff)

lemma posted_journals_balanced:
  assumes "ledger_ok s" "journals_balanced s" "validate_journal ps = Inr ()"
  shows "journals_balanced (posted dbnow s jt ps tid)"
proof -
  have "entry_total (db_entries s) (db_next_journal_id s) pid = 0" for pid
    using assms(2) by (simp add: journals_balanced_iff)
  with assms(2,3) show ?thesis
    by (auto simp: journals_balanced_iff posted_entries_total validate_journal_Inr_iff)
qed

lemma posted_books_ok:
  assumes "ledger_ok s" "books_ok s" "validate_journal ps = Inr ()"
  shows "books_ok (posted dbnow s jt ps tid)"
  using assms posted_journals_balanced [of s ps dbnow jt tid]
  by (auto simp: books_ok_def balances_match_def ledger_balance_posted)

lemma posted_accounts_ok: "accounts_ok s \<Longrightarrow> \<not> overdrawn s ps \<Longrightarrow> accounts_ok (posted dbnow s jt ps tid)"
  by (auto simp: accounts_ok_def overdrawn_def comp_def not_less)

lemma posted_ledger_ok:
  assumes "ledger_ok s" "postable s jt ps tid" "\<not> overdrawn s ps"
  shows "ledger_ok (posted dbnow s jt ps tid)"
  unfolding ledger_ok_def
proof (intro conjI)
  show "accounts_ok (posted dbnow s jt ps tid)"
    using assms by (auto intro: posted_accounts_ok ledger_ok_accounts_ok)
  show "\<forall>e \<in> set (db_entries (posted dbnow s jt ps tid)).
      account_in_program (posted dbnow s jt ps tid) (en_account_id e) (en_program_id e)
      \<and> en_journal_id e < db_next_journal_id (posted dbnow s jt ps tid)"
    using assms by (auto simp: ledger_ok_def postable_def dest!: posted_entries_mem)
  show "distinct (map jr_id (db_journals (posted dbnow s jt ps tid)))"
    using assms(1) by (force simp: ledger_ok_def)
  show "\<forall>j \<in> set (db_journals (posted dbnow s jt ps tid)). jr_id j < db_next_journal_id (posted dbnow s jt ps tid)"
    using assms(1) by (auto simp: ledger_ok_def)
qed (use assms(1) in \<open>auto simp: ledger_ok_def\<close>)

text \<open>A successful posting never leaves a user's balance negative.\<close>

lemma apply_balance_changes_accounts_ok:
  "apply_balance_changes dbnow s cs = Inr s' \<Longrightarrow> accounts_ok s \<Longrightarrow> accounts_ok s'"
proof (induction cs arbitrary: s)
  case (Cons c cs)
  obtain aid d where c: "c = (aid, d)" by (cases c)
  have keep: "accounts_ok s1" if "update_account_balance dbnow s aid d = Inr s1" for s1
  proof (cases "find (\<lambda>a. acc_id a = aid) (db_accounts s)")
    case (Some a)
    have a: "a \<in> set (db_accounts s)" "acc_id a = aid"
      using find_SomeD [OF Some] by auto
    have "b = a" if "b \<in> set (db_accounts s)" "acc_id b = aid" for b
      using Cons.prems(2) that a by (auto simp: accounts_ok_def distinct_map inj_on_def)
    moreover have "owner_consistent (b\<lparr>acc_balance := x, acc_updated_at := y\<rparr>) = owner_consistent b" for b :: account and x y
      by (simp add: owner_consistent_def)
    ultimately show ?thesis
      using that Some Cons.prems(2)
      by (auto simp: update_account_balance_def result_simps accounts_ok_def account_checks_def
          update_where_def comp_def if_distrib cong: if_cong)
  qed (use that Cons.prems(2) in \<open>auto simp: update_account_balance_def\<close>)
  from Cons.prems Cons.IH keep c show ?case
    by (auto simp: result_simps split: if_splits)
qed simp

lemma post_journal_not_overdrawn:
  assumes "post_journal dbnow s jt ps tid = Inr (j, s')" "accounts_ok s"
  shows "\<not> overdrawn s ps"
proof -
  have "accounts_ok s'"
    using assms by (auto simp: post_journal_def result_simps insert_journal_Inr_iff
        insert_entries_Inr_iff accounts_ok_def dest!: apply_balance_changes_accounts_ok)
  then show ?thesis
    unfolding post_journal_Inr(3) [OF assms(1)] by (auto simp: accounts_ok_def overdrawn_def not_less)
qed

lemma post_journal_keeps:
  assumes "post_journal dbnow s jt ps tid = Inr (j, s')" "ledger_ok s"
  shows "ledger_ok s'" and "books_ok s \<Longrightarrow> books_ok s'"
  using post_journal_Inr [OF assms(1)] post_journal_not_overdrawn [OF assms(1)] assms(2)
  by (auto simp: posted_ledger_ok posted_books_ok ledger_ok_accounts_ok postable_def)

text \<open>The deferred trigger passes whenever the books are right.\<close>

lemma books_ok_commit: "books_ok s' \<Longrightarrow> commit_checks s s'"
  by (auto simp: commit_checks_def journal_balanced_def list_all_iff books_ok_def journals_balanced_def)

section \<open>A sample database\<close>

text \<open>
  Two programs with a 2:3 route, one user with an account in each, the system accounts, and the seed
  journal that gave the user 5000 points of the first program.
\<close>

definition sample_account :: "int \<Rightarrow> string option \<Rightarrow> int \<Rightarrow> account_type \<Rightarrow> int \<Rightarrow> account" where
  "sample_account i u pid ty bal =
     \<lparr>acc_id = i, acc_owner_type = (if u = None then SYSTEM else USER), acc_user_id = u,
      acc_program_id = pid, acc_account_type = ty,
      acc_external_member_id = (if u = None then None else Some ''M-0001''),
      acc_balance = bal, acc_created_at = 0, acc_updated_at = 0\<rparr>"

definition sample_program :: "int \<Rightarrow> string \<Rightarrow> program_type \<Rightarrow> program" where
  "sample_program i code ty =
     \<lparr>prg_id = i, prg_code = code, prg_name = code, prg_type = ty, prg_partner_code = code,
      prg_active = True, prg_created_at = 0\<rparr>"

definition sample_db :: db where
  "sample_db = empty_db\<lparr>
     db_users := [\<lparr>usr_id = ''user_1'', usr_created_at = 0\<rparr>],
     db_programs := [sample_program 1 ''CARD_A'' CARD, sample_program 2 ''AIR_B'' LOYALTY],
     db_rates := [\<lparr>cr_id = 1, cr_source_program_id = 1, cr_destination_program_id = 2, cr_numerator = 2,
       cr_denominator = 3, cr_min_source_points = 100, cr_source_increment = 100,
       cr_max_source_points = None, cr_version = 1, cr_effective_from = 0, cr_effective_to = None,
       cr_active = True, cr_created_at = 0\<rparr>],
     db_accounts := [sample_account 1 None 1 TRANSFER_CLEARING 0,
       sample_account 2 None 1 PARTNER_SETTLEMENT (-5000), sample_account 3 None 2 TRANSFER_CLEARING 0,
       sample_account 4 None 2 PARTNER_SETTLEMENT 0, sample_account 5 (Some ''user_1'') 1 USER_BALANCE 5000,
       sample_account 6 (Some ''user_1'') 2 USER_BALANCE 0],
     db_journals := [\<lparr>jr_id = 1, jr_journal_type = SEED, jr_transfer_id = None, jr_created_at = 0\<rparr>],
     db_entries := [
       \<lparr>en_id = 1, en_journal_id = 1, en_account_id = 2, en_program_id = 1, en_direction = DEBIT,
         en_amount = 5000, en_created_at = 0\<rparr>,
       \<lparr>en_id = 2, en_journal_id = 1, en_account_id = 5, en_program_id = 1, en_direction = CREDIT,
         en_amount = 5000, en_created_at = 0\<rparr>],
     db_next_program_id := 3, db_next_rate_id := 2, db_next_account_id := 7,
     db_next_journal_id := 2, db_next_entry_id := 3\<rparr>"

definition sample_postings :: "int \<Rightarrow> posting list" where
  "sample_postings n = [debit (sample_account 5 (Some ''user_1'') 1 USER_BALANCE 5000) n,
     credit (sample_account 1 None 1 TRANSFER_CLEARING 0) n]"

definition sample_id :: string where
  "sample_id = ''tr_01ARZ3NDEKTSV4RRFFQ69G5FAV''"

definition sample_transfer :: transfer where
  "sample_transfer =
     \<lparr>tr_id = sample_id, tr_user_id = ''user_1'', tr_idempotency_key = ''key-1'',
      tr_source_program_id = 1, tr_destination_program_id = 2, tr_source_account_id = 5,
      tr_destination_account_id = 6, tr_source_points = 900, tr_base_points = 600, tr_bonus_points = 0,
      tr_destination_points = 600, tr_rate_id = 1, tr_rate_snapshot = [], tr_status = PENDING,
      tr_failure_code = None, tr_failure_message = None, tr_partner_reference = Some sample_id,
      tr_partner_confirmation_id = None, tr_verification_attempts = 0, tr_next_verification_at = None,
      tr_created_at = 0, tr_updated_at = 0, tr_completed_at = None\<rparr>"

lemma sample_db_ok: "ledger_ok sample_db" "find_violations sample_db = []"
  by code_simp+

section \<open>Properties of the ledger\<close>

text \<open>
  C27: posting a valid journal has exactly two outcomes. If it would take a user's balance below
  zero the call raises \<^verbatim>\<open>INSUFFICIENT_BALANCE\<close>; otherwise it returns the new journal, appends the
  journal and one entry per posting, and moves every account by the net of its postings, in one step.
\<close>

theorem post_journal_outcome:
  assumes "accounts_ok s" "postable s jt ps tid"
    and "\<forall>a \<in> set (db_accounts s). in_bigint (acc_balance a + account_net ps (acc_id a))"
  shows "post_journal dbnow s jt ps tid =
    (if overdrawn s ps then Inl insufficient_balance
     else Inr (new_journal dbnow s jt tid, posted dbnow s jt ps tid))"
  using assms by (rule post_journal_eq)

theorem post_journal_outcome_witness:
  "post_journal 9 sample_db SEED (sample_postings 5000) None =
     Inr (new_journal 9 sample_db SEED None, posted 9 sample_db SEED (sample_postings 5000) None)
   \<and> post_journal 9 sample_db SEED (sample_postings 5001) None = Inl insufficient_balance"
proof -
  have "accounts_ok sample_db" "postable sample_db SEED (sample_postings 5000) None"
    "postable sample_db SEED (sample_postings 5001) None"
    "\<forall>a \<in> set (db_accounts sample_db). in_bigint (acc_balance a + account_net (sample_postings 5000) (acc_id a))"
    "\<forall>a \<in> set (db_accounts sample_db). in_bigint (acc_balance a + account_net (sample_postings 5001) (acc_id a))"
    by code_simp+
  moreover have "\<not> overdrawn sample_db (sample_postings 5000)" "overdrawn sample_db (sample_postings 5001)"
    by code_simp+
  ultimately show ?thesis
    using post_journal_outcome [of sample_db SEED "sample_postings 5000" None 9]
      post_journal_outcome [of sample_db SEED "sample_postings 5001" None 9] by simp
qed

text \<open>
  C28: whatever journal is posted, a database without ledger violations stays without them: balances
  still equal the sum of their entries, journals balance per program, programs sum to zero, no user
  is negative. The deferred trigger accepts the commit, and entries and journals are append-only.
\<close>

theorem post_journal_keeps_books:
  assumes "ledger_ok s" "find_violations s = []" "post_journal dbnow s jt ps tid = Inr (j, s')"
  shows "ledger_ok s' \<and> find_violations s' = [] \<and> commit_checks s s'
    \<and> take (length (db_entries s)) (db_entries s') = db_entries s
    \<and> db_journals s' = db_journals s @ [j]"
  using assms post_journal_keeps [OF assms(3,1)] post_journal_Inr [OF assms(3)]
  by (simp add: find_violations_empty_iff books_ok_commit)

theorem post_journal_keeps_books_witness:
  "find_violations (posted 9 sample_db SEED (sample_postings 700) None) = []"
proof -
  have "post_journal 9 sample_db SEED (sample_postings 700) None
      = Inr (new_journal 9 sample_db SEED None, posted 9 sample_db SEED (sample_postings 700) None)"
    by code_simp
  from post_journal_keeps_books [OF sample_db_ok this] show ?thesis by simp
qed

text \<open>
  C29: the four queries of the invariant check are complete. On a database whose constraints hold they
  return no row exactly if every balance is the sum of the account's entries and every journal balances
  in every program, and then the balances of every program sum to zero.
\<close>

theorem find_violations_complete:
  assumes "ledger_ok s"
  shows "(find_violations s = [] \<longleftrightarrow>
      (\<forall>a \<in> set (db_accounts s). acc_balance a = ledger_balance s (acc_id a)) \<and>
      (\<forall>jid pid. direction_total (db_entries s) jid pid DEBIT = direction_total (db_entries s) jid pid CREDIT))
    \<and> (find_violations s = [] \<longrightarrow> (\<forall>pid. program_total s pid = 0))"
  using find_violations_empty_iff [OF assms] program_totals_zero [OF assms]
  by (auto simp: books_ok_def balances_match_def journals_balanced_def)

theorem find_violations_complete_witness:
  "program_total sample_db 1 = 0 \<and> find_violations (sample_db\<lparr>db_entries := tl (db_entries sample_db)\<rparr>) \<noteq> []"
proof
  show "program_total sample_db 1 = 0"
    using find_violations_complete [OF sample_db_ok(1)] sample_db_ok(2) by blast
qed code_simp

text \<open>
  A journal of a given type is posted at most once per transfer. After a successful posting, every
  further valid posting of that type for that transfer raises \<^verbatim>\<open>JournalAlreadyPostedError\<close>.
\<close>

lemma post_journal_once:
  assumes "post_journal dbnow s jt ps (Some tid) = Inr (j, s')" "validate_journal ps' = Inr ()"
  shows "post_journal dbnow' s' jt ps' (Some tid) = Inl (JournalAlreadyPostedError (Some tid) jt)"
proof -
  have "jt \<noteq> SEED"
    using post_journal_Inr(1) [OF assms(1)] by (simp add: postable_def journal_checks_def)
  then have "insert_journal dbnow' s' jt (Some tid) = Inl (IntegrityError ''uq_ledger_journals_transfer_type'')"
    using post_journal_Inr(3) [OF assms(1)]
    by (simp add: insert_journal_def journal_checks_def checked_def)
  with assms(2) show ?thesis
    by (simp add: post_journal_def on_journal_error_def)
qed

lemma lock_accounts_for_update_eq:
  "lock_accounts_for_update s ids =
    (if set ids \<subseteq> acc_id ` set (db_accounts s)
     then Inr (map (\<lambda>a. (acc_id a, a)) (sort_key acc_id (filter (\<lambda>a. acc_id a \<in> set ids) (db_accounts s))))
     else Inl (LedgerError (AccountsMissing (filter (\<lambda>i. i \<notin> acc_id ` set (db_accounts s)) (sorted_set ids)))))"
proof -
  let ?rows = "sort_key acc_id (filter (\<lambda>a. acc_id a \<in> set (sorted_set ids)) (db_accounts s))"
  have "fst ` set (map (\<lambda>a. (acc_id a, a)) ?rows) = set ids \<inter> acc_id ` set (db_accounts s)"
    by (force simp: sorted_set_def)
  then have "filter (\<lambda>i. i \<notin> fst ` set (map (\<lambda>a. (acc_id a, a)) ?rows)) (sorted_set ids)
      = filter (\<lambda>i. i \<notin> acc_id ` set (db_accounts s)) (sorted_set ids)"
    by (intro filter_cong) (auto simp: sorted_set_def)
  moreover have "filter (\<lambda>i. i \<notin> acc_id ` set (db_accounts s)) (sorted_set ids) = []
      \<longleftrightarrow> set ids \<subseteq> acc_id ` set (db_accounts s)"
    by (auto simp: sorted_set_def filter_empty_conv)
  ultimately show ?thesis
    by (simp add: lock_accounts_for_update_def Let_def sorted_set_def)
qed

lemma locked_rows_ids:
  assumes "distinct (map acc_id (db_accounts s))" "set ids \<subseteq> acc_id ` set (db_accounts s)"
  shows "map acc_id (sort_key acc_id (filter (\<lambda>a. acc_id a \<in> set ids) (db_accounts s))) = sorted_list_of_set (set ids)"
proof (rule sorted_distinct_set_unique)
  show "distinct (map acc_id (sort_key acc_id (filter (\<lambda>a. acc_id a \<in> set ids) (db_accounts s))))"
    using assms(1) by (auto simp: distinct_map inj_on_def)
  show "set (map acc_id (sort_key acc_id (filter (\<lambda>a. acc_id a \<in> set ids) (db_accounts s))))
      = set (sorted_list_of_set (set ids))"
    using assms(2) by auto
qed simp_all

text \<open>
  rows are locked in ascending id order, whatever the order of the request. On success the result
  holds exactly the requested accounts, each once and with its current row; the only failure is
  \<^verbatim>\<open>LedgerError\<close> for ids that do not exist. Two callers therefore take their common locks in the
  same order.
\<close>

lemma lock_accounts_for_update_order:
  assumes "accounts_ok s"
  shows "lock_accounts_for_update s ids =
    (if set ids \<subseteq> acc_id ` set (db_accounts s)
     then Inr (map (\<lambda>a. (acc_id a, a)) (sort_key acc_id (filter (\<lambda>a. acc_id a \<in> set ids) (db_accounts s))))
     else Inl (LedgerError (AccountsMissing (filter (\<lambda>i. i \<notin> acc_id ` set (db_accounts s)) (sorted_set ids)))))
   \<and> (\<forall>rows. lock_accounts_for_update s ids = Inr rows \<longrightarrow>
        map fst rows = sorted_list_of_set (set ids) \<and> (\<forall>(i, a) \<in> set rows. a \<in> set (db_accounts s) \<and> acc_id a = i))"
proof -
  have "map acc_id (sort_key acc_id (filter (\<lambda>a. acc_id a \<in> set ids) (db_accounts s))) = sorted_list_of_set (set ids)"
    if "set ids \<subseteq> acc_id ` set (db_accounts s)"
    using assms that by (intro locked_rows_ids) (simp_all add: accounts_ok_def)
  then show ?thesis
    by (auto simp: lock_accounts_for_update_eq comp_def)
qed

end
