(* ===== verification/Transfer_State.thy ===== *)
theory Transfer_State
  imports Ledger_Books
begin

text \<open>
  The transfer state machine, \<^verbatim>\<open>app/domain/transfer_state.py\<close>: the allowed moves, the audit events and
  \<open>transition\<close>, which changes the loaded transfer and adds an event to the session. The session's
  pending changes reach the database when it flushes, at the latest at commit: \<open>flush_changes\<close> writes
  the changed transfer and then the pending events. \<open>replay\<close> reads an audit trail back.
\<close>

section \<open>The allowed moves\<close>

fun ALLOWED_TRANSITIONS :: "transfer_status \<Rightarrow> transfer_status list" where
  "ALLOWED_TRANSITIONS PENDING = [SOURCE_DEBITED]"
| "ALLOWED_TRANSITIONS SOURCE_DEBITED = [PARTNER_SUBMITTED, REVERSED]"
| "ALLOWED_TRANSITIONS PARTNER_SUBMITTED = [COMPLETED, REVERSED, PENDING_VERIFICATION]"
| "ALLOWED_TRANSITIONS PENDING_VERIFICATION = [COMPLETED, REVERSED, MANUAL_REVIEW]"
| "ALLOWED_TRANSITIONS COMPLETED = []"
| "ALLOWED_TRANSITIONS REVERSED = []"
| "ALLOWED_TRANSITIONS MANUAL_REVIEW = []"

definition FINAL_STATUSES :: "transfer_status list" where
  "FINAL_STATUSES = [COMPLETED, REVERSED]"

definition can_transition :: "transfer_status \<Rightarrow> transfer_status \<Rightarrow> bool" where
  "can_transition from_status to_status = (to_status \<in> set (ALLOWED_TRANSITIONS from_status))"

section \<open>Events and transitions\<close>

record pending_event =
  pe_transfer_id :: string
  pe_from_status :: "transfer_status option"
  pe_to_status :: transfer_status
  pe_reason :: string
  pe_metadata :: "(string \<times> json) list"

definition record_creation :: "transfer \<Rightarrow> string \<Rightarrow> pending_event" where
  "record_creation t reason =
     \<lparr>pe_transfer_id = tr_id t, pe_from_status = None, pe_to_status = tr_status t,
      pe_reason = reason, pe_metadata = []\<rparr>"

text \<open>
  \<open>transition wall t to reason metadata now\<close>: \<open>wall\<close> is the value of \<^verbatim>\<open>datetime.now(UTC)\<close>, used when
  the caller passes no \<open>now\<close>. It returns the changed transfer and the event it added.
\<close>

definition transition ::
  "moment \<Rightarrow> transfer \<Rightarrow> transfer_status \<Rightarrow> string \<Rightarrow> (string \<times> json) list \<Rightarrow> moment option
    \<Rightarrow> (transfer \<times> pending_event) result" where
  "transition wall t to_status reason metadata now =
     (let from_status = tr_status t in
      bindE (raise_if (\<not> can_transition from_status to_status)
        (InvalidStateTransitionError (tr_id t) from_status to_status)) (\<lambda>_.
      let moment = (case now of None \<Rightarrow> wall | Some m \<Rightarrow> m);
          t1 = t\<lparr>tr_status := to_status, tr_updated_at := moment\<rparr>;
          t2 = (if to_status \<in> set FINAL_STATUSES then t1\<lparr>tr_completed_at := Some moment\<rparr> else t1)
      in Inr (t2, \<lparr>pe_transfer_id = tr_id t, pe_from_status = Some from_status,
        pe_to_status = to_status, pe_reason = reason, pe_metadata = metadata\<rparr>)))"

definition flush_event :: "moment \<Rightarrow> db \<Rightarrow> pending_event \<Rightarrow> db result" where
  "flush_event dbnow s e =
     insert_event dbnow s (pe_transfer_id e) (pe_from_status e) (pe_to_status e) (pe_reason e) (pe_metadata e)"

fun flush_events :: "moment \<Rightarrow> db \<Rightarrow> pending_event list \<Rightarrow> db result" where
  "flush_events dbnow s [] = Inr s"
| "flush_events dbnow s (e # es) = bindE (flush_event dbnow s e) (\<lambda>s'. flush_events dbnow s' es)"

definition flush_changes :: "moment \<Rightarrow> db \<Rightarrow> transfer \<Rightarrow> transfer \<Rightarrow> pending_event list \<Rightarrow> db result" where
  "flush_changes dbnow s old new es =
     bindE (flush_transfer dbnow s old new) (\<lambda>s'. flush_events dbnow s' es)"

section \<open>Runs of the machine\<close>

inductive moves :: "transfer_status \<Rightarrow> transfer_status list \<Rightarrow> transfer_status \<Rightarrow> bool" where
  moves_refl: "moves st [] st"
| moves_step: "can_transition st st' \<Longrightarrow> moves st' sts st'' \<Longrightarrow> moves st (st' # sts) st''"

inductive_cases moves_NilE [elim!]: "moves st [] st'"
inductive_cases moves_ConsE [elim!]: "moves st (x # xs) st'"

inductive_simps moves_Cons_iff: "moves st (x # xs) st'"

definition terminal :: "transfer_status \<Rightarrow> bool" where
  "terminal st = (ALLOWED_TRANSITIONS st = [])"

lemma terminal_iff: "terminal st \<longleftrightarrow> st \<in> {COMPLETED, REVERSED, MANUAL_REVIEW}"
  by (cases st) (simp_all add: terminal_def)

lemma terminal_no_move: "terminal st \<Longrightarrow> \<not> can_transition st st'"
  by (simp add: terminal_def can_transition_def)

fun rank :: "transfer_status \<Rightarrow> nat" where
  "rank PENDING = 4"
| "rank SOURCE_DEBITED = 3"
| "rank PARTNER_SUBMITTED = 2"
| "rank PENDING_VERIFICATION = 1"
| "rank _ = 0"

lemma can_transition_rank: "can_transition st st' \<Longrightarrow> rank st' < rank st"
  by (cases st) (auto simp: can_transition_def)

lemma moves_rank: "moves st sts st' \<Longrightarrow> length sts + rank st' \<le> rank st"
  by (induction rule: moves.induct) (auto dest: can_transition_rank)

text \<open>The audit trail of a transfer, read back: the status it ends in, if every event continues the last.\<close>

definition event_follows :: "transfer_status option \<Rightarrow> transfer_event \<Rightarrow> bool" where
  "event_follows cur e =
     (ev_from_status e = cur \<and>
      (case cur of None \<Rightarrow> ev_to_status e = PENDING | Some st \<Rightarrow> can_transition st (ev_to_status e)))"

fun replay :: "transfer_status option \<Rightarrow> transfer_event list \<Rightarrow> transfer_status option" where
  "replay cur [] = cur"
| "replay cur (e # es) = (if event_follows cur e then replay (Some (ev_to_status e)) es else None)"

definition events_of :: "db \<Rightarrow> string \<Rightarrow> transfer_event list" where
  "events_of s tid = filter (\<lambda>e. ev_transfer_id e = tid) (db_events s)"

lemma replay_snoc:
  "replay cur (es @ [e]) = Some st \<longleftrightarrow>
     (\<exists>cur'. replay cur es = cur' \<and> (es = [] \<or> cur' \<noteq> None) \<and> event_follows cur' e \<and> st = ev_to_status e)"
  by (induction es arbitrary: cur) auto

lemma replay_moves: "replay (Some st) es = Some st' \<Longrightarrow> moves st (map ev_to_status es) st'"
  by (induction es arbitrary: st) (auto simp: event_follows_def split: if_splits intro: moves.intros)

section \<open>Inversion of the operations\<close>

lemma transition_Inr_iff:
  "transition wall t st reason md now = Inr (t', e) \<longleftrightarrow>
     can_transition (tr_status t) st
     \<and> t' = t\<lparr>tr_status := st, tr_updated_at := (case now of None \<Rightarrow> wall | Some m \<Rightarrow> m),
             tr_completed_at := (if st \<in> {COMPLETED, REVERSED}
               then Some (case now of None \<Rightarrow> wall | Some m \<Rightarrow> m) else tr_completed_at t)\<rparr>
     \<and> e = \<lparr>pe_transfer_id = tr_id t, pe_from_status = Some (tr_status t), pe_to_status = st,
             pe_reason = reason, pe_metadata = md\<rparr>"
  by (auto simp: transition_def result_simps Let_def FINAL_STATUSES_def)

definition added_event :: "moment \<Rightarrow> db \<Rightarrow> pending_event \<Rightarrow> transfer_event" where
  "added_event dbnow s e = \<lparr>ev_id = db_next_event_id s, ev_transfer_id = pe_transfer_id e,
     ev_from_status = pe_from_status e, ev_to_status = pe_to_status e, ev_reason = pe_reason e,
     ev_metadata = pe_metadata e, ev_created_at = dbnow\<rparr>"

lemma flush_event_Inr_iff:
  "flush_event dbnow s e = Inr s' \<longleftrightarrow>
     length (pe_reason e) \<le> 200 \<and> list_ex (\<lambda>t. tr_id t = pe_transfer_id e) (db_transfers s)
     \<and> s' = s\<lparr>db_events := db_events s @ [added_event dbnow s e], db_next_event_id := db_next_event_id s + 1\<rparr>"
  by (auto simp: flush_event_def insert_event_def result_simps added_event_def)

lemma flush_transfer_Inr:
  assumes "flush_transfer dbnow s old new = Inr s'"
  shows "\<exists>t. (t = new \<or> t = new\<lparr>tr_updated_at := dbnow\<rparr>)
    \<and> (new \<noteq> old \<longrightarrow> (\<forall>c \<in> set (transfer_ranges t @ transfer_checks t). fst c))
    \<and> s' = (if new = old then s else
        s\<lparr>db_transfers := update_where (\<lambda>r. tr_id r = tr_id old) (\<lambda>_. t) (db_transfers s)\<rparr>)"
  using assms
  by (auto simp: flush_transfer_def touch_updated_at_def result_simps Let_def split: if_splits)

section \<open>Properties of the state machine\<close>

text \<open>
  a transition does what the table says. A move in the table sets the status and \<^verbatim>\<open>updated_at\<close>, sets
  \<^verbatim>\<open>completed_at\<close> exactly for the final statuses, touches no other column and adds the event that
  records the move; any other move raises and changes nothing.
\<close>

lemma transition_outcome:
  "transition wall t st reason md now =
    (if st \<in> set (ALLOWED_TRANSITIONS (tr_status t))
     then let m = (case now of None \<Rightarrow> wall | Some m \<Rightarrow> m) in
       Inr (t\<lparr>tr_status := st, tr_updated_at := m,
              tr_completed_at := (if st = COMPLETED \<or> st = REVERSED then Some m else tr_completed_at t)\<rparr>,
            \<lparr>pe_transfer_id = tr_id t, pe_from_status = Some (tr_status t), pe_to_status = st,
             pe_reason = reason, pe_metadata = md\<rparr>)
     else Inl (InvalidStateTransitionError (tr_id t) (tr_status t) st))"
  by (auto simp: transition_def can_transition_def FINAL_STATUSES_def Let_def)

text \<open>
  The machine terminates. A run from \<open>PENDING\<close> has at most four moves; the statuses without a
  successor are exactly COMPLETED, REVERSED and MANUAL_REVIEW; a run that reaches one of them stays
  there, so no transfer is both completed and reversed; and every status is reachable.
\<close>

lemma status_machine_terminates:
  "(moves PENDING sts st \<longrightarrow> length sts \<le> 4)
   \<and> ((\<forall>st'. \<not> can_transition st st') \<longleftrightarrow> st \<in> {COMPLETED, REVERSED, MANUAL_REVIEW})
   \<and> (moves st sts' st' \<longrightarrow> st \<in> {COMPLETED, REVERSED, MANUAL_REVIEW} \<longrightarrow> sts' = [] \<and> st' = st)
   \<and> (\<exists>run. moves PENDING run st)"
proof (intro conjI impI)
  show "length sts \<le> 4" if "moves PENDING sts st"
    using moves_rank [OF that] by simp
  show "(\<forall>st'. \<not> can_transition st st') \<longleftrightarrow> st \<in> {COMPLETED, REVERSED, MANUAL_REVIEW}"
    by (cases st) (auto simp: can_transition_def)
  assume "moves st sts' st'" "st \<in> {COMPLETED, REVERSED, MANUAL_REVIEW}"
  then show "sts' = []" "st' = st"
    by (induction rule: moves.induct) (auto simp: can_transition_def)
next
  have step: "\<exists>run. moves PENDING run st \<Longrightarrow> can_transition st st' \<Longrightarrow> \<exists>run. moves PENDING run st'" for st st'
  proof (elim exE)
    fix run assume "moves PENDING run st" "can_transition st st'"
    then have "moves PENDING (run @ [st']) st'"
      by (induction rule: moves.induct) (auto intro: moves.intros)
    then show ?thesis by blast
  qed
  have "\<exists>run. moves PENDING run PENDING" by (blast intro: moves_refl)
  moreover from this have "\<exists>run. moves PENDING run SOURCE_DEBITED"
    by (rule step) (simp add: can_transition_def)
  moreover from this have "\<exists>run. moves PENDING run PARTNER_SUBMITTED"
    by (rule step) (simp add: can_transition_def)
  moreover from this have "\<exists>run. moves PENDING run PENDING_VERIFICATION"
    by (rule step) (simp add: can_transition_def)
  moreover from this have "\<exists>run. moves PENDING run COMPLETED" "\<exists>run. moves PENDING run REVERSED"
    "\<exists>run. moves PENDING run MANUAL_REVIEW"
    by (auto intro: step simp: can_transition_def)
  ultimately show "\<exists>run. moves PENDING run st"
    by (cases st) simp_all
qed

end
