(* ===== verification/Rate_Repository.thy ===== *)
theory Rate_Repository
  imports Ledger_Books
begin

text \<open>
  Route pricing from the database, \<^verbatim>\<open>app/services/rate_repository.py\<close>: the programs, the rate version
  and the bonus in effect at a moment, and the moment until which that configuration is valid.
\<close>

definition load_programs :: "db \<Rightarrow> string list \<Rightarrow> (string \<times> program_ref) list result" where
  "load_programs s codes =
     (let rows = filter (\<lambda>p. prg_code p \<in> set codes) (db_programs s);
          programs = map (\<lambda>p. (prg_code p,
            \<lparr>pr_id = prg_id p, pr_code = prg_code p, pr_active = prg_active p\<rparr>)) rows
      in case find (\<lambda>code. map_of programs code = None) codes of
           Some code \<Rightarrow> Inl (mk_domain_error PROGRAM_NOT_FOUND
             (''Program '' @ code @ '' does not exist.'') [(''program'', JStr code)])
         | None \<Rightarrow> Inr programs)"

definition to_rate_rule :: "conversion_rate \<Rightarrow> rate_rule" where
  "to_rate_rule r =
     \<lparr>rr_rate_id = cr_id r, rr_version = cr_version r, rr_numerator = cr_numerator r,
      rr_denominator = cr_denominator r, rr_min_source_points = cr_min_source_points r,
      rr_source_increment = cr_source_increment r, rr_max_source_points = cr_max_source_points r,
      rr_effective_to = cr_effective_to r\<rparr>"

definition to_bonus_rule :: "transfer_bonus \<Rightarrow> bonus_rule" where
  "to_bonus_rule b =
     \<lparr>br_bonus_id = tb_id b, br_bonus_bps = tb_bonus_bps b, br_starts_at = tb_starts_at b,
      br_ends_at = tb_ends_at b\<rparr>"

text \<open>The rates of a route that are in effect, and the query's \<^verbatim>\<open>ORDER BY effective_from DESC LIMIT 1\<close>.\<close>

definition in_effect :: "moment \<Rightarrow> conversion_rate \<Rightarrow> bool" where
  "in_effect at_time r =
     (cr_active r \<and> cr_effective_from r \<le> at_time
      \<and> (case cr_effective_to r of None \<Rightarrow> True | Some e \<Rightarrow> at_time < e))"

definition on_route :: "int \<Rightarrow> int \<Rightarrow> conversion_rate \<Rightarrow> bool" where
  "on_route src dst r = (cr_source_program_id r = src \<and> cr_destination_program_id r = dst)"

definition bonus_on_route :: "int \<Rightarrow> int \<Rightarrow> transfer_bonus \<Rightarrow> bool" where
  "bonus_on_route src dst b = (tb_source_program_id b = src \<and> tb_destination_program_id b = dst)"

fun first_row :: "'a list \<Rightarrow> 'a option" where
  "first_row [] = None"
| "first_row (x # xs) = Some x"

definition current_rate :: "db \<Rightarrow> int \<Rightarrow> int \<Rightarrow> moment \<Rightarrow> conversion_rate option" where
  "current_rate s src dst at_time =
     first_row (sort_key (\<lambda>r. - cr_effective_from r)
       (filter (\<lambda>r. on_route src dst r \<and> in_effect at_time r) (db_rates s)))"

definition current_bonus :: "db \<Rightarrow> int \<Rightarrow> int \<Rightarrow> moment \<Rightarrow> transfer_bonus option" where
  "current_bonus s src dst at_time =
     find (\<lambda>b. bonus_on_route src dst b \<and> tb_starts_at b \<le> at_time \<and> at_time < tb_ends_at b) (db_bonuses s)"

text \<open>\<^verbatim>\<open>min\<close> of a non-empty list, \<open>None\<close> (SQL's \<^verbatim>\<open>NULL\<close>, Python's guarded \<^verbatim>\<open>None\<close>) of an empty one.\<close>

fun earliest :: "moment list \<Rightarrow> moment option" where
  "earliest [] = None"
| "earliest (m # ms) = (case earliest ms of None \<Rightarrow> Some m | Some k \<Rightarrow> Some (min m k))"

definition next_bonus_start :: "db \<Rightarrow> int \<Rightarrow> int \<Rightarrow> moment \<Rightarrow> moment option" where
  "next_bonus_start s src dst at_time =
     earliest (map tb_starts_at
       (filter (\<lambda>b. bonus_on_route src dst b \<and> at_time < tb_starts_at b) (db_bonuses s)))"

fun known :: "'a option list \<Rightarrow> 'a list" where
  "known [] = []"
| "known (None # xs) = known xs"
| "known (Some x # xs) = x # known xs"

definition get_route :: "db \<Rightarrow> string \<Rightarrow> string \<Rightarrow> moment \<Rightarrow> route_config result" where
  "get_route s source_code destination_code at_time =
     bindE (load_programs s [source_code, destination_code]) (\<lambda>programs.
     bindE (of_option (OtherError ''KeyError'') (map_of programs source_code)) (\<lambda>source.
     bindE (of_option (OtherError ''KeyError'') (map_of programs destination_code)) (\<lambda>destination.
     let rate = map_option to_rate_rule (current_rate s (pr_id source) (pr_id destination) at_time);
         bonus = map_option to_bonus_rule (current_bonus s (pr_id source) (pr_id destination) at_time);
         boundaries = [Option.bind rate rr_effective_to, map_option br_ends_at bonus,
           next_bonus_start s (pr_id source) (pr_id destination) at_time]
     in Inr \<lparr>rc_source = source, rc_destination = destination, rc_rate = rate, rc_bonus = bonus,
             rc_valid_until = earliest (known boundaries)\<rparr>)))"

section \<open>Facts about the lookups\<close>

lemma earliest_None_iff: "earliest ms = None \<longleftrightarrow> ms = []"
  by (cases ms) (auto split: option.splits)

lemma earliest_Some_iff: "earliest ms = Some k \<longleftrightarrow> k \<in> set ms \<and> (\<forall>m \<in> set ms. k \<le> m)"
proof (induction ms arbitrary: k)
  case (Cons m ms)
  show ?case
  proof (cases "earliest ms")
    case None
    then show ?thesis by (auto simp: earliest_None_iff)
  next
    case (Some j)
    with Cons.IH [of j] show ?thesis by (auto simp: min_def intro: antisym)
  qed
qed simp

lemma set_known: "set (known xs) = {x. Some x \<in> set xs}"
  by (induction xs rule: known.induct) auto

lemma first_row_Some: "first_row xs = Some x \<Longrightarrow> x \<in> set xs"
  by (cases xs) auto

lemma first_row_sorted:
  assumes "first_row (sort_key f xs) = Some x"
  shows "x \<in> set xs" "\<forall>y \<in> set xs. f x \<le> (f y :: int)"
proof -
  from assms obtain ys where ys: "sort_key f xs = x # ys" by (cases "sort_key f xs") auto
  then have "x \<in> set (sort_key f xs)" by simp
  then show "x \<in> set xs" by simp
  have "sorted (map f (x # ys))" using ys by (metis sorted_sort_key)
  moreover have "set xs = set (x # ys)" using ys by (metis set_sort)
  ultimately show "\<forall>y \<in> set xs. f x \<le> f y" by auto
qed

lemma current_rate_Some:
  assumes "current_rate s src dst m = Some r"
  shows "r \<in> set (db_rates s)" "on_route src dst r" "in_effect m r"
    and "\<forall>q \<in> set (db_rates s). on_route src dst q \<and> in_effect m q \<longrightarrow> cr_effective_from q \<le> cr_effective_from r"
  using first_row_sorted [OF assms [unfolded current_rate_def]] by auto

lemma load_programs_Inr:
  assumes "load_programs s codes = Inr programs" "code \<in> set codes"
  shows "\<exists>p \<in> set (db_programs s). prg_code p = code
    \<and> map_of programs code = Some \<lparr>pr_id = prg_id p, pr_code = code, pr_active = prg_active p\<rparr>"
proof -
  from assms have "map_of programs code \<noteq> None"
    by (auto simp: load_programs_def Let_def find_None_iff split: option.splits)
  then obtain r where r: "map_of programs code = Some r" by auto
  then have "(code, r) \<in> set programs" by (rule map_of_SomeD)
  with assms(1) r show ?thesis
    by (auto simp: load_programs_def Let_def split: option.splits)
qed

lemma get_route_Inr:
  assumes "get_route s src dst m = Inr route"
  shows "\<exists>p \<in> set (db_programs s). \<exists>q \<in> set (db_programs s). prg_code p = src \<and> prg_code q = dst
    \<and> rc_source route = \<lparr>pr_id = prg_id p, pr_code = src, pr_active = prg_active p\<rparr>
    \<and> rc_destination route = \<lparr>pr_id = prg_id q, pr_code = dst, pr_active = prg_active q\<rparr>
    \<and> rc_rate route = map_option to_rate_rule (current_rate s (prg_id p) (prg_id q) m)
    \<and> rc_bonus route = map_option to_bonus_rule (current_bonus s (prg_id p) (prg_id q) m)
    \<and> rc_valid_until route = earliest (known [Option.bind (rc_rate route) rr_effective_to,
        map_option br_ends_at (rc_bonus route), next_bonus_start s (prg_id p) (prg_id q) m])"
proof -
  from assms obtain programs where p: "load_programs s [src, dst] = Inr programs"
    by (auto simp: get_route_def result_simps)
  from load_programs_Inr [OF p, of src] load_programs_Inr [OF p, of dst] assms p
  show ?thesis by (fastforce simp: get_route_def Let_def)
qed

section \<open>Validity of a loaded route\<close>

text \<open>The exclusion constraint of \<^verbatim>\<open>transfer_bonuses\<close>: windows of one route do not overlap.\<close>

definition bonuses_disjoint :: "db \<Rightarrow> bool" where
  "bonuses_disjoint s =
     (\<forall>b \<in> set (db_bonuses s). \<forall>c \<in> set (db_bonuses s).
        tb_source_program_id b = tb_source_program_id c
        \<and> tb_destination_program_id b = tb_destination_program_id c
        \<and> tb_starts_at b < tb_ends_at c \<and> tb_starts_at c < tb_ends_at b \<longrightarrow> b = c)"

text \<open>No rate version is dated in the future: \<^verbatim>\<open>rate_admin\<close> inserts a version effective at once.\<close>

definition rates_started :: "db \<Rightarrow> moment \<Rightarrow> bool" where
  "rates_started s m = (\<forall>r \<in> set (db_rates s). cr_effective_from r \<le> m)"

lemma first_row_filter:
  "first_row xs = Some x \<Longrightarrow> Q x \<Longrightarrow> first_row (filter Q xs) = Some x"
  by (cases xs) auto

lemma first_row_None: "first_row xs = None \<longleftrightarrow> xs = []"
  by (cases xs) auto

lemma current_rate_stable:
  assumes "m \<le> t" "rates_started s m"
    and "\<forall>r e. current_rate s src dst m = Some r \<longrightarrow> cr_effective_to r = Some e \<longrightarrow> t < e"
  shows "current_rate s src dst t = current_rate s src dst m"
proof -
  let ?F = "\<lambda>m. filter (\<lambda>r. on_route src dst r \<and> in_effect m r) (db_rates s)"
  have sub: "?F t = filter (in_effect t) (?F m)"
    using assms(1,2) by (auto simp: rates_started_def in_effect_def conj_ac intro!: filter_cong split: option.splits)
  show ?thesis
  proof (cases "current_rate s src dst m")
    case None
    then have "?F m = []"
      unfolding current_rate_def first_row_None by (metis length_0_conv length_sort)
    with sub None show ?thesis by (simp add: current_rate_def)
  next
    case (Some r)
    have "in_effect t r"
      using current_rate_Some(3) [OF Some] assms(1,3) Some by (auto simp: in_effect_def split: option.splits)
    then have "first_row (filter (in_effect t) (sort_key (\<lambda>r. - cr_effective_from r) (?F m))) = Some r"
      using Some by (intro first_row_filter) (simp_all add: current_rate_def)
    then show ?thesis
      using sub Some by (simp add: current_rate_def filter_sort)
  qed
qed

lemma next_bonus_start_bound:
  assumes "b \<in> set (db_bonuses s)" "bonus_on_route src dst b" "m < tb_starts_at b"
  shows "\<exists>v. next_bonus_start s src dst m = Some v \<and> v \<le> tb_starts_at b"
proof (cases "next_bonus_start s src dst m")
  case None
  with assms show ?thesis by (auto simp: next_bonus_start_def earliest_None_iff filter_empty_conv)
next
  case (Some v)
  with assms show ?thesis by (auto simp: next_bonus_start_def earliest_Some_iff)
qed

lemma current_bonus_stable:
  assumes "m \<le> t" "bonuses_disjoint s"
    and "\<forall>b. current_bonus s src dst m = Some b \<longrightarrow> t < tb_ends_at b"
    and "\<forall>v. next_bonus_start s src dst m = Some v \<longrightarrow> t < v"
  shows "current_bonus s src dst t = current_bonus s src dst m"
proof (cases "current_bonus s src dst m")
  case None
  have "\<not> (bonus_on_route src dst b \<and> tb_starts_at b \<le> t \<and> t < tb_ends_at b)" if "b \<in> set (db_bonuses s)" for b
  proof (cases "m < tb_starts_at b")
    case True
    then show ?thesis
      using that assms(4) next_bonus_start_bound [OF that, of src dst m] by fastforce
  next
    case False
    moreover have "\<not> (bonus_on_route src dst b \<and> tb_starts_at b \<le> m \<and> m < tb_ends_at b)"
      using None that by (simp add: current_bonus_def find_None_iff)
    ultimately show ?thesis
      using assms(1) by auto
  qed
  then have "current_bonus s src dst t = None"
    by (auto simp: current_bonus_def find_None_iff)
  with None show ?thesis by simp
next
  case (Some b)
  then have b: "b \<in> set (db_bonuses s)" "bonus_on_route src dst b" "tb_starts_at b \<le> m" "t < tb_ends_at b"
    using assms(3) by (auto simp: current_bonus_def dest!: find_SomeD)
  have uniq: "c = b" if "c \<in> set (db_bonuses s)" "bonus_on_route src dst c" "tb_starts_at c \<le> u" "u < tb_ends_at c"
    "tb_starts_at b \<le> u" "u < tb_ends_at b" for c u
    using assms(2) that b unfolding bonuses_disjoint_def bonus_on_route_def by (metis order.strict_trans1)
  have "find (\<lambda>c. bonus_on_route src dst c \<and> tb_starts_at c \<le> t \<and> t < tb_ends_at c) (db_bonuses s)
      = find (\<lambda>c. bonus_on_route src dst c \<and> tb_starts_at c \<le> m \<and> m < tb_ends_at c) (db_bonuses s)"
  proof (rule find_cong_set)
    fix c assume "c \<in> set (db_bonuses s)"
    then show "(bonus_on_route src dst c \<and> tb_starts_at c \<le> t \<and> t < tb_ends_at c)
        = (bonus_on_route src dst c \<and> tb_starts_at c \<le> m \<and> m < tb_ends_at c)"
      using uniq [of c t] uniq [of c m] b assms(1) by fastforce
  qed
  then show ?thesis by (simp add: current_bonus_def)
qed

lemma next_bonus_start_stable:
  assumes "m \<le> t" "\<forall>v. next_bonus_start s src dst m = Some v \<longrightarrow> t < v"
  shows "next_bonus_start s src dst t = next_bonus_start s src dst m"
proof -
  have "(bonus_on_route src dst b \<and> t < tb_starts_at b) = (bonus_on_route src dst b \<and> m < tb_starts_at b)"
    if "b \<in> set (db_bonuses s)" for b
    using next_bonus_start_bound [OF that, of src dst m] assms by fastforce
  then have "filter (\<lambda>b. bonus_on_route src dst b \<and> t < tb_starts_at b) (db_bonuses s)
      = filter (\<lambda>b. bonus_on_route src dst b \<and> m < tb_starts_at b) (db_bonuses s)"
    by (intro filter_cong) simp_all
  then show ?thesis by (simp add: next_bonus_start_def)
qed

lemma valid_until_bound:
  assumes "\<forall>v. earliest (known bs) = Some v \<longrightarrow> t < v" "Some v \<in> set bs"
  shows "t < v"
proof (cases "earliest (known bs)")
  case None
  with assms(2) have "v \<in> {}" using set_known [of bs] by (simp add: earliest_None_iff)
  then show ?thesis by simp
next
  case (Some w)
  then show ?thesis
    using assms set_known [of bs] by (auto simp: earliest_Some_iff dest: order.strict_trans2)
qed

text \<open>
  \<^verbatim>\<open>valid_until\<close> is right. A route loaded at \<open>m\<close> is what a lookup at any later moment before its
  \<^verbatim>\<open>valid_until\<close> (or at any later moment, if it has none) would load from the same rows, provided no
  rate version is dated in the future and bonus windows do not overlap; so a cached route never prices
  a quote differently from the database before \<^verbatim>\<open>valid_until\<close>.
\<close>

lemma get_route_stable:
  assumes "get_route s src dst m = Inr route" "m \<le> t"
    and "\<forall>v. rc_valid_until route = Some v \<longrightarrow> t < v"
    and "rates_started s m" "bonuses_disjoint s"
  shows "get_route s src dst t = Inr route"
proof -
  from assms(1) obtain programs p q where pq: "load_programs s [src, dst] = Inr programs"
    "map_of programs src = Some p" "map_of programs dst = Some q"
    by (auto simp: get_route_def result_simps)
  then have valid: "rc_valid_until route = earliest (known [Option.bind (rc_rate route) rr_effective_to,
      map_option br_ends_at (rc_bonus route), next_bonus_start s (pr_id p) (pr_id q) m])"
    using assms(1) by (auto simp: get_route_def Let_def)
  have all: "\<forall>v. Some v \<in> set [Option.bind (rc_rate route) rr_effective_to,
      map_option br_ends_at (rc_bonus route), next_bonus_start s (pr_id p) (pr_id q) m] \<longrightarrow> t < v"
    and rate: "rc_rate route = map_option to_rate_rule (current_rate s (pr_id p) (pr_id q) m)"
    and bonus: "rc_bonus route = map_option to_bonus_rule (current_bonus s (pr_id p) (pr_id q) m)"
    using assms(1) pq valid_until_bound [OF assms(3) [unfolded valid]]
    by (auto simp: get_route_def Let_def)
  have "current_rate s (pr_id p) (pr_id q) t = current_rate s (pr_id p) (pr_id q) m"
    using assms(2,4) all by (intro current_rate_stable) (auto simp: rate to_rate_rule_def)
  moreover have "current_bonus s (pr_id p) (pr_id q) t = current_bonus s (pr_id p) (pr_id q) m"
    using assms(2,5) all by (intro current_bonus_stable) (auto simp: bonus to_bonus_rule_def)
  moreover have "next_bonus_start s (pr_id p) (pr_id q) t = next_bonus_start s (pr_id p) (pr_id q) m"
    using assms(2) all by (intro next_bonus_start_stable) auto
  ultimately show ?thesis
    using assms(1) pq by (simp add: get_route_def)
qed

end
