(* ===== verification/Partner.thy ===== *)
theory Partner
  imports Domain
begin

text \<open>
  Partner adapters: the normalised result types of \<^verbatim>\<open>app/partners/base.py\<close>, the HTTP adapter with its
  outcome classification (\<^verbatim>\<open>app/partners/http_partner.py\<close>) and the registry
  (\<^verbatim>\<open>app/partners/registry.py\<close>). An adapter is a record of operations over a world \<open>'w\<close> that
  holds whatever the operation reads and changes; an operation returns a result or raises. The HTTP
  client (\<^verbatim>\<open>httpx\<close>) is a parameter. What the saga relies on of a partner is the locale
  \<open>partner_contract\<close>.
\<close>

section \<open>Results\<close>

datatype credit_outcome = CREDIT_SUCCESS | CREDIT_REJECTED | CREDIT_NOT_SENT | CREDIT_UNKNOWN

record credit_result =
  cd_outcome :: credit_outcome
  cd_reason :: string
  cd_retryable :: bool
  cd_confirmation_id :: "string option"
  cd_http_status :: "int option"
  cd_attempts :: int

datatype credit_status = STATUS_COMPLETED | STATUS_NOT_FOUND | STATUS_UNKNOWN

record status_result =
  st_status :: credit_status
  st_reason :: string
  st_retryable :: bool
  st_confirmation_id :: "string option"
  st_http_status :: "int option"
  st_attempts :: int

fun outcome_text :: "credit_outcome \<Rightarrow> string" where
  "outcome_text CREDIT_SUCCESS = ''SUCCESS''"
| "outcome_text CREDIT_REJECTED = ''REJECTED''"
| "outcome_text CREDIT_NOT_SENT = ''NOT_SENT''"
| "outcome_text CREDIT_UNKNOWN = ''UNKNOWN''"

fun status_text :: "credit_status \<Rightarrow> string" where
  "status_text STATUS_COMPLETED = ''COMPLETED''"
| "status_text STATUS_NOT_FOUND = ''NOT_FOUND''"
| "status_text STATUS_UNKNOWN = ''UNKNOWN''"

text \<open>\<^verbatim>\<open>PartnerAdapter\<close>: partner code, reference, member id and points.\<close>

record 'w adapter =
  ad_credit_points :: "string \<Rightarrow> string \<Rightarrow> string \<Rightarrow> int \<Rightarrow> 'w \<Rightarrow> credit_result result \<times> 'w"
  ad_get_credit_status :: "string \<Rightarrow> string \<Rightarrow> 'w \<Rightarrow> status_result result \<times> 'w"

section \<open>HTTP responses and errors\<close>

text \<open>A response: its status code and its body, \<open>None\<close> if the body is not JSON.\<close>

record http_response =
  hr_status_code :: int
  hr_json :: "json option"

text \<open>The subclasses of \<^verbatim>\<open>httpx.TransportError\<close>.\<close>

datatype transport_error =
    ConnectError | ConnectTimeout | PoolTimeout | ReadTimeout | WriteTimeout | ReadError | WriteError
  | CloseError | LocalProtocolError | RemoteProtocolError | ProxyError | UnsupportedProtocol

fun transport_error_name :: "transport_error \<Rightarrow> string" where
  "transport_error_name ConnectError = ''ConnectError''"
| "transport_error_name ConnectTimeout = ''ConnectTimeout''"
| "transport_error_name PoolTimeout = ''PoolTimeout''"
| "transport_error_name ReadTimeout = ''ReadTimeout''"
| "transport_error_name WriteTimeout = ''WriteTimeout''"
| "transport_error_name ReadError = ''ReadError''"
| "transport_error_name WriteError = ''WriteError''"
| "transport_error_name CloseError = ''CloseError''"
| "transport_error_name LocalProtocolError = ''LocalProtocolError''"
| "transport_error_name RemoteProtocolError = ''RemoteProtocolError''"
| "transport_error_name ProxyError = ''ProxyError''"
| "transport_error_name UnsupportedProtocol = ''UnsupportedProtocol''"

definition NOT_SENT_ERRORS :: "transport_error list" where
  "NOT_SENT_ERRORS = [ConnectError, ConnectTimeout, PoolTimeout]"

text \<open>
  What a request of the client ends in: a response, a transport error, or an exception that is not a
  \<^verbatim>\<open>TransportError\<close> (such as \<^verbatim>\<open>DecodingError\<close>), which the adapter does not catch.
\<close>

datatype http_outcome = Response http_response | Transport transport_error | HttpRaised exc

record 'w http_client =
  hc_post :: "string \<Rightarrow> (string \<times> json) list \<Rightarrow> 'w \<Rightarrow> http_outcome \<times> 'w"
  hc_get :: "string \<Rightarrow> 'w \<Rightarrow> http_outcome \<times> 'w"

section \<open>Python values\<close>

definition hex_digit :: "nat \<Rightarrow> char" where
  "hex_digit d = char_of (if d < 10 then 48 + d else 87 + d)"

text \<open>\<^verbatim>\<open>repr\<close> of a string (of Latin-1 characters).\<close>

definition repr_char :: "char \<Rightarrow> char \<Rightarrow> string" where
  "repr_char q c =
     (let n = of_char c :: nat in
      if c = q \<or> c = CHR 0x5C then [CHR 0x5C, c]
      else if c = CHR 0x0A then [CHR 0x5C, CHR ''n'']
      else if c = CHR 0x0D then [CHR 0x5C, CHR ''r'']
      else if c = CHR 0x09 then [CHR 0x5C, CHR ''t'']
      else if n < 32 \<or> (127 \<le> n \<and> n \<le> 160) \<or> n = 173
        then [CHR 0x5C, CHR ''x'', hex_digit (n div 16), hex_digit (n mod 16)]
      else [c])"

definition repr_str :: "string \<Rightarrow> string" where
  "repr_str s =
     (let q = (if CHR 0x27 \<in> set s \<and> CHR 0x22 \<notin> set s then CHR 0x22 else CHR 0x27)
      in q # concat (map (repr_char q) s) @ [q])"

fun join :: "string \<Rightarrow> string list \<Rightarrow> string" where
  "join sep [] = []"
| "join sep [x] = x"
| "join sep (x # y # xs) = x @ sep @ join sep (y # xs)"

fun py_repr :: "json \<Rightarrow> string" where
  "py_repr JNull = ''None''"
| "py_repr (JBool b) = (if b then ''True'' else ''False'')"
| "py_repr (JInt i) = show_int i"
| "py_repr (JStr s) = repr_str s"
| "py_repr (JArr xs) = ''['' @ join '', '' (map py_repr xs) @ '']''"
| "py_repr (JObj kvs) =
     ''{'' @ join '', '' (map (\<lambda>(k, t). repr_str k @ '': '' @ t) (map (map_prod id py_repr) kvs)) @ ''}''"

fun py_str :: "json \<Rightarrow> string" where
  "py_str (JStr s) = s"
| "py_str j = py_repr j"

fun truthy :: "json \<Rightarrow> bool" where
  "truthy JNull = False"
| "truthy (JBool b) = b"
| "truthy (JInt i) = (i \<noteq> 0)"
| "truthy (JStr s) = (s \<noteq> [])"
| "truthy (JArr xs) = (xs \<noteq> [])"
| "truthy (JObj kvs) = (kvs \<noteq> [])"

text \<open>\<^verbatim>\<open>_json\<close>: the body if it is an object, otherwise the empty dictionary.\<close>

definition json_body :: "http_response \<Rightarrow> (string \<times> json) list" where
  "json_body response = (case hr_json response of Some (JObj kvs) \<Rightarrow> kvs | _ \<Rightarrow> [])"

text \<open>\<^verbatim>\<open>isinstance(body.get("confirmation_id"), str) and confirmation_id\<close>\<close>

definition confirmation_of :: "(string \<times> json) list \<Rightarrow> string option" where
  "confirmation_of body =
     (case map_of body ''confirmation_id'' of
        Some (JStr s) \<Rightarrow> if s \<noteq> [] then Some s else None
      | _ \<Rightarrow> None)"

section \<open>Classification\<close>

definition mk_credit :: "credit_outcome \<Rightarrow> string \<Rightarrow> bool \<Rightarrow> string option \<Rightarrow> int option \<Rightarrow> credit_result" where
  "mk_credit outcome reason retryable confirmation http_status =
     \<lparr>cd_outcome = outcome, cd_reason = reason, cd_retryable = retryable,
      cd_confirmation_id = confirmation, cd_http_status = http_status, cd_attempts = 1\<rparr>"

definition mk_status :: "credit_status \<Rightarrow> string \<Rightarrow> bool \<Rightarrow> string option \<Rightarrow> int option \<Rightarrow> status_result" where
  "mk_status status reason retryable confirmation http_status =
     \<lparr>st_status = status, st_reason = reason, st_retryable = retryable,
      st_confirmation_id = confirmation, st_http_status = http_status, st_attempts = 1\<rparr>"

definition classify_credit_response :: "http_response \<Rightarrow> credit_result" where
  "classify_credit_response response =
     (let code = hr_status_code response; body = json_body response in
      if code = 200 \<or> code = 201 then
        (case confirmation_of body of
           Some c \<Rightarrow> mk_credit CREDIT_SUCCESS ''credited'' False (Some c) (Some code)
         | None \<Rightarrow> mk_credit CREDIT_UNKNOWN ''success_without_confirmation'' True None (Some code))
      else if code = 429 then mk_credit CREDIT_NOT_SENT ''throttled'' True None (Some code)
      else if 400 \<le> code \<and> code < 500 then
        mk_credit CREDIT_REJECTED
          (case map_of body ''error'' of
             Some e \<Rightarrow> if truthy e then py_str e else ''http_'' @ show_int code
           | None \<Rightarrow> ''http_'' @ show_int code)
          False None (Some code)
      else mk_credit CREDIT_UNKNOWN (''partner_error_'' @ show_int code) True None (Some code))"

definition classify_status_response :: "http_response \<Rightarrow> status_result" where
  "classify_status_response response =
     (let code = hr_status_code response;
          unknown = mk_status STATUS_UNKNOWN (''status_check_failed_'' @ show_int code) True None (Some code)
      in if code = 200 then
           (case confirmation_of (json_body response) of
              Some c \<Rightarrow> mk_status STATUS_COMPLETED ''credit_found'' False (Some c) (Some code)
            | None \<Rightarrow> unknown)
         else if code = 404 then mk_status STATUS_NOT_FOUND ''credit_not_found'' False None (Some code)
         else unknown)"

section \<open>The HTTP adapter\<close>

definition http_credit_points ::
  "'w http_client \<Rightarrow> string \<Rightarrow> string \<Rightarrow> string \<Rightarrow> int \<Rightarrow> 'w \<Rightarrow> credit_result result \<times> 'w" where
  "http_credit_points client partner_code reference member_id points w =
     (let (outcome, w') = hc_post client (''/partners/'' @ partner_code @ ''/credits'')
            [(''reference'', JStr reference), (''member_id'', JStr member_id), (''points'', JInt points)] w
      in (case outcome of
            Response r \<Rightarrow> Inr (classify_credit_response r)
          | Transport e \<Rightarrow>
              if e \<in> set NOT_SENT_ERRORS
              then Inr (mk_credit CREDIT_NOT_SENT (''connection_failed: '' @ transport_error_name e) True None None)
              else Inr (mk_credit CREDIT_UNKNOWN (''no_response: '' @ transport_error_name e) True None None)
          | HttpRaised x \<Rightarrow> Inl x, w'))"

definition http_get_credit_status ::
  "'w http_client \<Rightarrow> string \<Rightarrow> string \<Rightarrow> 'w \<Rightarrow> status_result result \<times> 'w" where
  "http_get_credit_status client partner_code reference w =
     (let (outcome, w') = hc_get client (''/partners/'' @ partner_code @ ''/credits/'' @ reference) w
      in (case outcome of
            Response r \<Rightarrow> Inr (classify_status_response r)
          | Transport e \<Rightarrow> Inr (mk_status STATUS_UNKNOWN (''no_response: '' @ transport_error_name e) True None None)
          | HttpRaised x \<Rightarrow> Inl x, w'))"

definition HttpPartnerAdapter :: "'w http_client \<Rightarrow> 'w adapter" where
  "HttpPartnerAdapter client =
     \<lparr>ad_credit_points = http_credit_points client, ad_get_credit_status = http_get_credit_status client\<rparr>"

section \<open>The registry\<close>

record 'w partner_registry =
  rg_default :: "'w adapter option"
  rg_adapters :: "(string \<times> 'w adapter) list"

definition registry_register :: "string \<Rightarrow> 'w adapter \<Rightarrow> 'w partner_registry \<Rightarrow> 'w partner_registry" where
  "registry_register partner_code adapter rg = rg\<lparr>rg_adapters := dict_set partner_code adapter (rg_adapters rg)\<rparr>"

definition registry_get :: "'w partner_registry \<Rightarrow> string \<Rightarrow> 'w adapter result" where
  "registry_get rg partner_code =
     of_option (UnknownPartnerError partner_code)
       (case map_of (rg_adapters rg) partner_code of Some a \<Rightarrow> Some a | None \<Rightarrow> rg_default rg)"

section \<open>The contract of a partner\<close>

text \<open>
  What the saga and the reconciler rely on. \<open>credited w p r\<close>: the partner has applied the credit with
  reference \<open>r\<close>; \<open>may_credit w p r\<close>: it has, or a request already on its way may still make it so.
  A success means the credit is there; a request that was not sent, and one that was rejected at the
  first attempt, open no new possibility; a status answer is true of the partner. A rejection after
  several attempts and an unknown outcome promise nothing: an earlier attempt may still arrive. \<open>known\<close>
  are the partner codes in use, \<open>inv\<close> is an invariant of the world, and \<open>fits_request\<close> says that a
  request is well formed and repeats any earlier one with its reference.
\<close>

locale partner_contract =
  fixes credit_points :: "string \<Rightarrow> string \<Rightarrow> string \<Rightarrow> int \<Rightarrow> 'w \<Rightarrow> credit_result result \<times> 'w"
    and get_credit_status :: "string \<Rightarrow> string \<Rightarrow> 'w \<Rightarrow> status_result result \<times> 'w"
    and known :: "string \<Rightarrow> bool"
    and inv :: "'w \<Rightarrow> bool"
    and fits_request :: "string \<Rightarrow> string \<Rightarrow> string \<Rightarrow> int \<Rightarrow> 'w \<Rightarrow> bool"
    and credited :: "'w \<Rightarrow> string \<Rightarrow> string \<Rightarrow> bool"
    and may_credit :: "'w \<Rightarrow> string \<Rightarrow> string \<Rightarrow> bool"
  assumes credited_may: "inv w \<Longrightarrow> credited w p r \<Longrightarrow> may_credit w p r"
    and credit_inv: "inv w \<Longrightarrow> fits_request p r m n w \<Longrightarrow> credit_points p r m n w = (cres, w')
      \<Longrightarrow> inv w' \<and> fits_request p r m n w'"
    and credit_success: "inv w \<Longrightarrow> fits_request p r m n w \<Longrightarrow> credit_points p r m n w = (Inr res, w')
      \<Longrightarrow> cd_outcome res = CREDIT_SUCCESS
      \<Longrightarrow> credited w' p r \<and> cd_confirmation_id res \<noteq> None \<and> \<not> cd_retryable res"
    and credit_rejected: "inv w \<Longrightarrow> fits_request p r m n w \<Longrightarrow> credit_points p r m n w = (Inr res, w')
      \<Longrightarrow> cd_outcome res = CREDIT_REJECTED \<Longrightarrow> cd_attempts res = 1 \<Longrightarrow> may_credit w' p r \<Longrightarrow> may_credit w p r"
    and credit_not_sent: "inv w \<Longrightarrow> fits_request p r m n w \<Longrightarrow> credit_points p r m n w = (Inr res, w')
      \<Longrightarrow> cd_outcome res = CREDIT_NOT_SENT \<Longrightarrow> may_credit w' p r \<Longrightarrow> may_credit w p r"
    and status_inv: "known p \<Longrightarrow> inv w \<Longrightarrow> get_credit_status p r w = (sres, w')
      \<Longrightarrow> inv w' \<and> (fits_request p r m n w \<longrightarrow> fits_request p r m n w')
        \<and> (may_credit w' p r \<longrightarrow> may_credit w p r)"
    and status_completed: "known p \<Longrightarrow> inv w \<Longrightarrow> get_credit_status p r w = (Inr st, w')
      \<Longrightarrow> st_status st = STATUS_COMPLETED
      \<Longrightarrow> credited w' p r \<and> st_confirmation_id st \<noteq> None \<and> \<not> st_retryable st"
    and status_not_found: "known p \<Longrightarrow> inv w \<Longrightarrow> get_credit_status p r w = (Inr st, w')
      \<Longrightarrow> st_status st = STATUS_NOT_FOUND \<Longrightarrow> \<not> credited w' p r \<and> \<not> st_retryable st"

section \<open>Properties of the classification\<close>

lemma mk_credit_sel [simp]:
  "cd_outcome (mk_credit oc rs rt cf hs) = oc" "cd_reason (mk_credit oc rs rt cf hs) = rs"
  "cd_retryable (mk_credit oc rs rt cf hs) = rt" "cd_confirmation_id (mk_credit oc rs rt cf hs) = cf"
  "cd_http_status (mk_credit oc rs rt cf hs) = hs" "cd_attempts (mk_credit oc rs rt cf hs) = 1"
  by (simp_all add: mk_credit_def)

lemma mk_status_sel [simp]:
  "st_status (mk_status st rs rt cf hs) = st" "st_reason (mk_status st rs rt cf hs) = rs"
  "st_retryable (mk_status st rs rt cf hs) = rt" "st_confirmation_id (mk_status st rs rt cf hs) = cf"
  "st_http_status (mk_status st rs rt cf hs) = hs"
  by (simp_all add: mk_status_def)

lemma confirmation_of_nonempty: "confirmation_of b = Some c \<Longrightarrow> c \<noteq> []"
  by (auto simp: confirmation_of_def split: option.splits json.splits if_splits)

text \<open>
  the classification table of a credit response, complete. Success needs 200 or 201 and a non-empty
  confirmation id and is the only result that carries one; 429 is the only response counted as not sent;
  a rejection is any other 4xx; everything else, a success without a usable body included, is unknown.
  Exactly the unknown and the not-sent results are retryable.
\<close>

lemma classify_credit_response_table:
  "let r = classify_credit_response response; code = hr_status_code response in
    (cd_outcome r = CREDIT_SUCCESS \<longleftrightarrow>
      code \<in> {200, 201} \<and> (\<exists>c. c \<noteq> [] \<and> map_of (json_body response) ''confirmation_id'' = Some (JStr c)))
    \<and> (cd_outcome r = CREDIT_NOT_SENT \<longleftrightarrow> code = 429)
    \<and> (cd_outcome r = CREDIT_REJECTED \<longleftrightarrow> 400 \<le> code \<and> code < 500 \<and> code \<noteq> 429)
    \<and> (cd_retryable r \<longleftrightarrow> cd_outcome r \<in> {CREDIT_UNKNOWN, CREDIT_NOT_SENT})
    \<and> (case cd_confirmation_id r of
         Some c \<Rightarrow> c \<noteq> [] \<and> cd_outcome r = CREDIT_SUCCESS | None \<Rightarrow> cd_outcome r \<noteq> CREDIT_SUCCESS)
    \<and> cd_http_status r = Some code"
  by (auto simp: classify_credit_response_def Let_def confirmation_of_def
      split: option.splits json.splits if_splits)

section \<open>What HTTP promises\<close>

text \<open>
  The laws of the client and the partner behind it, on requests and responses only. A 200 or 201 with a
  confirmation id is sent once the credit is there; a 4xx answer means that this request was not and
  will not be applied; the connect and pool errors are raised before anything is sent; a status
  response tells the truth. Anything else may happen: responses may be lost, and a request whose
  response never came may still arrive later.
\<close>

locale http_partner =
  fixes client :: "'w http_client"
    and known :: "string \<Rightarrow> bool"
    and inv :: "'w \<Rightarrow> bool"
    and fits_request :: "string \<Rightarrow> string \<Rightarrow> string \<Rightarrow> int \<Rightarrow> 'w \<Rightarrow> bool"
    and credited :: "'w \<Rightarrow> string \<Rightarrow> string \<Rightarrow> bool"
    and may_credit :: "'w \<Rightarrow> string \<Rightarrow> string \<Rightarrow> bool"
  assumes credited_possible: "inv w \<Longrightarrow> credited w p r \<Longrightarrow> may_credit w p r"
    and post_keeps: "inv w \<Longrightarrow> fits_request p r m n w
      \<Longrightarrow> hc_post client (''/partners/'' @ p @ ''/credits'')
            [(''reference'', JStr r), (''member_id'', JStr m), (''points'', JInt n)] w = (oc, w')
      \<Longrightarrow> inv w' \<and> fits_request p r m n w'"
    and post_confirmed: "inv w \<Longrightarrow> fits_request p r m n w
      \<Longrightarrow> hc_post client (''/partners/'' @ p @ ''/credits'')
            [(''reference'', JStr r), (''member_id'', JStr m), (''points'', JInt n)] w = (Response resp, w')
      \<Longrightarrow> hr_status_code resp \<in> {200, 201} \<Longrightarrow> hr_json resp = Some (JObj body)
      \<Longrightarrow> map_of body ''confirmation_id'' = Some (JStr c) \<Longrightarrow> c \<noteq> [] \<Longrightarrow> credited w' p r"
    and post_refused: "inv w \<Longrightarrow> fits_request p r m n w
      \<Longrightarrow> hc_post client (''/partners/'' @ p @ ''/credits'')
            [(''reference'', JStr r), (''member_id'', JStr m), (''points'', JInt n)] w = (Response resp, w')
      \<Longrightarrow> 400 \<le> hr_status_code resp \<Longrightarrow> hr_status_code resp < 500 \<Longrightarrow> may_credit w' p r \<Longrightarrow> may_credit w p r"
    and post_unsent: "inv w \<Longrightarrow> fits_request p r m n w
      \<Longrightarrow> hc_post client (''/partners/'' @ p @ ''/credits'')
            [(''reference'', JStr r), (''member_id'', JStr m), (''points'', JInt n)] w = (Transport e, w')
      \<Longrightarrow> e \<in> {ConnectError, ConnectTimeout, PoolTimeout} \<Longrightarrow> may_credit w' p r \<Longrightarrow> may_credit w p r"
    and get_keeps: "known p \<Longrightarrow> inv w \<Longrightarrow> hc_get client (''/partners/'' @ p @ ''/credits/'' @ r) w = (oc, w')
      \<Longrightarrow> inv w' \<and> (fits_request p r m n w \<longrightarrow> fits_request p r m n w')
        \<and> (may_credit w' p r \<longrightarrow> may_credit w p r)"
    and get_found: "known p \<Longrightarrow> inv w
      \<Longrightarrow> hc_get client (''/partners/'' @ p @ ''/credits/'' @ r) w = (Response resp, w')
      \<Longrightarrow> hr_status_code resp = 200 \<Longrightarrow> hr_json resp = Some (JObj body)
      \<Longrightarrow> map_of body ''confirmation_id'' = Some (JStr c) \<Longrightarrow> c \<noteq> [] \<Longrightarrow> credited w' p r"
    and get_missing: "known p \<Longrightarrow> inv w
      \<Longrightarrow> hc_get client (''/partners/'' @ p @ ''/credits/'' @ r) w = (Response resp, w')
      \<Longrightarrow> hr_status_code resp = 404 \<Longrightarrow> \<not> credited w' p r"

lemma classified_one_attempt: "cd_attempts (classify_credit_response response) = 1"
  by (simp add: classify_credit_response_def Let_def split: option.splits)

lemma http_one_attempt: "http_credit_points client p r m n w = (Inr res, w') \<Longrightarrow> cd_attempts res = 1"
  by (auto simp: http_credit_points_def classified_one_attempt split: prod.splits http_outcome.splits if_splits)

lemma confirmation_in_body:
  "confirmation_of (json_body resp) = Some c \<Longrightarrow>
   \<exists>body. hr_json resp = Some (JObj body) \<and> map_of body ''confirmation_id'' = Some (JStr c) \<and> c \<noteq> []"
  by (auto simp: confirmation_of_def json_body_def split: option.splits json.splits if_splits)

lemma classified_credit:
  "cd_outcome (classify_credit_response resp) = CREDIT_SUCCESS \<Longrightarrow>
     hr_status_code resp \<in> {200, 201} \<and> (\<exists>c. confirmation_of (json_body resp) = Some c
       \<and> cd_confirmation_id (classify_credit_response resp) = Some c) \<and> \<not> cd_retryable (classify_credit_response resp)"
  "cd_outcome (classify_credit_response resp) \<in> {CREDIT_REJECTED, CREDIT_NOT_SENT} \<Longrightarrow>
     400 \<le> hr_status_code resp \<and> hr_status_code resp < 500"
  by (auto simp: classify_credit_response_def Let_def split: option.splits if_splits)

lemma classified_status:
  "st_status (classify_status_response resp) = STATUS_COMPLETED \<Longrightarrow>
     hr_status_code resp = 200 \<and> (\<exists>c. confirmation_of (json_body resp) = Some c
       \<and> st_confirmation_id (classify_status_response resp) = Some c) \<and> \<not> st_retryable (classify_status_response resp)"
  "st_status (classify_status_response resp) = STATUS_NOT_FOUND \<Longrightarrow>
     hr_status_code resp = 404 \<and> \<not> st_retryable (classify_status_response resp)"
  by (auto simp: classify_status_response_def Let_def split: option.splits if_splits)

text \<open>The adapter's classification turns the laws of HTTP into the partner contract.\<close>

context http_partner
begin

lemma http_credit:
  assumes "inv w" "fits_request p r m n w" "http_credit_points client p r m n w = (out, w')"
  shows "inv w' \<and> fits_request p r m n w'"
    and "out = Inr res \<Longrightarrow> cd_outcome res = CREDIT_SUCCESS
      \<Longrightarrow> credited w' p r \<and> cd_confirmation_id res \<noteq> None \<and> \<not> cd_retryable res"
    and "out = Inr res \<Longrightarrow> cd_outcome res \<in> {CREDIT_REJECTED, CREDIT_NOT_SENT}
      \<Longrightarrow> may_credit w' p r \<Longrightarrow> may_credit w p r"
proof -
  obtain oc where post: "hc_post client (''/partners/'' @ p @ ''/credits'')
      [(''reference'', JStr r), (''member_id'', JStr m), (''points'', JInt n)] w = (oc, w')"
    and out: "out = (case oc of Response resp \<Rightarrow> Inr (classify_credit_response resp)
          | Transport e \<Rightarrow> if e \<in> set NOT_SENT_ERRORS
              then Inr (mk_credit CREDIT_NOT_SENT (''connection_failed: '' @ transport_error_name e) True None None)
              else Inr (mk_credit CREDIT_UNKNOWN (''no_response: '' @ transport_error_name e) True None None)
          | HttpRaised x \<Rightarrow> Inl x)"
    using assms(3) by (auto simp: http_credit_points_def split: prod.splits)
  show "inv w' \<and> fits_request p r m n w'"
    using post_keeps [OF assms(1,2) post] .
  show "credited w' p r \<and> cd_confirmation_id res \<noteq> None \<and> \<not> cd_retryable res"
    if res: "out = Inr res" "cd_outcome res = CREDIT_SUCCESS"
  proof -
    obtain resp where resp: "oc = Response resp" "res = classify_credit_response resp"
      using res out by (auto split: http_outcome.splits if_splits)
    then show ?thesis
      using classified_credit(1) [of resp] res(2) confirmation_in_body [of resp]
        post_confirmed [OF assms(1,2) post [unfolded resp(1)]] by force
  qed
  show "may_credit w p r" if "out = Inr res" "cd_outcome res \<in> {CREDIT_REJECTED, CREDIT_NOT_SENT}" "may_credit w' p r"
  proof (cases oc)
    case (Response resp)
    then show ?thesis
      using that out classified_credit(2) [of resp] post_refused [OF assms(1,2) post [unfolded Response]] by auto
  next
    case (Transport e)
    then show ?thesis
      using that out post_unsent [OF assms(1,2) post [unfolded Transport]]
      by (auto simp: NOT_SENT_ERRORS_def split: if_splits)
  qed (use that out in auto)
qed

lemma http_status:
  assumes "known p" "inv w" "http_get_credit_status client p r w = (out, w')"
  shows "inv w' \<and> (fits_request p r m n w \<longrightarrow> fits_request p r m n w') \<and> (may_credit w' p r \<longrightarrow> may_credit w p r)"
    and "out = Inr st \<Longrightarrow> st_status st = STATUS_COMPLETED
      \<Longrightarrow> credited w' p r \<and> st_confirmation_id st \<noteq> None \<and> \<not> st_retryable st"
    and "out = Inr st \<Longrightarrow> st_status st = STATUS_NOT_FOUND \<Longrightarrow> \<not> credited w' p r \<and> \<not> st_retryable st"
proof -
  obtain oc where get: "hc_get client (''/partners/'' @ p @ ''/credits/'' @ r) w = (oc, w')"
    and out: "out = (case oc of Response resp \<Rightarrow> Inr (classify_status_response resp)
          | Transport e \<Rightarrow> Inr (mk_status STATUS_UNKNOWN (''no_response: '' @ transport_error_name e) True None None)
          | HttpRaised x \<Rightarrow> Inl x)"
    using assms(3) by (auto simp: http_get_credit_status_def split: prod.splits)
  show "inv w' \<and> (fits_request p r m n w \<longrightarrow> fits_request p r m n w') \<and> (may_credit w' p r \<longrightarrow> may_credit w p r)"
    using get_keeps [OF assms(1,2) get] .
  have resp: "\<exists>resp. oc = Response resp \<and> st = classify_status_response resp"
    if "out = Inr st" "st_status st \<noteq> STATUS_UNKNOWN"
    using that out by (auto split: http_outcome.splits)
  show "credited w' p r \<and> st_confirmation_id st \<noteq> None \<and> \<not> st_retryable st"
    if st: "out = Inr st" "st_status st = STATUS_COMPLETED"
  proof -
    obtain resp where r: "oc = Response resp" "st = classify_status_response resp"
      using resp st by auto
    then show ?thesis
      using classified_status(1) [of resp] st(2) confirmation_in_body [of resp]
        get_found [OF assms(1,2) get [unfolded r(1)]] by force
  qed
  show "\<not> credited w' p r \<and> \<not> st_retryable st"
    if st: "out = Inr st" "st_status st = STATUS_NOT_FOUND"
  proof -
    obtain resp where r: "oc = Response resp" "st = classify_status_response resp"
      using resp st by auto
    then show ?thesis
      using classified_status(2) [of resp] st(2) get_missing [OF assms(1,2) get [unfolded r(1)]] by auto
  qed
qed

end

sublocale http_partner \<subseteq> adapter: partner_contract
  "ad_credit_points (HttpPartnerAdapter client)" "ad_get_credit_status (HttpPartnerAdapter client)"
  known inv fits_request credited may_credit
  by unfold_locales
    (simp_all add: HttpPartnerAdapter_def, (blast intro: credited_possible dest: http_credit http_status)+)

end
