(* ===== verification/Transfer_Service.thy ===== *)
theory Transfer_Service
  imports Transfer_State Rate_Repository Partner
begin

text \<open>
  The transfer saga, \<^verbatim>\<open>app/services/transfer_service.py\<close>. Each database step is one \<open>unit_of_work\<close>: it
  runs on the database as its transaction sees it, holding the row locks it takes, and is atomic.
  \<open>create_transfer\<close> composes the steps around the partner call; between two steps other actors may
  commit, which is the parameter \<open>others\<close>. Clock readings and the new identifier are arguments. Metrics and
  logging are not modelled.
\<close>

section \<open>Requests\<close>

record transfer_request =
  rq_source_program :: string
  rq_destination_program :: string
  rq_source_points :: int

record debited_transfer =
  dt_transfer_id :: string
  dt_partner_code :: string
  dt_member_id :: string
  dt_destination_points :: int

section \<open>Shared saga steps\<close>

definition lock_transfer :: "db \<Rightarrow> string \<Rightarrow> transfer result" where
  "lock_transfer s tid = of_option (LookupError tid) (find (\<lambda>t. tr_id t = tid) (db_transfers s))"

text \<open>
  The result of a step on a locked transfer: the changed transfer object with the event it added to the
  session, and the database after the statements already executed. \<open>commit_step\<close> is the flush at commit.
\<close>

definition settle_transfer ::
  "moment \<Rightarrow> moment \<Rightarrow> db \<Rightarrow> transfer \<Rightarrow> string \<Rightarrow> string \<Rightarrow> (string \<times> json) list
    \<Rightarrow> ((transfer \<times> pending_event) \<times> db) result" where
  "settle_transfer wall dbnow s t confirmation_id reason metadata =
     bindE (get_system_account s (tr_source_program_id t) TRANSFER_CLEARING) (\<lambda>source_clearing.
     bindE (get_system_account s (tr_source_program_id t) PARTNER_SETTLEMENT) (\<lambda>source_settlement.
     bindE (get_system_account s (tr_destination_program_id t) PARTNER_SETTLEMENT) (\<lambda>destination_settlement.
     bindE (lock_accounts_for_update s [acc_id source_clearing, acc_id source_settlement,
       acc_id destination_settlement, tr_destination_account_id t]) (\<lambda>accounts.
     bindE (locked_row accounts (acc_id source_clearing)) (\<lambda>a1.
     bindE (locked_row accounts (acc_id source_settlement)) (\<lambda>a2.
     bindE (locked_row accounts (acc_id destination_settlement)) (\<lambda>a3.
     bindE (locked_row accounts (tr_destination_account_id t)) (\<lambda>a4.
     bindE (post_journal dbnow s TRANSFER_SETTLE
       [debit a1 (tr_source_points t), credit a2 (tr_source_points t),
        debit a3 (tr_destination_points t), credit a4 (tr_destination_points t)] (Some (tr_id t))) (\<lambda>(j, s').
     bindE (transition wall (t\<lparr>tr_partner_confirmation_id := Some confirmation_id, tr_next_verification_at := None\<rparr>)
       COMPLETED reason (dict_set ''confirmation_id'' (JStr confirmation_id) metadata) None) (\<lambda>te.
     Inr (te, s')))))))))))"

definition reverse_transfer ::
  "moment \<Rightarrow> moment \<Rightarrow> db \<Rightarrow> transfer \<Rightarrow> transfer_failure_code \<Rightarrow> string \<Rightarrow> string \<Rightarrow> (string \<times> json) list
    \<Rightarrow> ((transfer \<times> pending_event) \<times> db) result" where
  "reverse_transfer wall dbnow s t failure_code failure_message reason metadata =
     bindE (get_system_account s (tr_source_program_id t) TRANSFER_CLEARING) (\<lambda>clearing.
     bindE (lock_accounts_for_update s [acc_id clearing, tr_source_account_id t]) (\<lambda>accounts.
     bindE (locked_row accounts (acc_id clearing)) (\<lambda>a1.
     bindE (locked_row accounts (tr_source_account_id t)) (\<lambda>a2.
     bindE (post_journal dbnow s TRANSFER_REVERSAL
       [debit a1 (tr_source_points t), credit a2 (tr_source_points t)] (Some (tr_id t))) (\<lambda>(j, s').
     bindE (transition wall (t\<lparr>tr_failure_code := Some failure_code, tr_failure_message := Some failure_message,
         tr_next_verification_at := None\<rparr>)
       REVERSED reason (dict_set ''failure_code'' (JStr (failure_code_text failure_code)) metadata) None) (\<lambda>te.
     Inr (te, s')))))))"

definition commit_step :: "moment \<Rightarrow> transfer \<Rightarrow> (transfer \<times> pending_event) \<times> db \<Rightarrow> (transfer_status \<times> db) result" where
  "commit_step dbnow old step =
     (case step of ((t, e), s) \<Rightarrow> bindE (flush_changes dbnow s old t [e]) (\<lambda>s'. Inr (tr_status t, s')))"

section \<open>Step 1: debit\<close>

definition user_account :: "db \<Rightarrow> string \<Rightarrow> int \<Rightarrow> string \<Rightarrow> account result" where
  "user_account s user_id program_id program_code =
     of_option (mk_domain_error ACCOUNT_NOT_FOUND
         (''You have no '' @ program_code @ '' account linked.'') [(''program'', JStr program_code)])
       (get_user_account s user_id program_id)"

definition new_transfer ::
  "string \<Rightarrow> string \<Rightarrow> string \<Rightarrow> route_config \<Rightarrow> rate_rule \<Rightarrow> conversion \<Rightarrow> account \<Rightarrow> account \<Rightarrow> transfer" where
  "new_transfer transfer_id user_id key route rate conversion source destination =
     \<lparr>tr_id = transfer_id, tr_user_id = user_id, tr_idempotency_key = key,
      tr_source_program_id = pr_id (rc_source route), tr_destination_program_id = pr_id (rc_destination route),
      tr_source_account_id = acc_id source, tr_destination_account_id = acc_id destination,
      tr_source_points = cv_source_points conversion, tr_base_points = cv_base_points conversion,
      tr_bonus_points = cv_bonus_points conversion, tr_destination_points = cv_destination_points conversion,
      tr_rate_id = rr_rate_id rate, tr_rate_snapshot = snapshot_to_dict (cv_snapshot conversion),
      tr_status = PENDING, tr_failure_code = None, tr_failure_message = None,
      tr_partner_reference = Some transfer_id, tr_partner_confirmation_id = None,
      tr_verification_attempts = 0, tr_next_verification_at = None,
      tr_created_at = 0, tr_updated_at = 0, tr_completed_at = None\<rparr>"

text \<open>
  \<open>debit_source dbnow wall now transfer_id\<close>: \<open>dbnow\<close> is the transaction's \<^verbatim>\<open>now()\<close>, \<open>now\<close> the service
  clock, \<open>transfer_id\<close> the value of \<^verbatim>\<open>new_transfer_id()\<close>.
\<close>

definition debit_source ::
  "moment \<Rightarrow> moment \<Rightarrow> moment \<Rightarrow> string \<Rightarrow> string \<Rightarrow> transfer_request \<Rightarrow> string
    \<Rightarrow> db \<Rightarrow> (debited_transfer \<times> db) result" where
  "debit_source dbnow wall now transfer_id user_id request key s =
     bindE (get_route s (rq_source_program request) (rq_destination_program request) now) (\<lambda>route.
     bindE (ensure_route_usable route) (\<lambda>rate.
     bindE (calculate_conversion rate (rq_source_points request) (rc_bonus route) now) (\<lambda>conversion.
     bindE (user_account s user_id (pr_id (rc_source route)) (pr_code (rc_source route))) (\<lambda>source.
     bindE (user_account s user_id (pr_id (rc_destination route)) (pr_code (rc_destination route))) (\<lambda>destination.
     bindE (of_option (RuntimeError ''destination program or member id missing'')
       (find (\<lambda>p. prg_id p = pr_id (rc_destination route)) (db_programs s))) (\<lambda>destination_program.
     bindE (of_option (RuntimeError ''destination program or member id missing'')
       (acc_external_member_id destination)) (\<lambda>member_id.
     bindE (get_system_account s (pr_id (rc_source route)) TRANSFER_CLEARING) (\<lambda>clearing.
     bindE (lock_accounts_for_update s [acc_id source, acc_id clearing]) (\<lambda>locked.
     bindE (locked_row locked (acc_id source)) (\<lambda>source_row.
     bindE (raise_if (acc_balance source_row < rq_source_points request)
       (mk_domain_error INSUFFICIENT_BALANCE
         (''Your '' @ pr_code (rc_source route) @ '' balance is lower than ''
            @ show_int (rq_source_points request) @ ''.'') [])) (\<lambda>_.
     bindE (insert_transfer dbnow s
       (new_transfer transfer_id user_id key route rate conversion source destination)) (\<lambda>(t, s1).
     bindE (flush_event dbnow s1 (record_creation t ''transfer_requested'')) (\<lambda>s2.
     bindE (locked_row locked (acc_id clearing)) (\<lambda>clearing_row.
     bindE (post_journal dbnow s2 TRANSFER_DEBIT
       [debit source_row (rq_source_points request), credit clearing_row (rq_source_points request)]
       (Some transfer_id)) (\<lambda>(j, s3).
     bindE (transition wall t SOURCE_DEBITED ''source_points_debited'' [(''journal_id'', JInt (jr_id j))] (Some now)) (\<lambda>te.
     bindE (commit_step dbnow t (te, s3)) (\<lambda>(st, s4).
     Inr (\<lparr>dt_transfer_id = transfer_id, dt_partner_code = prg_partner_code destination_program,
           dt_member_id = member_id, dt_destination_points = cv_destination_points conversion\<rparr>, s4))))))))))))))))))"

definition find_by_idempotency_key :: "db \<Rightarrow> string \<Rightarrow> string \<Rightarrow> string result" where
  "find_by_idempotency_key s user_id key =
     map_sum id tr_id (of_option (RuntimeError ''unique violation on idempotency key but no transfer found'')
       (find (\<lambda>t. tr_user_id t = user_id \<and> tr_idempotency_key t = key) (db_transfers s)))"

section \<open>Step 2: submit\<close>

definition mark_submitted ::
  "moment \<Rightarrow> moment \<Rightarrow> moment \<Rightarrow> string \<Rightarrow> string \<Rightarrow> db \<Rightarrow> (transfer_status \<times> db) result" where
  "mark_submitted dbnow wall now tid partner_code s =
     bindE (lock_transfer s tid) (\<lambda>t.
     bindE (transition wall t PARTNER_SUBMITTED ''partner_credit_requested''
       [(''partner'', JStr partner_code)] (Some now)) (\<lambda>te.
     commit_step dbnow t (te, s)))"

section \<open>Step 4: outcome\<close>

definition credit_metadata :: "credit_result \<Rightarrow> (string \<times> json) list" where
  "credit_metadata r =
     [(''partner_outcome'', JStr (outcome_text (cd_outcome r))), (''partner_reason'', JStr (cd_reason r)),
      (''attempts'', JInt (cd_attempts r)), (''http_status'', json_of_int_option (cd_http_status r))]"

text \<open>\<^verbatim>\<open>x\<close> as a condition, where \<^verbatim>\<open>x: str | None\<close>: the text if it is not empty.\<close>

definition nonempty :: "string option \<Rightarrow> string option" where
  "nonempty x = (case x of Some c \<Rightarrow> if c \<noteq> [] then Some c else None | None \<Rightarrow> None)"

definition apply_partner_outcome ::
  "moment \<Rightarrow> moment \<Rightarrow> moment \<Rightarrow> duration \<Rightarrow> string \<Rightarrow> credit_result \<Rightarrow> db \<Rightarrow> (transfer_status \<times> db) result" where
  "apply_partner_outcome dbnow wall now verification_delay tid r s =
     bindE (lock_transfer s tid) (\<lambda>t.
     if tr_status t \<noteq> PARTNER_SUBMITTED then Inr (tr_status t, s)
     else if cd_outcome r = CREDIT_SUCCESS \<and> nonempty (cd_confirmation_id r) \<noteq> None then
       bindE (settle_transfer wall dbnow s t (the (nonempty (cd_confirmation_id r)))
         ''partner_confirmed_credit'' (credit_metadata r)) (commit_step dbnow t)
     else if cd_outcome r = CREDIT_REJECTED then
       bindE (reverse_transfer wall dbnow s t PARTNER_REJECTED
         (''The partner rejected the credit ('' @ cd_reason r @ ''). Points were returned.'')
         ''partner_rejected_credit'' (credit_metadata r)) (commit_step dbnow t)
     else if cd_outcome r = CREDIT_NOT_SENT then
       bindE (reverse_transfer wall dbnow s t PARTNER_UNAVAILABLE
         ''The partner could not be reached. Points were returned.''
         ''partner_not_reached'' (credit_metadata r)) (commit_step dbnow t)
     else
       bindE (transition wall (t\<lparr>tr_next_verification_at := Some (now + verification_delay)\<rparr>)
         PENDING_VERIFICATION ''partner_outcome_unknown'' (credit_metadata r) (Some now)) (\<lambda>te.
       commit_step dbnow t (te, s)))"

section \<open>The saga\<close>

record 'w transfer_service =
  sv_partners :: "'w partner_registry"
  sv_verification_delay :: duration
  sv_max_transfer_points :: "int option"

text \<open>The readings of the three clocks, by step.\<close>

record timing =
  tm_db :: "nat \<Rightarrow> moment"
  tm_wall :: "nat \<Rightarrow> moment"
  tm_now :: "nat \<Rightarrow> moment"

definition create_transfer ::
  "'w transfer_service \<Rightarrow> timing \<Rightarrow> (nat \<Rightarrow> db \<Rightarrow> db) \<Rightarrow> string \<Rightarrow> string \<Rightarrow> transfer_request \<Rightarrow> string
    \<Rightarrow> db \<Rightarrow> 'w \<Rightarrow> string result \<times> db \<times> 'w" where
  "create_transfer sv tm others new_id user_id request key s w =
     (case bindE (ensure_different_programs (rq_source_program request) (rq_destination_program request))
         (\<lambda>_. ensure_within_platform_limit (rq_source_points request) (sv_max_transfer_points sv)) of
        Inl e \<Rightarrow> (Inl e, s, w)
      | Inr _ \<Rightarrow>
        (case unit_of_work (debit_source (tm_db tm 0) (tm_wall tm 0) (tm_now tm 0) new_id user_id request key) s of
           (Inl e, s1) \<Rightarrow>
             if e = IntegrityError ''uq_transfers_user_idempotency_key''
             then (find_by_idempotency_key (others 0 s1) user_id key, others 0 s1, w)
             else (Inl e, s1, w)
         | (Inr d, s1) \<Rightarrow>
           (case unit_of_work (mark_submitted (tm_db tm 1) (tm_wall tm 1) (tm_now tm 1)
               (dt_transfer_id d) (dt_partner_code d)) (others 1 s1) of
              (Inl e, s2) \<Rightarrow> (Inl e, s2, w)
            | (Inr _, s2) \<Rightarrow>
              (case registry_get (sv_partners sv) (dt_partner_code d) of
                 Inl e \<Rightarrow> (Inl e, s2, w)
               | Inr adapter \<Rightarrow>
                 (case ad_credit_points adapter (dt_partner_code d) (dt_transfer_id d) (dt_member_id d)
                     (dt_destination_points d) w of
                    (Inl e, w') \<Rightarrow> (Inl e, others 2 s2, w')
                  | (Inr r, w') \<Rightarrow>
                    (case unit_of_work (apply_partner_outcome (tm_db tm 2) (tm_wall tm 2) (tm_now tm 2)
                        (sv_verification_delay sv) (dt_transfer_id d) r) (others 2 s2) of
                       (Inl e, s3) \<Rightarrow> (Inl e, s3, w')
                     | (Inr _, s3) \<Rightarrow> (Inr (dt_transfer_id d), s3, w')))))))"

end
