(* ===== verification/Reconciliation.thy ===== *)
theory Reconciliation
  imports Transfer_Service "HOL-Library.List_Lexorder" "HOL-Library.Char_ord"
begin

text \<open>
  The reconciler, \<^verbatim>\<open>app/services/reconciliation.py\<close>: claiming due transfers under a lease, asking the
  partner, and resolving one transfer: settle, reverse, check again, or hand over to manual review.
  As in the transfer service every transaction is one \<open>unit_of_work\<close>, other actors act between them, and
  clock readings are arguments. Metrics and logging are not modelled.
\<close>

section \<open>Results and policy\<close>

datatype reconcile_result =
    R_COMPLETED | R_REVERSED | R_RETRY_SCHEDULED | R_MANUAL_REVIEW | R_NOT_DUE | R_ALREADY_RESOLVED

definition STUCK_STATUSES :: "transfer_status list" where
  "STUCK_STATUSES = [SOURCE_DEBITED, PARTNER_SUBMITTED]"

definition VERIFIABLE_STATUSES :: "transfer_status list" where
  "VERIFIABLE_STATUSES = [PARTNER_SUBMITTED, PENDING_VERIFICATION]"

definition count_backlog :: "db \<Rightarrow> (transfer_status \<times> int) list" where
  "count_backlog s =
     map (\<lambda>st. (st, int (length (filter (\<lambda>t. tr_status t = st) (db_transfers s)))))
       [PENDING_VERIFICATION, MANUAL_REVIEW]"

record reconciliation_policy =
  po_lease :: duration
  po_stuck_after :: duration
  po_not_found_grace :: duration
  po_max_attempts :: int
  po_backoff_base :: duration
  po_backoff_max :: duration

text \<open>\<^verbatim>\<open>timedelta.max\<close>: one microsecond less than a thousand million days.\<close>

definition TIMEDELTA_MAX :: duration where
  "TIMEDELTA_MAX = 1000000000 * 86400000000 - 1"

text \<open>The product of a \<^verbatim>\<open>timedelta\<close> and an integer raises \<^verbatim>\<open>OverflowError\<close> out of range, before \<^verbatim>\<open>min\<close>.\<close>

definition backoff :: "reconciliation_policy \<Rightarrow> int \<Rightarrow> duration result" where
  "backoff policy attempts =
     (let delay = po_backoff_base policy * 2 ^ nat (attempts - 1) in
      bindE (raise_if (delay > TIMEDELTA_MAX) OverflowError) (\<lambda>_.
      Inr (min (po_backoff_max policy) delay)))"

section \<open>Claiming\<close>

text \<open>The condition \<^verbatim>\<open>due\<close>; a comparison with \<^verbatim>\<open>NULL\<close> is not true.\<close>

definition due :: "reconciliation_policy \<Rightarrow> moment \<Rightarrow> transfer \<Rightarrow> bool" where
  "due policy now t =
     ((tr_status t = PENDING_VERIFICATION
        \<and> (case tr_next_verification_at t of None \<Rightarrow> False | Some m \<Rightarrow> m \<le> now))
      \<or> (tr_status t \<in> set STUCK_STATUSES \<and> tr_created_at t \<le> now - po_stuck_after policy
        \<and> (case tr_next_verification_at t of None \<Rightarrow> True | Some m \<Rightarrow> m \<le> now)))"

text \<open>\<^verbatim>\<open>ORDER BY next_verification_at ASC NULLS FIRST, id\<close>\<close>

definition verification_order :: "transfer list \<Rightarrow> transfer list" where
  "verification_order ts =
     (let by_id = sort_key tr_id ts in
      filter (\<lambda>t. tr_next_verification_at t = None) by_id
      @ sort_key (\<lambda>t. the (tr_next_verification_at t))
          (filter (\<lambda>t. tr_next_verification_at t \<noteq> None) by_id))"

text \<open>\<open>busy\<close> are the rows another transaction has locked, which \<^verbatim>\<open>SKIP LOCKED\<close> leaves out.\<close>

definition claim_due ::
  "reconciliation_policy \<Rightarrow> moment \<Rightarrow> (string \<Rightarrow> bool) \<Rightarrow> nat \<Rightarrow> db \<Rightarrow> (string list \<times> db) result" where
  "claim_due policy now busy batch_size s =
     (let claimed = map tr_id (take batch_size
            (verification_order (filter (\<lambda>t. due policy now t \<and> \<not> busy (tr_id t)) (db_transfers s))))
      in Inr (claimed,
        s\<lparr>db_transfers := update_where (\<lambda>t. tr_id t \<in> set claimed)
          (\<lambda>t. t\<lparr>tr_next_verification_at := Some (now + po_lease policy)\<rparr>) (db_transfers s)\<rparr>))"

section \<open>Resolving one transfer\<close>

record transfer_snapshot =
  sn_status :: transfer_status
  sn_created_at :: moment
  sn_partner_code :: string
  sn_reference :: string
  sn_route :: string

definition snapshot :: "db \<Rightarrow> string \<Rightarrow> transfer_snapshot result" where
  "snapshot s tid =
     (case find (\<lambda>t. tr_id t = tid) (db_transfers s) of
        None \<Rightarrow> Inl (LookupError tid)
      | Some t \<Rightarrow>
        (case (find (\<lambda>p. prg_id p = tr_source_program_id t) (db_programs s),
               find (\<lambda>p. prg_id p = tr_destination_program_id t) (db_programs s)) of
           (Some source, Some destination) \<Rightarrow>
             Inr \<lparr>sn_status = tr_status t, sn_created_at = tr_created_at t,
                  sn_partner_code = prg_partner_code destination,
                  sn_reference = (case nonempty (tr_partner_reference t) of Some r \<Rightarrow> r | None \<Rightarrow> tid),
                  sn_route = prg_code source @ ''->'' @ prg_code destination\<rparr>
         | _ \<Rightarrow> Inl (LookupError tid)))"

definition reverse_interrupted :: "moment \<Rightarrow> moment \<Rightarrow> string \<Rightarrow> db \<Rightarrow> (reconcile_result \<times> db) result" where
  "reverse_interrupted dbnow wall tid s =
     bindE (lock_transfer s tid) (\<lambda>t.
     if tr_status t \<noteq> SOURCE_DEBITED then Inr (R_ALREADY_RESOLVED, s)
     else bindE (reverse_transfer wall dbnow s t TRANSFER_INTERRUPTED
         (''Processing was interrupted before the partner was contacted. '' @ ''Points were returned.'')
         ''reconciled_interrupted_before_partner'' [(''source'', JStr ''reconciler'')]) (\<lambda>step.
       bindE (commit_step dbnow t step) (\<lambda>(st, s'). Inr (R_REVERSED, s'))))"

definition status_metadata :: "status_result \<Rightarrow> transfer \<Rightarrow> (string \<times> json) list" where
  "status_metadata r t =
     [(''source'', JStr ''reconciler''), (''partner_status'', JStr (status_text (st_status r))),
      (''partner_reason'', JStr (st_reason r)), (''verification_attempts'', JInt (tr_verification_attempts t))]"

text \<open>The move to \<open>PENDING_VERIFICATION\<close> that both inconclusive branches make first, if it is needed.\<close>

definition start_verifying ::
  "moment \<Rightarrow> transfer \<Rightarrow> (string \<times> json) list \<Rightarrow> (transfer \<times> pending_event list) result" where
  "start_verifying wall t metadata =
     (if tr_status t = PARTNER_SUBMITTED
      then bindE (transition wall t PENDING_VERIFICATION ''reconciler_verifying'' metadata None) (\<lambda>(t', e).
        Inr (t', [e]))
      else Inr (t, []))"

definition recheck_after_grace ::
  "reconciliation_policy \<Rightarrow> moment \<Rightarrow> moment \<Rightarrow> moment \<Rightarrow> transfer \<Rightarrow> (string \<times> json) list
    \<Rightarrow> (reconcile_result \<times> transfer \<times> pending_event list) result" where
  "recheck_after_grace policy wall now decidable_at t metadata =
     bindE (start_verifying wall t metadata) (\<lambda>(t1, es).
     Inr (R_RETRY_SCHEDULED,
       t1\<lparr>tr_next_verification_at := Some (min (now + po_backoff_base policy) decidable_at)\<rparr>, es))"

definition retry_or_escalate ::
  "reconciliation_policy \<Rightarrow> moment \<Rightarrow> moment \<Rightarrow> transfer \<Rightarrow> (string \<times> json) list
    \<Rightarrow> (reconcile_result \<times> transfer \<times> pending_event list) result" where
  "retry_or_escalate policy wall now t metadata0 =
     bindE (start_verifying wall t metadata0) (\<lambda>(t1, es).
     let attempts = tr_verification_attempts t1 + 1;
         t2 = t1\<lparr>tr_verification_attempts := attempts\<rparr>;
         metadata = dict_set ''verification_attempts'' (JInt attempts) metadata0
     in if attempts \<ge> po_max_attempts policy then
          bindE (transition wall
            (t2\<lparr>tr_failure_code := Some VERIFICATION_EXHAUSTED,
                tr_failure_message := Some (''Partner outcome still unknown after '' @ show_int attempts
                  @ '' verification attempts. ''
                  @ ''Points are held in clearing until an operator resolves the transfer.''),
                tr_next_verification_at := None\<rparr>)
            MANUAL_REVIEW ''verification_exhausted'' metadata None) (\<lambda>(t3, e).
          Inr (R_MANUAL_REVIEW, t3, es @ [e]))
        else
          bindE (backoff policy attempts) (\<lambda>delay.
          Inr (R_RETRY_SCHEDULED, t2\<lparr>tr_next_verification_at := Some (now + delay)\<rparr>, es)))"

definition commit_changes ::
  "moment \<Rightarrow> db \<Rightarrow> transfer \<Rightarrow> reconcile_result \<times> transfer \<times> pending_event list \<Rightarrow> (reconcile_result \<times> db) result" where
  "commit_changes dbnow s old step =
     (case step of (r, t, es) \<Rightarrow> bindE (flush_changes dbnow s old t es) (\<lambda>s'. Inr (r, s')))"

definition apply_status ::
  "reconciliation_policy \<Rightarrow> moment \<Rightarrow> moment \<Rightarrow> moment \<Rightarrow> string \<Rightarrow> status_result \<Rightarrow> db
    \<Rightarrow> (reconcile_result \<times> db) result" where
  "apply_status policy dbnow wall now tid r s =
     bindE (lock_transfer s tid) (\<lambda>t.
     if tr_status t \<notin> set VERIFIABLE_STATUSES then Inr (R_ALREADY_RESOLVED, s)
     else
     let metadata = status_metadata r t in
     if st_status r = STATUS_COMPLETED \<and> nonempty (st_confirmation_id r) \<noteq> None then
       bindE (settle_transfer wall dbnow s t (the (nonempty (st_confirmation_id r)))
         ''reconciled_partner_has_credit'' metadata) (\<lambda>step.
       bindE (commit_step dbnow t step) (\<lambda>(st, s'). Inr (R_COMPLETED, s')))
     else if st_status r = STATUS_NOT_FOUND then
       let decidable_at = tr_created_at t + po_not_found_grace policy in
       if now \<ge> decidable_at then
         bindE (reverse_transfer wall dbnow s t PARTNER_NOT_RECEIVED
           ''The partner never received the credit. Points were returned.''
           ''reconciled_partner_has_no_credit'' metadata) (\<lambda>step.
         bindE (commit_step dbnow t step) (\<lambda>(st, s'). Inr (R_REVERSED, s')))
       else bindE (recheck_after_grace policy wall now decidable_at t metadata) (commit_changes dbnow s t)
     else bindE (retry_or_escalate policy wall now t metadata) (commit_changes dbnow s t))"

definition reconcile ::
  "'w partner_registry \<Rightarrow> reconciliation_policy \<Rightarrow> timing \<Rightarrow> (nat \<Rightarrow> db \<Rightarrow> db) \<Rightarrow> string
    \<Rightarrow> db \<Rightarrow> 'w \<Rightarrow> reconcile_result result \<times> db \<times> 'w" where
  "reconcile partners policy tm others tid s w =
     (case snapshot s tid of
        Inl e \<Rightarrow> (Inl e, s, w)
      | Inr sn \<Rightarrow>
        if sn_status sn \<notin> set (STUCK_STATUSES @ [PENDING_VERIFICATION]) then (Inr R_ALREADY_RESOLVED, s, w)
        else if sn_status sn \<in> set STUCK_STATUSES \<and> sn_created_at sn > tm_now tm 0 - po_stuck_after policy
          then (Inr R_NOT_DUE, s, w)
        else if sn_status sn = SOURCE_DEBITED then
          (case unit_of_work (reverse_interrupted (tm_db tm 1) (tm_wall tm 1) tid) (others 0 s) of
             (r, s') \<Rightarrow> (r, s', w))
        else
          (case registry_get partners (sn_partner_code sn) of
             Inl e \<Rightarrow> (Inl e, s, w)
           | Inr adapter \<Rightarrow>
             (case ad_get_credit_status adapter (sn_partner_code sn) (sn_reference sn) w of
                (Inl e, w') \<Rightarrow> (Inl e, others 0 s, w')
              | (Inr r, w') \<Rightarrow>
                (case unit_of_work (apply_status policy (tm_db tm 1) (tm_wall tm 1) (tm_now tm 1) tid r) (others 0 s) of
                   (out, s') \<Rightarrow> (out, s', w')))))"

section \<open>A batch\<close>

text \<open>
  The loop of \<^verbatim>\<open>run_once\<close> over the claimed ids: \<open>stop\<close> is consulted before each one, the summary counts
  the results, and an exception of one transfer ends the batch.
\<close>

fun run_batch ::
  "(nat \<Rightarrow> string \<Rightarrow> db \<Rightarrow> 'w \<Rightarrow> reconcile_result result \<times> db \<times> 'w) \<Rightarrow> (nat \<Rightarrow> bool) \<Rightarrow> nat \<Rightarrow> string list
    \<Rightarrow> (reconcile_result \<times> int) list \<Rightarrow> db \<Rightarrow> 'w \<Rightarrow> (reconcile_result \<times> int) list result \<times> db \<times> 'w" where
  "run_batch rec stop i [] summary s w = (Inr summary, s, w)"
| "run_batch rec stop i (tid # tids) summary s w =
     (if stop i then (Inr summary, s, w)
      else case rec i tid s w of
        (Inl e, s', w') \<Rightarrow> (Inl e, s', w')
      | (Inr r, s', w') \<Rightarrow> run_batch rec stop (Suc i) tids (dict_add r 1 summary) s' w')"

definition run_once ::
  "'w partner_registry \<Rightarrow> reconciliation_policy \<Rightarrow> (nat \<Rightarrow> timing) \<Rightarrow> (nat \<Rightarrow> nat \<Rightarrow> db \<Rightarrow> db) \<Rightarrow> (string \<Rightarrow> bool)
    \<Rightarrow> nat \<Rightarrow> (nat \<Rightarrow> bool) \<Rightarrow> db \<Rightarrow> 'w \<Rightarrow> (reconcile_result \<times> int) list result \<times> db \<times> 'w" where
  "run_once partners policy tm others busy batch_size stop s w =
     (case unit_of_work (claim_due policy (tm_now (tm 0) 0) busy batch_size) s of
        (Inl e, s1) \<Rightarrow> (Inl e, s1, w)
      | (Inr claimed, s1) \<Rightarrow>
          run_batch (\<lambda>i. reconcile partners policy (tm (Suc i)) (others (Suc i))) stop 0 claimed [] s1 w)"

end
