(* ===== verification/Saga.thy ===== *)
theory Saga
  imports Reconciliation
begin

text \<open>
  The invariant of the transfer saga and why every transaction keeps it. \<open>saga_ok\<close> ties each transfer to
  its ledger journals, its audit trail and its points in clearing, on top of the books of the ledger. The
  two lemmas \<open>saga_advance\<close> (a transfer moves on) and \<open>saga_create\<close> (a transfer is created) carry the
  proofs of all operations of the transfer service and the reconciler.
\<close>

section \<open>The invariant\<close>

definition in_flight :: "transfer_status \<Rightarrow> bool" where
  "in_flight st = (st \<in> {SOURCE_DEBITED, PARTNER_SUBMITTED, PENDING_VERIFICATION, MANUAL_REVIEW})"

text \<open>The journals a transfer has in each status, in order of posting.\<close>

fun expected_journals :: "transfer_status \<Rightarrow> journal_type list" where
  "expected_journals PENDING = []"
| "expected_journals COMPLETED = [TRANSFER_DEBIT, TRANSFER_SETTLE]"
| "expected_journals REVERSED = [TRANSFER_DEBIT, TRANSFER_REVERSAL]"
| "expected_journals _ = [TRANSFER_DEBIT]"

definition journals_of :: "db \<Rightarrow> string \<Rightarrow> journal_type list" where
  "journals_of s tid = map jr_journal_type (filter (\<lambda>j. jr_transfer_id j = Some tid) (db_journals s))"

text \<open>An account of the user in the program, by id.\<close>

definition owns :: "db \<Rightarrow> string \<Rightarrow> int \<Rightarrow> int \<Rightarrow> bool" where
  "owns s user_id aid pid =
     list_ex (\<lambda>a. acc_id a = aid \<and> acc_owner_type a = USER \<and> acc_user_id a = Some user_id \<and> acc_program_id a = pid)
       (db_accounts s)"

definition transfer_linked :: "bool \<Rightarrow> db \<Rightarrow> transfer \<Rightarrow> bool" where
  "transfer_linked pend s t =
     (replay None (events_of s (tr_id t)) = Some (tr_status t)
      \<and> journals_of s (tr_id t) = expected_journals (tr_status t)
      \<and> list_all fst (transfer_ranges t @ transfer_checks t)
      \<and> owns s (tr_user_id t) (tr_source_account_id t) (tr_source_program_id t)
      \<and> owns s (tr_user_id t) (tr_destination_account_id t) (tr_destination_program_id t)
      \<and> (pend \<or> tr_status t \<noteq> PENDING)
      \<and> (tr_status t = PENDING_VERIFICATION \<longrightarrow> tr_next_verification_at t \<noteq> None)
      \<and> tr_partner_reference t = Some (tr_id t))"

definition in_flight_points :: "transfer list \<Rightarrow> int \<Rightarrow> int" where
  "in_flight_points ts pid =
     sum_list (map tr_source_points (filter (\<lambda>t. tr_source_program_id t = pid \<and> in_flight (tr_status t)) ts))"

definition clearing_ok :: "db \<Rightarrow> bool" where
  "clearing_ok s =
     (\<forall>a \<in> set (db_accounts s). acc_account_type a = TRANSFER_CLEARING \<longrightarrow>
        acc_balance a = in_flight_points (db_transfers s) (acc_program_id a))"

text \<open>The unique index on system accounts: one per program and type.\<close>

definition system_unique :: "db \<Rightarrow> bool" where
  "system_unique s =
     (\<forall>a \<in> set (db_accounts s). \<forall>b \<in> set (db_accounts s).
        acc_owner_type a = SYSTEM \<and> acc_owner_type b = SYSTEM \<and> acc_program_id a = acc_program_id b
        \<and> acc_account_type a = acc_account_type b \<longrightarrow> a = b)"

text \<open>
  \<open>saga_inv pend\<close> is the invariant; inside the debit transaction, where \<open>pend\<close> holds, a transfer may still
  be \<open>PENDING\<close>. Between transactions it is \<open>saga_ok\<close>: no committed transfer is.
\<close>

definition saga_inv :: "bool \<Rightarrow> db \<Rightarrow> bool" where
  "saga_inv pend s =
     (ledger_ok s \<and> find_violations s = [] \<and> system_unique s
      \<and> distinct (map tr_id (db_transfers s))
      \<and> distinct (map (\<lambda>t. (tr_user_id t, tr_idempotency_key t)) (db_transfers s))
      \<and> (\<forall>t \<in> set (db_transfers s). transfer_linked pend s t)
      \<and> (\<forall>j \<in> set (db_journals s). case jr_transfer_id j of None \<Rightarrow> True | Some tid \<Rightarrow> tid \<in> tr_id ` set (db_transfers s))
      \<and> (\<forall>e \<in> set (db_events s). ev_transfer_id e \<in> tr_id ` set (db_transfers s))
      \<and> clearing_ok s)"

abbreviation saga_ok :: "db \<Rightarrow> bool" where
  "saga_ok \<equiv> saga_inv False"

lemma sample_db_saga_ok: "saga_ok sample_db"
  by code_simp

section \<open>Changes that the ledger does not see\<close>

lemma ledger_ok_cong:
  assumes "db_accounts s' = db_accounts s" "db_programs s' = db_programs s" "db_journals s' = db_journals s"
    "db_entries s' = db_entries s" "db_next_journal_id s' = db_next_journal_id s"
  shows "ledger_ok s' = ledger_ok s" "books_ok s' = books_ok s"
  using assms
  by (simp_all add: ledger_ok_def accounts_ok_def account_in_program_def books_ok_def balances_match_def
      journals_balanced_def ledger_balance_def)

lemma saga_books: "saga_inv pend s \<Longrightarrow> ledger_ok s \<and> books_ok s"
  using find_violations_empty_iff by (auto simp: saga_inv_def)

text \<open>Everything about a transfer that never changes after its creation.\<close>

definition same_identity :: "transfer \<Rightarrow> transfer \<Rightarrow> bool" where
  "same_identity t t' =
     (tr_id t' = tr_id t \<and> tr_user_id t' = tr_user_id t \<and> tr_idempotency_key t' = tr_idempotency_key t
      \<and> tr_source_program_id t' = tr_source_program_id t
      \<and> tr_destination_program_id t' = tr_destination_program_id t
      \<and> tr_source_account_id t' = tr_source_account_id t
      \<and> tr_destination_account_id t' = tr_destination_account_id t
      \<and> tr_source_points t' = tr_source_points t \<and> tr_base_points t' = tr_base_points t
      \<and> tr_bonus_points t' = tr_bonus_points t \<and> tr_destination_points t' = tr_destination_points t
      \<and> tr_rate_id t' = tr_rate_id t \<and> tr_rate_snapshot t' = tr_rate_snapshot t
      \<and> tr_created_at t' = tr_created_at t \<and> tr_partner_reference t' = tr_partner_reference t)"

lemma in_flight_points_update:
  assumes "distinct (map tr_id ts)" "t \<in> set ts" "same_identity t t'"
  shows "in_flight_points (update_where (\<lambda>r. tr_id r = tr_id t) (\<lambda>_. t') ts) pid =
    in_flight_points ts pid
    + (if tr_source_program_id t = pid
       then (if in_flight (tr_status t') then tr_source_points t else 0)
          - (if in_flight (tr_status t) then tr_source_points t else 0)
       else 0)"
proof -
  let ?g = "\<lambda>t. if tr_source_program_id t = pid \<and> in_flight (tr_status t) then tr_source_points t else 0"
  have "in_flight_points xs pid = sum_list (map ?g xs)" for xs
    by (simp add: in_flight_points_def sum_list_filter_pos)
  moreover have "sum_list (map ?g (update_where (\<lambda>r. tr_id r = tr_id t) (\<lambda>_. t') ts))
      = sum_list (map ?g ts) + (?g t' - ?g t)"
    using filter_unique [OF assms(1,2)] by (simp add: sum_update_where)
  ultimately show ?thesis
    using assms(3) by (auto simp: same_identity_def)
qed

lemma replay_append:
  "replay cur (es @ es') = (case replay cur es of None \<Rightarrow> (if es = [] then replay cur es' else None) | Some st \<Rightarrow> replay (Some st) es')"
  by (induction es arbitrary: cur) (auto split: option.splits)

lemma owns_moved:
  "db_accounts s' = map (\<lambda>a. moved dbnow (delta a) a) (db_accounts s) \<Longrightarrow> owns s' u aid pid = owns s u aid pid"
  by (simp add: owns_def list_ex_iff)

lemma system_unique_moved:
  assumes "db_accounts s' = map (\<lambda>a. moved dbnow (delta a) a) (db_accounts s)" "system_unique s"
  shows "system_unique s'"
  unfolding system_unique_def assms(1) set_map ball_simps
proof (intro ballI impI)
  fix a b assume ab: "a \<in> set (db_accounts s)" "b \<in> set (db_accounts s)"
    and "acc_owner_type (moved dbnow (delta a) a) = SYSTEM \<and> acc_owner_type (moved dbnow (delta b) b) = SYSTEM
      \<and> acc_program_id (moved dbnow (delta a) a) = acc_program_id (moved dbnow (delta b) b)
      \<and> acc_account_type (moved dbnow (delta a) a) = acc_account_type (moved dbnow (delta b) b)"
  then have "a = b" using assms(2) by (auto simp: system_unique_def)
  then show "moved dbnow (delta a) a = moved dbnow (delta b) b" by simp
qed

section \<open>A transfer moves on\<close>

lemma saga_advance:
  assumes ok: "saga_inv pend s" and t: "t \<in> set (db_transfers s)" and id: "same_identity t t'"
    and ledger: "ledger_ok s'" "books_ok s'"
    and transfers: "db_transfers s' = update_where (\<lambda>r. tr_id r = tr_id t) (\<lambda>_. t') (db_transfers s)"
    and events: "db_events s' = db_events s @ es" "\<forall>e \<in> set es. ev_transfer_id e = tr_id t"
      "replay (Some (tr_status t)) es = Some (tr_status t')"
    and journals: "db_journals s' = db_journals s @ js" "\<forall>j \<in> set js. jr_transfer_id j = Some (tr_id t)"
      "expected_journals (tr_status t') = expected_journals (tr_status t) @ map jr_journal_type js"
    and accounts: "db_accounts s' = map (\<lambda>a. moved dbnow (delta a) a) (db_accounts s)"
    and delta: "\<forall>a \<in> set (db_accounts s). acc_account_type a = TRANSFER_CLEARING \<longrightarrow> delta a =
      (if tr_source_program_id t = acc_program_id a
       then (if in_flight (tr_status t') then tr_source_points t else 0)
          - (if in_flight (tr_status t) then tr_source_points t else 0) else 0)"
    and checks: "list_all fst (transfer_ranges t' @ transfer_checks t')"
    and due: "tr_status t' \<noteq> PENDING" "tr_status t' = PENDING_VERIFICATION \<longrightarrow> tr_next_verification_at t' \<noteq> None"
  shows "saga_inv pend s'"
proof -
  have dist: "distinct (map tr_id (db_transfers s))" and link: "\<forall>r \<in> set (db_transfers s). transfer_linked pend s r"
    using ok by (simp_all add: saga_inv_def)
  have idt: "tr_id t' = tr_id t"
    using id by (simp add: same_identity_def)
  have ids: "map tr_id (db_transfers s') = map tr_id (db_transfers s)"
    "map (\<lambda>t. (tr_user_id t, tr_idempotency_key t)) (db_transfers s')
      = map (\<lambda>t. (tr_user_id t, tr_idempotency_key t)) (db_transfers s)"
  proof -
    have "(if tr_id r = tr_id t then t' else r) = (if r = t then t' else r)" if "r \<in> set (db_transfers s)" for r
      using dist t that by (auto simp: distinct_map inj_on_def)
    then show "map tr_id (db_transfers s') = map tr_id (db_transfers s)"
      "map (\<lambda>t. (tr_user_id t, tr_idempotency_key t)) (db_transfers s')
        = map (\<lambda>t. (tr_user_id t, tr_idempotency_key t)) (db_transfers s)"
      using id by (auto simp: transfers update_where_def same_identity_def)
  qed
  have idset: "tr_id ` set (db_transfers s') = tr_id ` set (db_transfers s)"
    using ids(1) by (metis set_map)
  have linked: "transfer_linked pend s' r" if r: "r \<in> set (db_transfers s')" for r
  proof (cases "tr_id r = tr_id t")
    case True
    then have rt: "r = t'"
      using r idt by (auto simp: transfers set_update_where split: if_splits)
    have "transfer_linked pend s t" using link t by blast
    then show ?thesis
      using events journals checks due id owns_moved [OF accounts]
      by (auto simp: rt transfer_linked_def events_of_def journals_of_def replay_append same_identity_def)
  next
    case False
    then have "r \<in> set (db_transfers s)"
      using r idt by (auto simp: transfers set_update_where split: if_splits)
    then have "transfer_linked pend s r" using link by blast
    moreover have "filter (\<lambda>e. ev_transfer_id e = tr_id r) es = []"
      "filter (\<lambda>j. jr_transfer_id j = Some (tr_id r)) js = []"
      using False events(2) journals(2) by (auto simp: filter_empty_conv)
    ultimately show ?thesis
      using events(1) journals(1) owns_moved [OF accounts]
      by (simp add: transfer_linked_def events_of_def journals_of_def)
  qed
  have clear: "clearing_ok s'"
    using ok delta in_flight_points_update [OF dist t id]
    by (auto simp: clearing_ok_def saga_inv_def accounts transfers)
  have tid: "tr_id t \<in> tr_id ` set (db_transfers s)"
    using t by simp
  show ?thesis
    unfolding saga_inv_def idset
    using ok ledger find_violations_empty_iff [OF ledger(1)] system_unique_moved [OF accounts]
      ids linked clear tid events(1,2) journals(1,2)
    by (auto simp: saga_inv_def)
qed

section \<open>What may happen to an existing transfer\<close>

text \<open>Identity is kept, the status moves along the table or stays, ledger and audit trail only grow.\<close>

definition progressed :: "transfer \<Rightarrow> transfer \<Rightarrow> bool" where
  "progressed t t' \<longleftrightarrow> same_identity t t' \<and> (\<exists>sts. moves (tr_status t) sts (tr_status t'))"

definition extends :: "db \<Rightarrow> db \<Rightarrow> bool" where
  "extends s s' \<longleftrightarrow> (\<exists>es. db_entries s' = db_entries s @ es) \<and> (\<exists>js. db_journals s' = db_journals s @ js)
     \<and> (\<exists>evs. db_events s' = db_events s @ evs)
     \<and> (\<forall>t \<in> set (db_transfers s). \<exists>t' \<in> set (db_transfers s'). progressed t t')"

lemma moves_trans: "moves a xs b \<Longrightarrow> moves b ys c \<Longrightarrow> moves a (xs @ ys) c"
  by (induction rule: moves.induct) (auto intro: moves.intros)

lemma progressed_refl: "progressed t t"
  by (auto simp: progressed_def same_identity_def intro: moves_refl)

lemma progressed_trans: "progressed a b \<Longrightarrow> progressed b c \<Longrightarrow> progressed a c"
  unfolding progressed_def by (auto simp: same_identity_def intro: moves_trans)

lemma extends_refl: "extends s s"
  by (auto simp: extends_def intro: progressed_refl)

lemma extends_trans:
  assumes "extends a b" "extends b c"
  shows "extends a c"
proof -
  have "\<exists>t' \<in> set (db_transfers c). progressed t t'" if "t \<in> set (db_transfers a)" for t
    using assms that by (meson extends_def progressed_trans)
  then show ?thesis
    using assms by (auto simp: extends_def)
qed

text \<open>One step of the system: the invariant holds again and nothing was lost.\<close>

definition saga_step :: "bool \<Rightarrow> db \<Rightarrow> db \<Rightarrow> bool" where
  "saga_step pend s s' \<longleftrightarrow> saga_inv pend s' \<and> extends s s'"

lemma saga_step_refl: "saga_inv pend s \<Longrightarrow> saga_step pend s s"
  by (simp add: saga_step_def extends_refl)

section \<open>Flushing a changed transfer\<close>

fun pending_path :: "transfer_status \<Rightarrow> pending_event list \<Rightarrow> transfer_status \<Rightarrow> bool" where
  "pending_path st [] st' = (st = st')"
| "pending_path st (e # es) st' =
     (pe_from_status e = Some st \<and> can_transition st (pe_to_status e) \<and> pending_path (pe_to_status e) es st')"

lemma pending_path_moves: "pending_path st es st' \<Longrightarrow> \<exists>sts. moves st sts st'"
  by (induction es arbitrary: st) (auto intro: moves.intros)

lemma flush_events_Inr:
  assumes "flush_events dbnow s es = Inr s'"
  shows "\<exists>evs. s' = s\<lparr>db_events := db_events s @ evs, db_next_event_id := db_next_event_id s + int (length es)\<rparr>
    \<and> map ev_transfer_id evs = map pe_transfer_id es
    \<and> (\<forall>st st'. pending_path st es st' \<longrightarrow> replay (Some st) evs = Some st')"
  using assms
proof (induction es arbitrary: s)
  case (Cons e es)
  then obtain s1 where s1: "flush_event dbnow s e = Inr s1" and rest: "flush_events dbnow s1 es = Inr s'"
    by (auto simp: result_simps)
  from Cons.IH [OF rest] obtain evs where evs:
    "s' = s1\<lparr>db_events := db_events s1 @ evs, db_next_event_id := db_next_event_id s1 + int (length es)\<rparr>"
    "map ev_transfer_id evs = map pe_transfer_id es"
    "\<forall>st st'. pending_path st es st' \<longrightarrow> replay (Some st) evs = Some st'"
    by blast
  show ?case
    using s1 evs
    by (intro exI [of _ "added_event dbnow s e # evs"])
      (auto simp: flush_event_Inr_iff added_event_def event_follows_def)
qed auto

lemma update_where_same:
  assumes "distinct (map tr_id ts)" "t \<in> set ts"
  shows "update_where (\<lambda>r. tr_id r = tr_id t) (\<lambda>_. t) ts = ts"
  unfolding update_where_def
proof (rule map_idI)
  fix r assume "r \<in> set ts"
  then show "(if tr_id r = tr_id t then t else r) = r"
    using assms by (auto simp: distinct_map inj_on_def)
qed

text \<open>What a flush writes: the row, its checks satisfied, and the events.\<close>

lemma flush_changes_Inr:
  assumes "flush_changes dbnow s t t1 es = Inr s'"
    and "distinct (map tr_id (db_transfers s))" "t \<in> set (db_transfers s)" "list_all fst (transfer_ranges t @ transfer_checks t)"
  shows "\<exists>t' evs. (t' = t1 \<or> t' = t1\<lparr>tr_updated_at := dbnow\<rparr>)
    \<and> list_all fst (transfer_ranges t' @ transfer_checks t')
    \<and> s' = s\<lparr>db_transfers := update_where (\<lambda>r. tr_id r = tr_id t) (\<lambda>_. t') (db_transfers s),
            db_events := db_events s @ evs, db_next_event_id := db_next_event_id s + int (length es)\<rparr>
    \<and> map ev_transfer_id evs = map pe_transfer_id es
    \<and> (\<forall>st st'. pending_path st es st' \<longrightarrow> replay (Some st) evs = Some st')"
proof -
  from assms(1) obtain s1 where s1: "flush_transfer dbnow s t t1 = Inr s1" and es: "flush_events dbnow s1 es = Inr s'"
    by (auto simp: flush_changes_def result_simps)
  from flush_transfer_Inr [OF s1, folded list_all_iff] obtain t' where t': "t' = t1 \<or> t' = t1\<lparr>tr_updated_at := dbnow\<rparr>"
    "t1 \<noteq> t \<longrightarrow> list_all fst (transfer_ranges t' @ transfer_checks t')"
    "s1 = (if t1 = t then s else s\<lparr>db_transfers := update_where (\<lambda>r. tr_id r = tr_id t) (\<lambda>_. t') (db_transfers s)\<rparr>)"
    by blast
  from flush_events_Inr [OF es] obtain evs where evs:
    "s' = s1\<lparr>db_events := db_events s1 @ evs, db_next_event_id := db_next_event_id s1 + int (length es)\<rparr>"
    "map ev_transfer_id evs = map pe_transfer_id es"
    "\<forall>st st'. pending_path st es st' \<longrightarrow> replay (Some st) evs = Some st'"
    by blast
  show ?thesis
  proof (cases "t1 = t")
    case True
    then have "s1 = s" using t'(3) by simp
    then show ?thesis
      using True evs assms(4) update_where_same [OF assms(2,3)]
      by (intro exI [of _ t] exI [of _ evs]) simp
  next
    case False
    then show ?thesis
      using t' evs by (intro exI [of _ t'] exI [of _ evs]) simp
  qed
qed

lemma same_identity_touch: "same_identity t (t1\<lparr>tr_updated_at := m\<rparr>) = same_identity t t1"
  by (simp add: same_identity_def)

lemma saga_flush:
  assumes ok: "saga_inv pend s" and t: "t \<in> set (db_transfers s)" and id: "same_identity t t1"
    and base: "ledger_ok sm" "books_ok sm" "db_transfers sm = db_transfers s" "db_events sm = db_events s"
      "\<exists>xs. db_entries sm = db_entries s @ xs"
    and journals: "db_journals sm = db_journals s @ js" "\<forall>j \<in> set js. jr_transfer_id j = Some (tr_id t)"
      "expected_journals (tr_status t1) = expected_journals (tr_status t) @ map jr_journal_type js"
    and accounts: "db_accounts sm = map (\<lambda>a. moved m (delta a) a) (db_accounts s)"
    and delta: "\<forall>a \<in> set (db_accounts s). acc_account_type a = TRANSFER_CLEARING \<longrightarrow> delta a =
      (if tr_source_program_id t = acc_program_id a
       then (if in_flight (tr_status t1) then tr_source_points t else 0)
          - (if in_flight (tr_status t) then tr_source_points t else 0) else 0)"
    and flush: "flush_changes dbnow sm t t1 es = Inr s'"
    and path: "pending_path (tr_status t) es (tr_status t1)" "\<forall>e \<in> set es. pe_transfer_id e = tr_id t"
    and due: "tr_status t1 \<noteq> PENDING" "tr_status t1 = PENDING_VERIFICATION \<longrightarrow> tr_next_verification_at t1 \<noteq> None"
  shows "saga_step pend s s'"
proof -
  have dist: "distinct (map tr_id (db_transfers s))" and link: "transfer_linked pend s t"
    using ok t by (simp_all add: saga_inv_def)
  from flush_changes_Inr [OF flush] obtain t' evs where t': "t' = t1 \<or> t' = t1\<lparr>tr_updated_at := dbnow\<rparr>"
    "list_all fst (transfer_ranges t' @ transfer_checks t')"
    and s': "s' = sm\<lparr>db_transfers := update_where (\<lambda>r. tr_id r = tr_id t) (\<lambda>_. t') (db_transfers sm),
            db_events := db_events sm @ evs, db_next_event_id := db_next_event_id sm + int (length es)\<rparr>"
    and evs: "map ev_transfer_id evs = map pe_transfer_id es"
      "\<forall>st st'. pending_path st es st' \<longrightarrow> replay (Some st) evs = Some st'"
    using dist link t base by (auto simp: transfer_linked_def)
  have st: "tr_status t' = tr_status t1" "tr_next_verification_at t' = tr_next_verification_at t1" "same_identity t t'"
    using t'(1) id by (auto simp: same_identity_touch)
  have evids: "\<forall>e \<in> set evs. ev_transfer_id e = tr_id t"
  proof -
    have "ev_transfer_id ` set evs = pe_transfer_id ` set es"
      using evs(1) by (metis set_map)
    then show ?thesis using path(2) by (metis (no_types, lifting) image_iff)
  qed
  have "saga_inv pend s'"
  proof (rule saga_advance [OF ok t st(3), where es = evs and js = js and dbnow = m and delta = delta])
    show "ledger_ok s'" "books_ok s'"
      using base(1,2) ledger_ok_cong [of s' sm] s' by simp_all
  qed (use s' base journals accounts delta evids evs path due st t' in auto)
  moreover have "extends s s'"
  proof -
    have "progressed t t'"
      using st pending_path_moves [OF path(1)] by (auto simp: progressed_def)
    then have "\<exists>r' \<in> set (db_transfers s'). progressed r r'" if "r \<in> set (db_transfers s)" for r
      using that dist t s' base(3)
      by (cases "r = t") (force simp: set_update_where distinct_map inj_on_def intro: progressed_refl)+
    then show ?thesis
      using s' base journals by (auto simp: extends_def)
  qed
  ultimately show ?thesis by (simp add: saga_step_def)
qed

lemma saga_move:
  assumes "saga_inv pend s" "t \<in> set (db_transfers s)" "same_identity t t1"
    and "expected_journals (tr_status t1) = expected_journals (tr_status t)"
    and "in_flight (tr_status t1) = in_flight (tr_status t)"
    and "flush_changes dbnow s t t1 es = Inr s'"
    and "pending_path (tr_status t) es (tr_status t1)" "\<forall>e \<in> set es. pe_transfer_id e = tr_id t"
    and "tr_status t1 \<noteq> PENDING" "tr_status t1 = PENDING_VERIFICATION \<longrightarrow> tr_next_verification_at t1 \<noteq> None"
  shows "saga_step pend s s'"
proof (rule saga_flush [OF assms(1-3), where js = "[]" and delta = "\<lambda>_. 0" and sm = s and m = 0])
  show "db_accounts s = map (\<lambda>a. moved 0 0 a) (db_accounts s)"
    by simp
qed (use assms saga_books in auto)

lemma saga_post:
  assumes ok: "saga_inv pend s" and t: "t \<in> set (db_transfers s)" "same_identity t t1"
    and post: "post_journal dbnow s jt ps (Some (tr_id t)) = Inr (j, s1)"
    and "expected_journals (tr_status t1) = expected_journals (tr_status t) @ [jt]"
    and "\<forall>a \<in> set (db_accounts s). acc_account_type a = TRANSFER_CLEARING \<longrightarrow> account_net ps (acc_id a) =
      (if tr_source_program_id t = acc_program_id a
       then (if in_flight (tr_status t1) then tr_source_points t else 0)
          - (if in_flight (tr_status t) then tr_source_points t else 0) else 0)"
    and "flush_changes dbnow s1 t t1 es = Inr s'"
    and "pending_path (tr_status t) es (tr_status t1)" "\<forall>e \<in> set es. pe_transfer_id e = tr_id t"
    and "tr_status t1 \<noteq> PENDING" "tr_status t1 = PENDING_VERIFICATION \<longrightarrow> tr_next_verification_at t1 \<noteq> None"
  shows "saga_step pend s s'"
proof -
  note books = saga_books [OF ok]
  note s1 = post_journal_Inr [OF post]
  show ?thesis
  proof (rule saga_flush [OF ok t, where js = "[j]" and delta = "\<lambda>a. account_net ps (acc_id a)" and sm = s1 and m = dbnow])
    show "ledger_ok s1" "books_ok s1"
      using post_journal_keeps [OF post] books by simp_all
    show "\<exists>xs. db_entries s1 = db_entries s @ xs"
      using s1 by simp
  qed (use assms s1 in auto)
qed

section \<open>Lookups and locked rows\<close>

lemma get_system_account_Inr:
  "get_system_account s pid ty = Inr a \<Longrightarrow>
     a \<in> set (db_accounts s) \<and> acc_owner_type a = SYSTEM \<and> acc_program_id a = pid \<and> acc_account_type a = ty"
  by (auto simp: get_system_account_def result_simps dest!: find_SomeD)

lemma locked_row_Inr:
  assumes "lock_accounts_for_update s ids = Inr rows" "locked_row rows i = Inr a"
  shows "a \<in> set (db_accounts s) \<and> acc_id a = i"
  using assms by (auto simp: lock_accounts_for_update_eq locked_row_def result_simps split: if_splits dest!: map_of_SomeD)

lemma account_ids_inj:
  "ledger_ok s \<Longrightarrow> a \<in> set (db_accounts s) \<Longrightarrow> b \<in> set (db_accounts s) \<Longrightarrow> acc_id a = acc_id b \<longleftrightarrow> a = b"
  by (auto simp: ledger_ok_def accounts_ok_def distinct_map inj_on_def)

lemma account_types:
  assumes "ledger_ok s" "a \<in> set (db_accounts s)"
  shows "acc_owner_type a = USER \<longleftrightarrow> acc_account_type a = USER_BALANCE"
proof -
  have "owner_consistent a" using assms by (simp add: ledger_ok_def accounts_ok_def)
  then show ?thesis by (auto simp: owner_consistent_def)
qed

lemma owns_row:
  assumes "ledger_ok s" "owns s u aid pid" "a \<in> set (db_accounts s)" "acc_id a = aid"
  shows "acc_owner_type a = USER \<and> acc_user_id a = Some u \<and> acc_program_id a = pid \<and> acc_account_type a = USER_BALANCE"
proof -
  from assms(2) obtain b where b: "b \<in> set (db_accounts s)" "acc_id b = aid" "acc_owner_type b = USER"
    "acc_user_id b = Some u" "acc_program_id b = pid"
    by (auto simp: owns_def list_ex_iff)
  then have "a = b" using account_ids_inj [OF assms(1,3)] assms(4) by auto
  with b account_types [OF assms(1,3)] show ?thesis by simp
qed

lemma postings_simps [simp]:
  "po_account_id (debit a n) = acc_id a" "po_program_id (debit a n) = acc_program_id a"
  "po_amount (debit a n) = n" "signed_amount (debit a n) = - n"
  "po_account_id (credit a n) = acc_id a" "po_program_id (credit a n) = acc_program_id a"
  "po_amount (credit a n) = n" "signed_amount (credit a n) = n"
  by (simp_all add: debit_def credit_def signed_amount_def)

lemma saga_transferD:
  assumes "saga_inv pend s" "t \<in> set (db_transfers s)"
  shows "transfer_linked pend s t" "ledger_ok s" "owns s (tr_user_id t) (tr_source_account_id t) (tr_source_program_id t)"
    "owns s (tr_user_id t) (tr_destination_account_id t) (tr_destination_program_id t)"
    "tr_source_program_id t \<noteq> tr_destination_program_id t" "0 < tr_source_points t" "0 < tr_destination_points t"
  using assms by (auto simp: saga_inv_def transfer_linked_def transfer_checks_def)

lemma lock_transfer_Inr: "lock_transfer s tid = Inr t \<Longrightarrow> t \<in> set (db_transfers s) \<and> tr_id t = tid"
  by (auto simp: lock_transfer_def result_simps dest!: find_SomeD)

section \<open>Settling and reversing\<close>

text \<open>The postings of the two resolutions, on the rows they lock.\<close>

definition settle_postings :: "account \<Rightarrow> account \<Rightarrow> account \<Rightarrow> account \<Rightarrow> transfer \<Rightarrow> posting list" where
  "settle_postings a1 a2 a3 a4 t =
     [debit a1 (tr_source_points t), credit a2 (tr_source_points t),
      debit a3 (tr_destination_points t), credit a4 (tr_destination_points t)]"

definition reverse_postings :: "account \<Rightarrow> account \<Rightarrow> transfer \<Rightarrow> posting list" where
  "reverse_postings a1 a2 t = [debit a1 (tr_source_points t), credit a2 (tr_source_points t)]"

definition system_row :: "db \<Rightarrow> int \<Rightarrow> account_type \<Rightarrow> account \<Rightarrow> bool" where
  "system_row s pid ty a =
     (a \<in> set (db_accounts s) \<and> acc_owner_type a = SYSTEM \<and> acc_program_id a = pid \<and> acc_account_type a = ty)"

definition user_row_of :: "db \<Rightarrow> string \<Rightarrow> int \<Rightarrow> int \<Rightarrow> account \<Rightarrow> bool" where
  "user_row_of s u aid pid a =
     (a \<in> set (db_accounts s) \<and> acc_id a = aid \<and> acc_owner_type a = USER \<and> acc_user_id a = Some u
      \<and> acc_program_id a = pid \<and> acc_account_type a = USER_BALANCE)"

lemma settle_transfer_Inr:
  assumes ok: "saga_inv pend s" "t \<in> set (db_transfers s)"
    and settle: "settle_transfer wall dbnow s t c reason md = Inr (te, s1)"
  shows "\<exists>a1 a2 a3 a4 j. system_row s (tr_source_program_id t) TRANSFER_CLEARING a1
    \<and> system_row s (tr_source_program_id t) PARTNER_SETTLEMENT a2
    \<and> system_row s (tr_destination_program_id t) PARTNER_SETTLEMENT a3
    \<and> user_row_of s (tr_user_id t) (tr_destination_account_id t) (tr_destination_program_id t) a4
    \<and> post_journal dbnow s TRANSFER_SETTLE (settle_postings a1 a2 a3 a4 t) (Some (tr_id t)) = Inr (j, s1)
    \<and> transition wall (t\<lparr>tr_partner_confirmation_id := Some c, tr_next_verification_at := None\<rparr>)
        COMPLETED reason (dict_set ''confirmation_id'' (JStr c) md) None = Inr te"
proof -
  from settle obtain b1 b2 b3 rows a1 a2 a3 a4 j where
    b: "get_system_account s (tr_source_program_id t) TRANSFER_CLEARING = Inr b1"
      "get_system_account s (tr_source_program_id t) PARTNER_SETTLEMENT = Inr b2"
      "get_system_account s (tr_destination_program_id t) PARTNER_SETTLEMENT = Inr b3"
    and rows: "lock_accounts_for_update s [acc_id b1, acc_id b2, acc_id b3, tr_destination_account_id t] = Inr rows"
    and a: "locked_row rows (acc_id b1) = Inr a1" "locked_row rows (acc_id b2) = Inr a2"
      "locked_row rows (acc_id b3) = Inr a3" "locked_row rows (tr_destination_account_id t) = Inr a4"
    and post: "post_journal dbnow s TRANSFER_SETTLE (settle_postings a1 a2 a3 a4 t) (Some (tr_id t)) = Inr (j, s1)"
    and te: "transition wall (t\<lparr>tr_partner_confirmation_id := Some c, tr_next_verification_at := None\<rparr>)
        COMPLETED reason (dict_set ''confirmation_id'' (JStr c) md) None = Inr te"
    by (auto simp: settle_transfer_def settle_postings_def bindE_Inr_iff)
  note bs = b [THEN get_system_account_Inr] and as = a [THEN locked_row_Inr [OF rows]]
  note D = saga_transferD [OF ok]
  have "a1 = b1" "a2 = b2" "a3 = b3"
    using bs as account_ids_inj [OF D(2)] by blast+
  then show ?thesis
    using bs as owns_row [OF D(2,4)] post te
    by (intro exI [of _ a1] exI [of _ a2] exI [of _ a3] exI [of _ a4] exI [of _ j])
      (simp add: system_row_def user_row_of_def)
qed

lemma reverse_transfer_Inr:
  assumes ok: "saga_inv pend s" "t \<in> set (db_transfers s)"
    and rev: "reverse_transfer wall dbnow s t fc msg reason md = Inr (te, s1)"
  shows "\<exists>a1 a2 j. system_row s (tr_source_program_id t) TRANSFER_CLEARING a1
    \<and> user_row_of s (tr_user_id t) (tr_source_account_id t) (tr_source_program_id t) a2
    \<and> post_journal dbnow s TRANSFER_REVERSAL (reverse_postings a1 a2 t) (Some (tr_id t)) = Inr (j, s1)
    \<and> transition wall (t\<lparr>tr_failure_code := Some fc, tr_failure_message := Some msg, tr_next_verification_at := None\<rparr>)
        REVERSED reason (dict_set ''failure_code'' (JStr (failure_code_text fc)) md) None = Inr te"
proof -
  from rev obtain b1 rows a1 a2 j where
    b: "get_system_account s (tr_source_program_id t) TRANSFER_CLEARING = Inr b1"
    and rows: "lock_accounts_for_update s [acc_id b1, tr_source_account_id t] = Inr rows"
    and a: "locked_row rows (acc_id b1) = Inr a1" "locked_row rows (tr_source_account_id t) = Inr a2"
    and post: "post_journal dbnow s TRANSFER_REVERSAL (reverse_postings a1 a2 t) (Some (tr_id t)) = Inr (j, s1)"
    and te: "transition wall (t\<lparr>tr_failure_code := Some fc, tr_failure_message := Some msg, tr_next_verification_at := None\<rparr>)
        REVERSED reason (dict_set ''failure_code'' (JStr (failure_code_text fc)) md) None = Inr te"
    by (auto simp: reverse_transfer_def reverse_postings_def bindE_Inr_iff)
  note bs = b [THEN get_system_account_Inr] and as = a [THEN locked_row_Inr [OF rows]]
  note D = saga_transferD [OF ok]
  have "a1 = b1"
    using bs as account_ids_inj [OF D(2)] by blast
  then show ?thesis
    using bs as owns_row [OF D(2,3)] post te
    by (intro exI [of _ a1] exI [of _ a2] exI [of _ j]) (simp add: system_row_def user_row_of_def)
qed

lemma clearing_row_iff:
  assumes "saga_inv pend s" "system_row s pid TRANSFER_CLEARING c" "a \<in> set (db_accounts s)" "acc_account_type a = TRANSFER_CLEARING"
  shows "acc_id c = acc_id a \<longleftrightarrow> pid = acc_program_id a"
proof -
  have led: "ledger_ok s" and uniq: "system_unique s"
    using assms(1) by (simp_all add: saga_inv_def)
  have "acc_owner_type a = SYSTEM"
    using account_types [OF led assms(3)] assms(4) by (cases "acc_owner_type a") auto
  then have "pid = acc_program_id a \<Longrightarrow> c = a"
    using uniq assms(2-4) by (auto simp: system_unique_def system_row_def)
  moreover have "acc_id c = acc_id a \<Longrightarrow> c = a"
    using account_ids_inj [OF led, of c a] assms(2,3) by (simp add: system_row_def)
  ultimately show ?thesis
    using assms(2) by (auto simp: system_row_def)
qed

lemma other_row_id:
  assumes "saga_inv pend s" "b \<in> set (db_accounts s)" "acc_account_type b \<noteq> TRANSFER_CLEARING"
    and "a \<in> set (db_accounts s)" "acc_account_type a = TRANSFER_CLEARING"
  shows "acc_id b \<noteq> acc_id a"
  using account_ids_inj [of s b a] assms by (auto simp: saga_inv_def)

lemma settle_net:
  assumes "saga_inv pend s" "system_row s (tr_source_program_id t) TRANSFER_CLEARING a1"
    "system_row s p2 PARTNER_SETTLEMENT a2" "system_row s p3 PARTNER_SETTLEMENT a3"
    "user_row_of s u aid p4 a4" "a \<in> set (db_accounts s)" "acc_account_type a = TRANSFER_CLEARING"
  shows "account_net (settle_postings a1 a2 a3 a4 t) (acc_id a) =
    (if tr_source_program_id t = acc_program_id a then - tr_source_points t else 0)"
  using clearing_row_iff [OF assms(1,2,6,7)] other_row_id [OF assms(1) _ _ assms(6,7)] assms(3-5)
  by (auto simp: settle_postings_def system_row_def user_row_of_def)

lemma reverse_net:
  assumes "saga_inv pend s" "system_row s (tr_source_program_id t) TRANSFER_CLEARING a1"
    "user_row_of s u aid p a2" "a \<in> set (db_accounts s)" "acc_account_type a = TRANSFER_CLEARING"
  shows "account_net (reverse_postings a1 a2 t) (acc_id a) =
    (if tr_source_program_id t = acc_program_id a then - tr_source_points t else 0)"
  using clearing_row_iff [OF assms(1,2,4,5)] other_row_id [OF assms(1) _ _ assms(4,5)] assms(3)
  by (auto simp: reverse_postings_def user_row_of_def)

lemma commit_step_Inr:
  "commit_step dbnow old ((t, e), s) = Inr (st, s') \<longleftrightarrow> flush_changes dbnow s old t [e] = Inr s' \<and> st = tr_status t"
  by (auto simp: commit_step_def result_simps)

lemma settle_keeps:
  assumes "saga_inv pend s" "t \<in> set (db_transfers s)"
    and "settle_transfer wall dbnow s t c reason md = Inr step" "commit_step dbnow t step = Inr (st, s')"
  shows "saga_step pend s s' \<and> st = COMPLETED"
proof -
  obtain t1 e s1 where step: "step = ((t1, e), s1)" by (metis surj_pair)
  from settle_transfer_Inr [OF assms(1,2), OF assms(3) [unfolded step]] obtain a1 a2 a3 a4 j where
    rows: "system_row s (tr_source_program_id t) TRANSFER_CLEARING a1"
      "system_row s (tr_source_program_id t) PARTNER_SETTLEMENT a2"
      "system_row s (tr_destination_program_id t) PARTNER_SETTLEMENT a3"
      "user_row_of s (tr_user_id t) (tr_destination_account_id t) (tr_destination_program_id t) a4"
    and post: "post_journal dbnow s TRANSFER_SETTLE (settle_postings a1 a2 a3 a4 t) (Some (tr_id t)) = Inr (j, s1)"
    and te: "transition wall (t\<lparr>tr_partner_confirmation_id := Some c, tr_next_verification_at := None\<rparr>)
        COMPLETED reason (dict_set ''confirmation_id'' (JStr c) md) None = Inr (t1, e)"
    by blast
  note tr = te [unfolded transition_Inr_iff]
  have st: "tr_status t \<in> {PARTNER_SUBMITTED, PENDING_VERIFICATION}"
    using tr by (cases "tr_status t") (auto simp: can_transition_def)
  have "saga_step pend s s'"
  proof (rule saga_post [OF assms(1,2) _ post])
    show "flush_changes dbnow s1 t t1 [e] = Inr s'"
      using assms(4) step by (simp add: commit_step_Inr)
    show "\<forall>a \<in> set (db_accounts s). acc_account_type a = TRANSFER_CLEARING \<longrightarrow>
        account_net (settle_postings a1 a2 a3 a4 t) (acc_id a) =
        (if tr_source_program_id t = acc_program_id a
         then (if in_flight (tr_status t1) then tr_source_points t else 0)
            - (if in_flight (tr_status t) then tr_source_points t else 0) else 0)"
      using settle_net [OF assms(1) rows] tr st by (auto simp: in_flight_def)
  qed (use tr st in \<open>auto simp: same_identity_def\<close>)
  then show ?thesis
    using assms(4) step tr by (simp add: commit_step_Inr)
qed

lemma reverse_keeps:
  assumes "saga_inv pend s" "t \<in> set (db_transfers s)"
    and "reverse_transfer wall dbnow s t fc msg reason md = Inr step" "commit_step dbnow t step = Inr (st, s')"
  shows "saga_step pend s s' \<and> st = REVERSED"
proof -
  obtain t1 e s1 where step: "step = ((t1, e), s1)" by (metis surj_pair)
  from reverse_transfer_Inr [OF assms(1,2), OF assms(3) [unfolded step]] obtain a1 a2 j where
    rows: "system_row s (tr_source_program_id t) TRANSFER_CLEARING a1"
      "user_row_of s (tr_user_id t) (tr_source_account_id t) (tr_source_program_id t) a2"
    and post: "post_journal dbnow s TRANSFER_REVERSAL (reverse_postings a1 a2 t) (Some (tr_id t)) = Inr (j, s1)"
    and te: "transition wall (t\<lparr>tr_failure_code := Some fc, tr_failure_message := Some msg, tr_next_verification_at := None\<rparr>)
        REVERSED reason (dict_set ''failure_code'' (JStr (failure_code_text fc)) md) None = Inr (t1, e)"
    by blast
  note tr = te [unfolded transition_Inr_iff]
  have st: "tr_status t \<in> {SOURCE_DEBITED, PARTNER_SUBMITTED, PENDING_VERIFICATION}"
    using tr by (cases "tr_status t") (auto simp: can_transition_def)
  have "saga_step pend s s'"
  proof (rule saga_post [OF assms(1,2) _ post])
    show "flush_changes dbnow s1 t t1 [e] = Inr s'"
      using assms(4) step by (simp add: commit_step_Inr)
    show "\<forall>a \<in> set (db_accounts s). acc_account_type a = TRANSFER_CLEARING \<longrightarrow>
        account_net (reverse_postings a1 a2 t) (acc_id a) =
        (if tr_source_program_id t = acc_program_id a
         then (if in_flight (tr_status t1) then tr_source_points t else 0)
            - (if in_flight (tr_status t) then tr_source_points t else 0) else 0)"
      using reverse_net [OF assms(1) rows] tr st by (auto simp: in_flight_def)
  qed (use tr st in \<open>auto simp: same_identity_def\<close>)
  then show ?thesis
    using assms(4) step tr by (simp add: commit_step_Inr)
qed

section \<open>The steps of the transfer service\<close>

lemma mark_submitted_keeps:
  assumes "saga_inv pend s" "mark_submitted dbnow wall now tid pc s = Inr (st, s')"
  shows "saga_step pend s s'"
proof -
  from assms(2) obtain t t1 e where t: "lock_transfer s tid = Inr t"
    and te: "transition wall t PARTNER_SUBMITTED ''partner_credit_requested'' [(''partner'', JStr pc)] (Some now) = Inr (t1, e)"
    and flush: "flush_changes dbnow s t t1 [e] = Inr s'"
    by (auto simp: mark_submitted_def bindE_Inr_iff commit_step_Inr)
  note tr = te [unfolded transition_Inr_iff]
  have st: "tr_status t = SOURCE_DEBITED"
    using tr by (cases "tr_status t") (auto simp: can_transition_def)
  show ?thesis
    using lock_transfer_Inr [OF t] tr st
    by (intro saga_move [OF assms(1) _ _ _ _ flush]) (auto simp: same_identity_def in_flight_def)
qed

lemma apply_partner_outcome_keeps:
  assumes "saga_inv pend s" "apply_partner_outcome dbnow wall now vd tid r s = Inr (st, s')"
  shows "saga_step pend s s'"
proof -
  from assms(2) obtain t where t: "lock_transfer s tid = Inr t"
    by (auto simp: apply_partner_outcome_def bindE_Inr_iff)
  note t' = lock_transfer_Inr [OF t]
  have unknown: "saga_step pend s s'" if "transition wall (t\<lparr>tr_next_verification_at := Some (now + vd)\<rparr>) PENDING_VERIFICATION
      ''partner_outcome_unknown'' (credit_metadata r) (Some now) = Inr (t1, e)"
    "flush_changes dbnow s t t1 [e] = Inr s'" "tr_status t = PARTNER_SUBMITTED" for t1 e
    using that(1) [unfolded transition_Inr_iff] t' that(3)
    by (intro saga_move [OF assms(1) _ _ _ _ that(2)]) (auto simp: same_identity_def in_flight_def)
  show ?thesis
    using assms t t' unknown saga_step_refl [OF assms(1)] settle_keeps [OF assms(1)] reverse_keeps [OF assms(1)]
    by (auto simp: apply_partner_outcome_def bindE_Inr_iff commit_step_Inr split: if_splits)
qed

section \<open>Creating a transfer\<close>

lemma saga_quiet: "saga_inv True s \<Longrightarrow> \<forall>t \<in> set (db_transfers s). tr_status t \<noteq> PENDING \<Longrightarrow> saga_ok s"
  by (auto simp: saga_inv_def transfer_linked_def)

lemma saga_weaken: "saga_inv pend s \<Longrightarrow> saga_inv True s"
  by (auto simp: saga_inv_def transfer_linked_def)

lemma insert_transfer_Inr:
  assumes "insert_transfer dbnow s t0 = Inr (t, s1)"
  shows "t = t0\<lparr>tr_created_at := dbnow, tr_updated_at := dbnow\<rparr>" "s1 = s\<lparr>db_transfers := db_transfers s @ [t]\<rparr>"
    "list_all fst (transfer_ranges t @ transfer_checks t)"
    "tr_id t \<notin> tr_id ` set (db_transfers s)"
    "(tr_user_id t, tr_idempotency_key t) \<notin> (\<lambda>t. (tr_user_id t, tr_idempotency_key t)) ` set (db_transfers s)"
proof -
  let ?t = "t0\<lparr>tr_created_at := dbnow, tr_updated_at := dbnow\<rparr>"
  from assms have checks: "\<forall>c \<in> set (transfer_ranges ?t). fst c"
      "\<forall>c \<in> set (transfer_checks ?t @ transfer_uniques s ?t @ transfer_references s ?t). fst c"
    and t: "t = ?t" and s1: "s1 = s\<lparr>db_transfers := db_transfers s @ [t]\<rparr>"
    by (auto simp: insert_transfer_def bindE_Inr_iff checked_Inr_iff ranged_Inr_iff Let_def)
  show "t = ?t" "s1 = s\<lparr>db_transfers := db_transfers s @ [t]\<rparr>" by fact+
  show "list_all fst (transfer_ranges t @ transfer_checks t)"
    using checks unfolding t list_all_iff by auto
  have "\<forall>c \<in> set (transfer_uniques s t). fst c"
    using checks(2) t by auto
  then show "tr_id t \<notin> tr_id ` set (db_transfers s)"
    "(tr_user_id t, tr_idempotency_key t) \<notin> (\<lambda>t. (tr_user_id t, tr_idempotency_key t)) ` set (db_transfers s)"
    by (auto simp: transfer_uniques_def list_ex_iff)
qed

lemma saga_events_known: "saga_inv pend s \<Longrightarrow> \<forall>e \<in> set (db_events s). ev_transfer_id e \<noteq> i \<or> i \<in> tr_id ` set (db_transfers s)"
  by (auto simp: saga_inv_def)

lemma saga_journals_known:
  "saga_inv pend s \<Longrightarrow> \<forall>j \<in> set (db_journals s). jr_transfer_id j \<noteq> Some i \<or> i \<in> tr_id ` set (db_transfers s)"
  by (auto simp: saga_inv_def split: option.splits)

lemma saga_insert:
  assumes ok: "saga_inv pend s" and ins: "insert_transfer dbnow s t0 = Inr (t, s1)"
    and ev: "flush_event dbnow s1 (record_creation t reason) = Inr s2"
    and t0: "tr_status t0 = PENDING" "tr_partner_reference t0 = Some (tr_id t0)"
    and own: "owns s (tr_user_id t0) (tr_source_account_id t0) (tr_source_program_id t0)"
      "owns s (tr_user_id t0) (tr_destination_account_id t0) (tr_destination_program_id t0)"
  shows "saga_inv True s2"
proof -
  note I = insert_transfer_Inr [OF ins]
  define e where "e = added_event dbnow s1 (record_creation t reason)"
  have s2: "s2 = s\<lparr>db_transfers := db_transfers s @ [t], db_events := db_events s @ [e],
      db_next_event_id := db_next_event_id s + 1\<rparr>"
    using ev I(2) by (simp add: flush_event_Inr_iff e_def)
  have e: "ev_transfer_id e = tr_id t" "ev_from_status e = None" "ev_to_status e = PENDING"
    using I(1) t0(1) by (simp_all add: e_def added_event_def record_creation_def)
  have fresh: "filter (\<lambda>e. ev_transfer_id e = tr_id t) (db_events s) = []"
    "filter (\<lambda>j. jr_transfer_id j = Some (tr_id t)) (db_journals s) = []"
    using saga_events_known [OF ok] saga_journals_known [OF ok] I(4) by (auto simp: filter_empty_conv)
  have new: "transfer_linked True s2 t"
    using e fresh I(1,3) t0 own
    by (simp add: transfer_linked_def events_of_def journals_of_def s2 event_follows_def owns_def)
  have old: "transfer_linked True s2 r" if "r \<in> set (db_transfers s)" for r
  proof -
    have "tr_id r \<noteq> tr_id t" using I(4) that by (metis imageI)
    then show ?thesis
      using ok that e(1) by (auto simp: saga_inv_def transfer_linked_def events_of_def journals_of_def s2 owns_def)
  qed
  have clear: "clearing_ok s2"
    using ok I(1) t0(1) by (auto simp: saga_inv_def clearing_ok_def s2 in_flight_points_def in_flight_def)
  have books: "ledger_ok s2" "books_ok s2"
    using ledger_ok_cong [of s2 s] saga_books [OF ok] by (simp_all add: s2)
  show ?thesis
    unfolding saga_inv_def
    using ok books find_violations_empty_iff [OF books(1)] I(4,5) new old clear e(1)
    by (auto simp: saga_inv_def s2 system_unique_def split: option.splits)
qed

lemma user_account_Inr:
  "user_account s u pid code = Inr a \<Longrightarrow> a \<in> set (db_accounts s) \<and> owns s u (acc_id a) pid
     \<and> acc_owner_type a = USER \<and> acc_program_id a = pid"
  by (auto simp: user_account_def get_user_account_def result_simps owns_def list_ex_iff dest!: find_SomeD)

text \<open>The statements of the debit transaction, in the order in which they ran.\<close>

lemma debit_source_Inr:
  assumes "debit_source dbnow wall now tid u req key s = Inr (d, s')"
  shows "\<exists>route rate conv src dst prog clr rows t s1 s2 crow j s3 t1 e.
    get_route s (rq_source_program req) (rq_destination_program req) now = Inr route
    \<and> ensure_route_usable route = Inr rate
    \<and> calculate_conversion rate (rq_source_points req) (rc_bonus route) now = Inr conv
    \<and> user_account s u (pr_id (rc_source route)) (pr_code (rc_source route)) = Inr src
    \<and> user_account s u (pr_id (rc_destination route)) (pr_code (rc_destination route)) = Inr dst
    \<and> find (\<lambda>p. prg_id p = pr_id (rc_destination route)) (db_programs s) = Some prog
    \<and> acc_external_member_id dst = Some (dt_member_id d)
    \<and> get_system_account s (pr_id (rc_source route)) TRANSFER_CLEARING = Inr clr
    \<and> lock_accounts_for_update s [acc_id src, acc_id clr] = Inr rows
    \<and> (\<exists>srow. locked_row rows (acc_id src) = Inr srow \<and> rq_source_points req \<le> acc_balance srow
        \<and> post_journal dbnow s2 TRANSFER_DEBIT [debit srow (rq_source_points req), credit crow (rq_source_points req)]
            (Some tid) = Inr (j, s3))
    \<and> insert_transfer dbnow s (new_transfer tid u key route rate conv src dst) = Inr (t, s1)
    \<and> flush_event dbnow s1 (record_creation t ''transfer_requested'') = Inr s2
    \<and> locked_row rows (acc_id clr) = Inr crow
    \<and> transition wall t SOURCE_DEBITED ''source_points_debited'' [(''journal_id'', JInt (jr_id j))] (Some now) = Inr (t1, e)
    \<and> flush_changes dbnow s3 t t1 [e] = Inr s'
    \<and> dt_transfer_id d = tid \<and> dt_partner_code d = prg_partner_code prog
    \<and> dt_destination_points d = cv_destination_points conv"
  using assms
  by (clarsimp simp: debit_source_def bindE_Inr_iff of_option_Inr_iff raise_if_Inr_iff commit_step_Inr not_less
      split: prod.splits)

lemma debit_net:
  assumes "saga_inv pend s" "system_row s pid TRANSFER_CLEARING c" "b \<in> set (db_accounts s)" "acc_owner_type b = USER"
    and "a \<in> set (db_accounts s)" "acc_account_type a = TRANSFER_CLEARING"
  shows "account_net [debit b n, credit c n] (acc_id a) = (if pid = acc_program_id a then n else 0)"
proof -
  have "acc_account_type b \<noteq> TRANSFER_CLEARING"
    using account_types [of s b] assms by (auto simp: saga_inv_def)
  then show ?thesis
    using clearing_row_iff [OF assms(1,2,5,6)] other_row_id [OF assms(1,3) _ assms(5,6)] by simp
qed

lemma debit_source_keeps:
  assumes ok: "saga_ok s" and run: "debit_source dbnow wall now tid u req key s = Inr (d, s')"
  shows "saga_step False s s'"
proof -
  from debit_source_Inr [OF run] obtain route rate conv src dst prog clr rows t s1 s2 srow crow j s3 t1 e where
    conv: "calculate_conversion rate (rq_source_points req) (rc_bonus route) now = Inr conv"
    and src: "user_account s u (pr_id (rc_source route)) (pr_code (rc_source route)) = Inr src"
    and dst: "user_account s u (pr_id (rc_destination route)) (pr_code (rc_destination route)) = Inr dst"
    and clr: "get_system_account s (pr_id (rc_source route)) TRANSFER_CLEARING = Inr clr"
    and rows: "lock_accounts_for_update s [acc_id src, acc_id clr] = Inr rows"
    and srow: "locked_row rows (acc_id src) = Inr srow" and crow: "locked_row rows (acc_id clr) = Inr crow"
    and post: "post_journal dbnow s2 TRANSFER_DEBIT
      [debit srow (rq_source_points req), credit crow (rq_source_points req)] (Some tid) = Inr (j, s3)"
    and ins: "insert_transfer dbnow s (new_transfer tid u key route rate conv src dst) = Inr (t, s1)"
    and ev: "flush_event dbnow s1 (record_creation t ''transfer_requested'') = Inr s2"
    and te: "transition wall t SOURCE_DEBITED ''source_points_debited'' [(''journal_id'', JInt (jr_id j))] (Some now) = Inr (t1, e)"
    and flush: "flush_changes dbnow s3 t t1 [e] = Inr s'"
    by blast
  note U = user_account_Inr [OF src] user_account_Inr [OF dst] and C = get_system_account_Inr [OF clr]
  note R = locked_row_Inr [OF rows srow] locked_row_Inr [OF rows crow]
  note I = insert_transfer_Inr [OF ins] and T = te [unfolded transition_Inr_iff]
  have led: "ledger_ok s" using ok by (simp add: saga_inv_def)
  have same: "srow = src" "crow = clr"
    using account_ids_inj [OF led] R U C by blast+
  have s2: "db_accounts s2 = db_accounts s" "db_transfers s2 = db_transfers s @ [t]"
    using ev I(2) by (auto simp: flush_event_Inr_iff)
  have pts: "cv_source_points conv = rq_source_points req"
    using conv by (simp add: calculate_conversion_Inr_iff)
  have ok2: "saga_inv True s2"
    using U by (intro saga_insert [OF ok ins ev]) (simp_all add: new_transfer_def)
  have net: "\<forall>a \<in> set (db_accounts s2). acc_account_type a = TRANSFER_CLEARING \<longrightarrow>
      account_net [debit srow (rq_source_points req), credit crow (rq_source_points req)] (acc_id a) =
      (if tr_source_program_id t = acc_program_id a then rq_source_points req else 0)"
    using debit_net [OF ok, of "pr_id (rc_source route)" clr src] U C s2(1) I(1) same
    by (simp add: system_row_def new_transfer_def)
  have step: "saga_step True s2 s'"
  proof (rule saga_post [OF ok2 _ _ _ _ _ flush])
    show "post_journal dbnow s2 TRANSFER_DEBIT
      [debit srow (rq_source_points req), credit crow (rq_source_points req)] (Some (tr_id t)) = Inr (j, s3)"
      using post I(1) by (simp add: new_transfer_def)
  qed (use net T I(1) s2 pts in \<open>auto simp: same_identity_def in_flight_def new_transfer_def\<close>)
  have "\<forall>r \<in> set (db_transfers s'). tr_status r \<noteq> PENDING"
  proof -
    have "db_transfers s3 = db_transfers s @ [t]"
      using post_journal_Inr(3) [OF post] s2(2) by simp
    moreover have "distinct (map tr_id (db_transfers s @ [t]))"
      using ok I(4) by (simp add: saga_inv_def)
    ultimately obtain t' where "tr_status t' = SOURCE_DEBITED"
      "db_transfers s' = update_where (\<lambda>r. tr_id r = tr_id t) (\<lambda>_. t') (db_transfers s @ [t])"
      using flush_changes_Inr [OF flush] I(3) T by auto
    then show ?thesis
      using ok by (auto simp: set_update_where saga_inv_def transfer_linked_def split: if_splits)
  qed
  then have "saga_ok s'"
    using step saga_quiet by (simp add: saga_step_def)
  moreover have "extends s s2"
    using ev I(2) by (auto simp: flush_event_Inr_iff extends_def intro: progressed_refl)
  ultimately show ?thesis
    using step extends_trans by (auto simp: saga_step_def)
qed

section \<open>The steps of the reconciler\<close>

lemma reverse_interrupted_keeps:
  assumes "saga_inv pend s" "reverse_interrupted dbnow wall tid s = Inr (r, s')"
  shows "saga_step pend s s'"
  using assms lock_transfer_Inr [of s tid] saga_step_refl [OF assms(1)] reverse_keeps [OF assms(1)]
  by (auto simp: reverse_interrupted_def bindE_Inr_iff split: if_splits)

lemma start_verifying_Inr:
  assumes "start_verifying wall t md = Inr (t1, es)"
  shows "same_identity t t1" "pending_path (tr_status t) es (tr_status t1)" "\<forall>e \<in> set es. pe_transfer_id e = tr_id t"
    "tr_status t1 = (if tr_status t = PARTNER_SUBMITTED then PENDING_VERIFICATION else tr_status t)"
    "tr_verification_attempts t1 = tr_verification_attempts t"
  using assms
  by (auto simp: start_verifying_def bindE_Inr_iff transition_Inr_iff same_identity_def split: if_splits)

lemma pending_path_snoc:
  "pending_path st (es @ [e]) st' \<longleftrightarrow>
     (\<exists>st1. pending_path st es st1 \<and> pe_from_status e = Some st1 \<and> can_transition st1 (pe_to_status e) \<and> pe_to_status e = st')"
  by (induction es arbitrary: st) auto

lemma retry_or_escalate_Inr:
  assumes "retry_or_escalate policy wall now t md = Inr (r, t1, es)"
    and "tr_status t \<in> {PARTNER_SUBMITTED, PENDING_VERIFICATION}"
  shows "same_identity t t1" "pending_path (tr_status t) es (tr_status t1)" "\<forall>e \<in> set es. pe_transfer_id e = tr_id t"
    "tr_verification_attempts t1 = tr_verification_attempts t + 1"
    "(r = R_MANUAL_REVIEW \<and> tr_status t1 = MANUAL_REVIEW \<and> po_max_attempts policy \<le> tr_verification_attempts t1
        \<and> tr_next_verification_at t1 = None)
     \<or> (r = R_RETRY_SCHEDULED \<and> tr_status t1 = PENDING_VERIFICATION \<and> tr_verification_attempts t1 < po_max_attempts policy
        \<and> (\<exists>d. backoff policy (tr_verification_attempts t1) = Inr d \<and> tr_next_verification_at t1 = Some (now + d)))"
proof -
  from assms(1) obtain t0 es0 where v: "start_verifying wall t md = Inr (t0, es0)"
    by (auto simp: retry_or_escalate_def bindE_Inr_iff)
  note V = start_verifying_Inr [OF v]
  show "same_identity t t1" "pending_path (tr_status t) es (tr_status t1)" "\<forall>e \<in> set es. pe_transfer_id e = tr_id t"
    "tr_verification_attempts t1 = tr_verification_attempts t + 1"
    "(r = R_MANUAL_REVIEW \<and> tr_status t1 = MANUAL_REVIEW \<and> po_max_attempts policy \<le> tr_verification_attempts t1
        \<and> tr_next_verification_at t1 = None)
     \<or> (r = R_RETRY_SCHEDULED \<and> tr_status t1 = PENDING_VERIFICATION \<and> tr_verification_attempts t1 < po_max_attempts policy
        \<and> (\<exists>d. backoff policy (tr_verification_attempts t1) = Inr d \<and> tr_next_verification_at t1 = Some (now + d)))"
    using assms v V
    by (auto simp: retry_or_escalate_def bindE_Inr_iff transition_Inr_iff Let_def same_identity_def
        pending_path_snoc split: if_splits)
qed

lemma apply_status_keeps:
  assumes ok: "saga_inv pend s" and run: "apply_status policy dbnow wall now tid r s = Inr (out, s')"
  shows "saga_step pend s s'"
proof -
  from run obtain t where lock: "lock_transfer s tid = Inr t"
    by (auto simp: apply_status_def bindE_Inr_iff)
  note t = lock_transfer_Inr [OF lock]
  show ?thesis
  proof (cases "tr_status t \<in> set VERIFIABLE_STATUSES")
    case False
    with run lock saga_step_refl [OF ok] show ?thesis by (simp add: apply_status_def)
  next
    case True
    then have st: "tr_status t \<in> {PARTNER_SUBMITTED, PENDING_VERIFICATION}"
      by (simp add: VERIFIABLE_STATUSES_def)
    have recheck: "saga_step pend s s'"
      if "recheck_after_grace policy wall now dec t md = Inr (x, t1, es)" "flush_changes dbnow s t t1 es = Inr s'"
      for dec md x t1 es
    proof -
      from that(1) obtain t0 where v: "start_verifying wall t md = Inr (t0, es)"
        and t1: "t1 = t0\<lparr>tr_next_verification_at := Some (min (now + po_backoff_base policy) dec)\<rparr>"
        by (auto simp: recheck_after_grace_def bindE_Inr_iff)
      show ?thesis
        using start_verifying_Inr [OF v] st t t1
        by (intro saga_move [OF ok _ _ _ _ that(2)]) (auto simp: same_identity_def in_flight_def)
    qed
    have escalate: "saga_step pend s s'"
      if "retry_or_escalate policy wall now t md = Inr (x, t1, es)" "flush_changes dbnow s t t1 es = Inr s'"
      for md x t1 es
      using retry_or_escalate_Inr [OF that(1) st] st t
      by (intro saga_move [OF ok _ _ _ _ that(2)]) (auto simp: in_flight_def)
    show ?thesis
      using run lock True t recheck escalate settle_keeps [OF ok] reverse_keeps [OF ok]
      by (auto simp: apply_status_def commit_changes_def bindE_Inr_iff Let_def split: if_splits)
  qed
qed

text \<open>A lease changes one column that the invariant reads only in \<open>PENDING_VERIFICATION\<close>.\<close>

lemma claim_due_Inr:
  assumes "claim_due policy now busy n s = Inr (claimed, s')"
  shows "claimed = map tr_id (take n
      (verification_order (filter (\<lambda>t. due policy now t \<and> \<not> busy (tr_id t)) (db_transfers s))))"
    "s' = s\<lparr>db_transfers := map (\<lambda>t. if tr_id t \<in> set claimed
      then t\<lparr>tr_next_verification_at := Some (now + po_lease policy)\<rparr> else t) (db_transfers s)\<rparr>"
  using assms by (auto simp: claim_due_def Let_def update_where_def)

lemma lease_keeps:
  assumes ok: "saga_inv pend s"
  shows "saga_inv pend (s\<lparr>db_transfers := map (\<lambda>t. if P t then t\<lparr>tr_next_verification_at := Some m\<rparr> else t) (db_transfers s)\<rparr>)"
    (is "saga_inv pend ?s'")
proof -
  let ?f = "\<lambda>t. if P t then t\<lparr>tr_next_verification_at := Some m\<rparr> else t"
  have books: "ledger_ok ?s'" "books_ok ?s'"
    using ledger_ok_cong [of ?s' s] saga_books [OF ok] by simp_all
  have linked: "transfer_linked pend ?s' (?f t)" if "t \<in> set (db_transfers s)" for t
    using ok that by (auto simp: saga_inv_def transfer_linked_def events_of_def journals_of_def owns_def
        transfer_ranges_def transfer_checks_def)
  have ids: "map tr_id (db_transfers ?s') = map tr_id (db_transfers s)"
    "map (\<lambda>t. (tr_user_id t, tr_idempotency_key t)) (db_transfers ?s')
      = map (\<lambda>t. (tr_user_id t, tr_idempotency_key t)) (db_transfers s)"
    by auto
  have idset: "tr_id ` set (db_transfers ?s') = tr_id ` set (db_transfers s)"
    using ids(1) by (metis set_map)
  have "in_flight_points (map ?f ts) pid = in_flight_points ts pid" for ts pid
    by (induction ts) (auto simp: in_flight_points_def)
  then have clear: "clearing_ok ?s'"
    using ok by (simp add: saga_inv_def clearing_ok_def)
  show ?thesis
    unfolding saga_inv_def idset ids
    using ok books find_violations_empty_iff [OF books(1)] linked clear
    by (simp add: saga_inv_def system_unique_def del: if_image_distrib)
qed

lemma lease_extends:
  "extends s (s\<lparr>db_transfers := map (\<lambda>t. if P t then t\<lparr>tr_next_verification_at := Some m\<rparr> else t) (db_transfers s)\<rparr>)"
proof -
  let ?f = "\<lambda>t. if P t then t\<lparr>tr_next_verification_at := Some m\<rparr> else t"
  have "progressed t (?f t)" for t
    by (auto simp: progressed_def same_identity_def intro: moves_refl)
  then have "\<exists>t' \<in> ?f ` set (db_transfers s). progressed t t'" if "t \<in> set (db_transfers s)" for t
    using that by blast
  then show ?thesis
    by (simp add: extends_def)
qed

lemma claim_due_keeps:
  "saga_inv pend s \<Longrightarrow> claim_due policy now busy n s = Inr (claimed, s') \<Longrightarrow> saga_step pend s s'"
  using claim_due_Inr [of policy now busy n s claimed s'] lease_keeps lease_extends by (simp add: saga_step_def)

end
