(* ===== verification/Resilience.thy ===== *)
theory Resilience
  imports Partner
begin

text \<open>
  Retries, circuit breaking and the overall deadline, \<^verbatim>\<open>app/partners/resilience.py\<close>. Times are
  rationals (Python floats without rounding). The state of the process is a record of the breakers and
  the rest of the world; clock readings, random numbers, sleeping and \<^verbatim>\<open>asyncio.timeout\<close> are the
  operations of a \<open>runtime\<close>. Sleeping and partner calls are await points: they may change the breakers
  too, because other requests run meanwhile. Metrics and logging are not modelled.
\<close>

section \<open>Retry policy\<close>

record retry_policy =
  rp_max_attempts :: int
  rp_base_delay_seconds :: rat
  rp_max_delay_seconds :: rat

text \<open>\<open>attempt\<close> is 1-based; the argument \<open>r\<close> is the value of \<^verbatim>\<open>rand()\<close>.\<close>

definition retry_backoff :: "retry_policy \<Rightarrow> int \<Rightarrow> rat \<Rightarrow> rat" where
  "retry_backoff p attempt r =
     (let ceiling = min (rp_max_delay_seconds p) (rp_base_delay_seconds p * 2 ^ nat (attempt - 1))
      in r * ceiling)"

section \<open>Circuit breaker\<close>

datatype breaker_state = CLOSED | OPEN | HALF_OPEN

record circuit_breaker =
  cb_name :: string
  cb_failure_threshold :: int
  cb_cooldown_seconds :: rat
  cb_state :: breaker_state
  cb_consecutive_failures :: int
  cb_opened_at :: rat
  cb_trial_in_flight :: bool

definition new_breaker :: "string \<Rightarrow> int \<Rightarrow> rat \<Rightarrow> circuit_breaker" where
  "new_breaker name failure_threshold cooldown_seconds =
     \<lparr>cb_name = name, cb_failure_threshold = failure_threshold, cb_cooldown_seconds = cooldown_seconds,
      cb_state = CLOSED, cb_consecutive_failures = 0, cb_opened_at = 0, cb_trial_in_flight = False\<rparr>"

text \<open>The operations take the reading of the clock; the code reads it only where the value is used.\<close>

definition breaker_transition :: "breaker_state \<Rightarrow> circuit_breaker \<Rightarrow> circuit_breaker" where
  "breaker_transition new_state b = (if new_state \<noteq> cb_state b then b\<lparr>cb_state := new_state\<rparr> else b)"

definition breaker_open :: "rat \<Rightarrow> circuit_breaker \<Rightarrow> circuit_breaker" where
  "breaker_open now b = breaker_transition OPEN (b\<lparr>cb_opened_at := now\<rparr>)"

text \<open>The property \<^verbatim>\<open>state\<close>: reading it may move an open breaker to half-open.\<close>

definition breaker_poll :: "rat \<Rightarrow> circuit_breaker \<Rightarrow> circuit_breaker" where
  "breaker_poll now b =
     (if cb_state b = OPEN \<and> now - cb_opened_at b \<ge> cb_cooldown_seconds b
      then breaker_transition HALF_OPEN b else b)"

definition allow_request :: "rat \<Rightarrow> circuit_breaker \<Rightarrow> bool \<times> circuit_breaker" where
  "allow_request now b0 =
     (let b = breaker_poll now b0; state = cb_state b in
      if state = CLOSED then (True, b)
      else if state = HALF_OPEN \<and> \<not> cb_trial_in_flight b then (True, b\<lparr>cb_trial_in_flight := True\<rparr>)
      else (False, b))"

definition record_success :: "circuit_breaker \<Rightarrow> circuit_breaker" where
  "record_success b0 =
     (let b = b0\<lparr>cb_consecutive_failures := 0, cb_trial_in_flight := False\<rparr> in
      if cb_state b \<noteq> CLOSED then breaker_transition CLOSED b else b)"

definition record_failure :: "rat \<Rightarrow> circuit_breaker \<Rightarrow> circuit_breaker" where
  "record_failure now b0 =
     (let b = b0\<lparr>cb_trial_in_flight := False\<rparr> in
      if cb_state b = HALF_OPEN then breaker_open now b
      else let b1 = b\<lparr>cb_consecutive_failures := cb_consecutive_failures b + 1\<rparr> in
        if cb_consecutive_failures b1 \<ge> cb_failure_threshold b1 then breaker_open now b1 else b1)"

section \<open>The registry of breakers\<close>

record breaker_registry =
  bg_failure_threshold :: int
  bg_cooldown_seconds :: rat
  bg_breakers :: "(string \<times> circuit_breaker) list"

text \<open>\<open>breakers_get\<close> returns the breaker of a partner, creating it on first use.\<close>

definition breakers_get :: "string \<Rightarrow> breaker_registry \<Rightarrow> circuit_breaker \<times> breaker_registry" where
  "breakers_get partner_code g =
     (case map_of (bg_breakers g) partner_code of
        Some b \<Rightarrow> (b, g)
      | None \<Rightarrow> let b = new_breaker partner_code (bg_failure_threshold g) (bg_cooldown_seconds g)
                in (b, g\<lparr>bg_breakers := dict_set partner_code b (bg_breakers g)\<rparr>))"

text \<open>\<open>clock code\<close> is the reading made when the breaker of \<open>code\<close> is asked for its state.\<close>

definition breakers_states :: "(string \<Rightarrow> rat) \<Rightarrow> breaker_registry \<Rightarrow> (string \<times> breaker_state) list \<times> breaker_registry" where
  "breakers_states clock g =
     (let polled = map (\<lambda>(code, b). (code, breaker_poll (clock code) b)) (bg_breakers g)
      in (map (\<lambda>(code, b). (code, cb_state b)) polled, g\<lparr>bg_breakers := polled\<rparr>))"

section \<open>The process\<close>

record 'e process =
  pw_breakers :: breaker_registry
  pw_env :: 'e

datatype 'a call = Returned 'a | TimedOut | Raised exc

text \<open>
  \<open>rt_limit_credit budget f\<close> is \<^verbatim>\<open>async with asyncio.timeout(budget)\<close> around \<open>f\<close>: it ends as \<open>f\<close> does,
  or is cancelled at some await point of \<open>f\<close> and raises \<^verbatim>\<open>TimeoutError\<close>.
\<close>

record 'e runtime =
  rt_clock :: "'e \<Rightarrow> rat \<times> 'e"
  rt_rand :: "'e \<Rightarrow> rat \<times> 'e"
  rt_sleep :: "rat \<Rightarrow> 'e process \<Rightarrow> 'e process"
  rt_limit_credit :: "rat \<Rightarrow> ('e process \<Rightarrow> credit_result result \<times> 'e process)
     \<Rightarrow> 'e process \<Rightarrow> credit_result call \<times> 'e process"
  rt_limit_status :: "rat \<Rightarrow> ('e process \<Rightarrow> status_result result \<times> 'e process)
     \<Rightarrow> 'e process \<Rightarrow> status_result call \<times> 'e process"

definition read_clock :: "'e runtime \<Rightarrow> 'e process \<Rightarrow> rat \<times> 'e process" where
  "read_clock rt w = (let (t, e) = rt_clock rt (pw_env w) in (t, w\<lparr>pw_env := e\<rparr>))"

definition read_rand :: "'e runtime \<Rightarrow> 'e process \<Rightarrow> rat \<times> 'e process" where
  "read_rand rt w = (let (r, e) = rt_rand rt (pw_env w) in (r, w\<lparr>pw_env := e\<rparr>))"

text \<open>
  The breaker object of a partner within the process; \<open>get\<close> has created it before the loop starts and
  the registry never drops one.
\<close>

definition put_breaker :: "string \<Rightarrow> circuit_breaker \<Rightarrow> 'e process \<Rightarrow> 'e process" where
  "put_breaker partner_code b w =
     w\<lparr>pw_breakers := (pw_breakers w)\<lparr>bg_breakers := dict_set partner_code b (bg_breakers (pw_breakers w))\<rparr>\<rparr>"

definition the_breaker :: "string \<Rightarrow> 'e process \<Rightarrow> circuit_breaker" where
  "the_breaker partner_code w = fst (breakers_get partner_code (pw_breakers w))"

definition process_allow :: "'e runtime \<Rightarrow> string \<Rightarrow> 'e process \<Rightarrow> bool \<times> 'e process" where
  "process_allow rt partner_code w =
     (let b = the_breaker partner_code w in
      if cb_state b = OPEN then
        let (now, w1) = read_clock rt w; (ok, b') = allow_request now b in (ok, put_breaker partner_code b' w1)
      else let (ok, b') = allow_request 0 b in (ok, put_breaker partner_code b' w))"

definition process_success :: "string \<Rightarrow> 'e process \<Rightarrow> 'e process" where
  "process_success partner_code w = put_breaker partner_code (record_success (the_breaker partner_code w)) w"

definition process_failure :: "'e runtime \<Rightarrow> string \<Rightarrow> 'e process \<Rightarrow> 'e process" where
  "process_failure rt partner_code w =
     (let b = the_breaker partner_code w in
      if cb_state b = HALF_OPEN \<or> cb_consecutive_failures b + 1 \<ge> cb_failure_threshold b then
        let (now, w1) = read_clock rt w in put_breaker partner_code (record_failure now b) w1
      else put_breaker partner_code (record_failure 0 b) w)"

section \<open>The resilient adapter\<close>

record resilient_config =
  rz_retry :: retry_policy
  rz_deadline_seconds :: rat

text \<open>
  The \<^verbatim>\<open>while True\<close> loop of \<^verbatim>\<open>credit_points\<close>. It ends with the last result, whether an attempt may have
  been applied, and the number of attempts; or with the exception of an attempt, which nothing catches.
\<close>

function credit_loop ::
  "'e runtime \<Rightarrow> resilient_config \<Rightarrow> 'e process adapter \<Rightarrow> string \<Rightarrow> string \<Rightarrow> string \<Rightarrow> int \<Rightarrow> rat
    \<Rightarrow> bool \<Rightarrow> int \<Rightarrow> credit_result option \<Rightarrow> 'e process
    \<Rightarrow> (credit_result \<times> bool \<times> int) result \<times> 'e process" where
  "credit_loop rt cfg inner p r m n deadline possibly_applied attempts result w =
     (let (allowed, w1) = process_allow rt p w in
      if \<not> allowed then
        (Inr (mk_credit CREDIT_NOT_SENT ''circuit_open'' False None None, possibly_applied, attempts), w1)
      else
      let (now, w2) = read_clock rt w1; remaining = deadline - now in
      if remaining \<le> 0 then
        (Inr (case result of Some x \<Rightarrow> x
              | None \<Rightarrow> mk_credit CREDIT_NOT_SENT ''deadline_exceeded'' False None None,
              possibly_applied, attempts), w2)
      else
      let (called, w3) = rt_limit_credit rt remaining (ad_credit_points inner p r m n) w2 in
      case called of
        Raised e \<Rightarrow> (Inl e, w3)
      | _ \<Rightarrow>
        let res = (case called of Returned x \<Rightarrow> x
              | _ \<Rightarrow> mk_credit CREDIT_UNKNOWN ''deadline_exceeded'' False None None);
            w4 = (if cd_outcome res \<in> {CREDIT_SUCCESS, CREDIT_REJECTED}
                  then process_success p w3 else process_failure rt p w3);
            possibly = (possibly_applied \<or> cd_outcome res = CREDIT_UNKNOWN)
        in if \<not> cd_retryable res \<or> attempts + 1 \<ge> rp_max_attempts (rz_retry cfg)
           then (Inr (res, possibly, attempts + 1), w4)
           else
             let (rnd, w5) = read_rand rt w4;
                 delay = retry_backoff (rz_retry cfg) (attempts + 1) rnd;
                 (now2, w6) = read_clock rt w5
             in if now2 + delay \<ge> deadline then (Inr (res, possibly, attempts + 1), w6)
                else credit_loop rt cfg inner p r m n deadline possibly (attempts + 1) (Some res)
                  (rt_sleep rt delay w6))"
  by pat_completeness auto

termination
  by (relation "measure (\<lambda>(rt, cfg, inner, p, r, m, n, d, pa, attempts, res, w).
       nat (rp_max_attempts (rz_retry cfg) - attempts))") auto

declare credit_loop.simps [simp del]

text \<open>The end of \<^verbatim>\<open>credit_points\<close>: an unknown attempt is never downgraded to not sent.\<close>

definition final_credit :: "credit_result \<Rightarrow> bool \<Rightarrow> int \<Rightarrow> credit_result" where
  "final_credit res possibly_applied attempts =
     (if possibly_applied \<and> cd_outcome res = CREDIT_NOT_SENT
      then mk_credit CREDIT_UNKNOWN (''earlier_attempt_unknown_then_'' @ cd_reason res) False None None
      else res)\<lparr>cd_attempts := attempts\<rparr>"

definition ensure_breaker :: "string \<Rightarrow> 'e process \<Rightarrow> 'e process" where
  "ensure_breaker p w = w\<lparr>pw_breakers := snd (breakers_get p (pw_breakers w))\<rparr>"

definition resilient_credit_points ::
  "'e runtime \<Rightarrow> resilient_config \<Rightarrow> 'e process adapter \<Rightarrow> string \<Rightarrow> string \<Rightarrow> string \<Rightarrow> int
    \<Rightarrow> 'e process \<Rightarrow> credit_result result \<times> 'e process" where
  "resilient_credit_points rt cfg inner p r m n w =
     (let w0 = ensure_breaker p w;
          (now, w1) = read_clock rt w0;
          (out, w2) = credit_loop rt cfg inner p r m n (now + rz_deadline_seconds cfg) False 0 None w1
      in (map_sum id (\<lambda>(res, possibly, attempts). final_credit res possibly attempts) out, w2))"

function status_loop ::
  "'e runtime \<Rightarrow> resilient_config \<Rightarrow> 'e process adapter \<Rightarrow> string \<Rightarrow> string \<Rightarrow> rat \<Rightarrow> int \<Rightarrow> status_result
    \<Rightarrow> 'e process \<Rightarrow> (status_result \<times> int) result \<times> 'e process" where
  "status_loop rt cfg inner p r deadline attempts result w =
     (let (allowed, w1) = process_allow rt p w in
      if \<not> allowed then
        (Inr (mk_status STATUS_UNKNOWN ''circuit_open'' False None None, attempts), w1)
      else
      let (now, w2) = read_clock rt w1; remaining = deadline - now in
      if remaining \<le> 0 then (Inr (result, attempts), w2)
      else
      let (called, w3) = rt_limit_status rt remaining (ad_get_credit_status inner p r) w2 in
      case called of
        Raised e \<Rightarrow> (Inl e, w3)
      | _ \<Rightarrow>
        let res = (case called of Returned x \<Rightarrow> x
              | _ \<Rightarrow> mk_status STATUS_UNKNOWN ''deadline_exceeded'' False None None);
            w4 = (if st_status res = STATUS_UNKNOWN then process_failure rt p w3 else process_success p w3)
        in if \<not> st_retryable res \<or> attempts + 1 \<ge> rp_max_attempts (rz_retry cfg)
           then (Inr (res, attempts + 1), w4)
           else
             let (rnd, w5) = read_rand rt w4;
                 delay = retry_backoff (rz_retry cfg) (attempts + 1) rnd;
                 (now2, w6) = read_clock rt w5
             in if now2 + delay \<ge> deadline then (Inr (res, attempts + 1), w6)
                else status_loop rt cfg inner p r deadline (attempts + 1) res (rt_sleep rt delay w6))"
  by pat_completeness auto

termination
  by (relation "measure (\<lambda>(rt, cfg, inner, p, r, d, attempts, res, w).
       nat (rp_max_attempts (rz_retry cfg) - attempts))") auto

declare status_loop.simps [simp del]

definition resilient_get_credit_status ::
  "'e runtime \<Rightarrow> resilient_config \<Rightarrow> 'e process adapter \<Rightarrow> string \<Rightarrow> string
    \<Rightarrow> 'e process \<Rightarrow> status_result result \<times> 'e process" where
  "resilient_get_credit_status rt cfg inner p r w =
     (let w0 = ensure_breaker p w;
          (now, w1) = read_clock rt w0;
          (out, w2) = status_loop rt cfg inner p r (now + rz_deadline_seconds cfg) 0
            (mk_status STATUS_UNKNOWN ''circuit_open'' False None None) w1
      in (map_sum id (\<lambda>(res, attempts). res\<lparr>st_attempts := attempts\<rparr>) out, w2))"

definition ResilientPartnerAdapter ::
  "'e runtime \<Rightarrow> resilient_config \<Rightarrow> 'e process adapter \<Rightarrow> 'e process adapter" where
  "ResilientPartnerAdapter rt cfg inner =
     \<lparr>ad_credit_points = resilient_credit_points rt cfg inner,
      ad_get_credit_status = resilient_get_credit_status rt cfg inner\<rparr>"

text \<open>\<^verbatim>\<open>build_partner_registry\<close>: the resilient HTTP adapter serves every partner.\<close>

definition build_partner_registry ::
  "'e runtime \<Rightarrow> resilient_config \<Rightarrow> 'e process http_client \<Rightarrow> 'e process partner_registry" where
  "build_partner_registry rt cfg client =
     \<lparr>rg_default = Some (ResilientPartnerAdapter rt cfg (HttpPartnerAdapter client)), rg_adapters = []\<rparr>"

lemma final_credit_sel:
  "cd_outcome (final_credit res possibly k) =
     (if possibly \<and> cd_outcome res = CREDIT_NOT_SENT then CREDIT_UNKNOWN else cd_outcome res)"
  "cd_retryable (final_credit res possibly k) =
     (if possibly \<and> cd_outcome res = CREDIT_NOT_SENT then False else cd_retryable res)"
  "cd_confirmation_id (final_credit res possibly k) =
     (if possibly \<and> cd_outcome res = CREDIT_NOT_SENT then None else cd_confirmation_id res)"
  "cd_attempts (final_credit res possibly k) = k"
  by (simp_all add: final_credit_def)

section \<open>The contract survives retries\<close>

text \<open>
  What the runtime and the network below it must not do: breakers, clock and random numbers say nothing
  about the partner; while the process sleeps a credit may land only if it was already possible; a call
  that returns within its budget is the call itself. A call that is cut off may have been applied, may
  still be applied, or may never have been sent. Time may pass in every operation.
\<close>

locale partner_runtime =
  fixes inner :: "'e process adapter"
    and known :: "string \<Rightarrow> bool"
    and inv :: "'e process \<Rightarrow> bool"
    and fits_request :: "string \<Rightarrow> string \<Rightarrow> string \<Rightarrow> int \<Rightarrow> 'e process \<Rightarrow> bool"
    and credited :: "'e process \<Rightarrow> string \<Rightarrow> string \<Rightarrow> bool"
    and may_credit :: "'e process \<Rightarrow> string \<Rightarrow> string \<Rightarrow> bool"
    and rt :: "'e runtime"
  assumes breakers_irrelevant: "inv (w\<lparr>pw_breakers := g\<rparr>) = inv w"
      "fits_request p r m n (w\<lparr>pw_breakers := g\<rparr>) = fits_request p r m n w"
      "credited (w\<lparr>pw_breakers := g\<rparr>) p r = credited w p r"
      "may_credit (w\<lparr>pw_breakers := g\<rparr>) p r = may_credit w p r"
    and reading_irrelevant:
      "e = snd (rt_clock rt (pw_env w)) \<or> e = snd (rt_rand rt (pw_env w)) \<Longrightarrow>
       inv (w\<lparr>pw_env := e\<rparr>) = inv w
       \<and> fits_request p r m n (w\<lparr>pw_env := e\<rparr>) = fits_request p r m n w
       \<and> credited (w\<lparr>pw_env := e\<rparr>) p r = credited w p r
       \<and> may_credit (w\<lparr>pw_env := e\<rparr>) p r = may_credit w p r"
    and sleep_keeps: "inv w \<Longrightarrow> inv (rt_sleep rt d w)
       \<and> (fits_request p r m n w \<longrightarrow> fits_request p r m n (rt_sleep rt d w))
       \<and> (may_credit (rt_sleep rt d w) p r \<longrightarrow> may_credit w p r)"
    and limit_credit: "rt_limit_credit rt d f w = (Returned x, w') \<Longrightarrow> f w = (Inr x, w')"
      "rt_limit_credit rt d f w = (Raised ex, w') \<Longrightarrow> f w = (Inl ex, w')"
    and limit_credit_timeout: "inv w \<Longrightarrow> fits_request p r m n w
       \<Longrightarrow> rt_limit_credit rt d (ad_credit_points inner p r m n) w = (TimedOut, w')
       \<Longrightarrow> inv w' \<and> fits_request p r m n w'"
    and limit_status: "rt_limit_status rt d h w = (Returned y, w') \<Longrightarrow> h w = (Inr y, w')"
      "rt_limit_status rt d h w = (Raised ex, w') \<Longrightarrow> h w = (Inl ex, w')"
    and limit_status_timeout: "known p \<Longrightarrow> inv w
       \<Longrightarrow> rt_limit_status rt d (ad_get_credit_status inner p r) w = (TimedOut, w')
       \<Longrightarrow> inv w' \<and> (fits_request p r m n w \<longrightarrow> fits_request p r m n w')
         \<and> (may_credit w' p r \<longrightarrow> may_credit w p r)"

text \<open>The adapter below the retries makes one attempt per call.\<close>

locale resilient_contract =
  partner_contract "ad_credit_points inner" "ad_get_credit_status inner" known inv fits_request credited may_credit
  + partner_runtime inner known inv fits_request credited may_credit rt
  for inner :: "'e process adapter" and known inv fits_request credited may_credit and rt :: "'e runtime" +
  fixes cfg :: resilient_config
  assumes one_attempt: "ad_credit_points inner p r m n w = (Inr res, w') \<Longrightarrow> cd_attempts res = 1"
begin

definition same :: "'e process \<Rightarrow> 'e process \<Rightarrow> bool" where
  "same w w' \<longleftrightarrow> inv w' = inv w \<and> (\<forall>p r m n. fits_request p r m n w' = fits_request p r m n w)
     \<and> (\<forall>p r. credited w' p r = credited w p r \<and> may_credit w' p r = may_credit w p r)"

lemma same_refl: "same w w"
  by (simp add: same_def)

lemma same_trans: "same w w' \<Longrightarrow> same w' w'' \<Longrightarrow> same w w''"
  by (simp add: same_def)

lemma same_put_breaker: "same w (put_breaker p b w)"
  by (simp add: same_def put_breaker_def breakers_irrelevant)

lemma same_ensure_breaker: "same w (ensure_breaker p w)"
  by (simp add: same_def ensure_breaker_def breakers_irrelevant)

lemma same_read_clock: "read_clock rt w = (t, w') \<Longrightarrow> same w w'"
  using reading_irrelevant [of "snd (rt_clock rt (pw_env w))" w]
  by (auto simp: same_def read_clock_def split: prod.splits)

lemma same_read_rand: "read_rand rt w = (t, w') \<Longrightarrow> same w w'"
  using reading_irrelevant [of "snd (rt_rand rt (pw_env w))" w]
  by (auto simp: same_def read_rand_def split: prod.splits)

lemma same_allow: "process_allow rt p w = (ok, w') \<Longrightarrow> same w w'"
  by (auto simp: process_allow_def Let_def split: prod.splits if_splits
      intro: same_put_breaker same_trans [OF same_read_clock same_put_breaker])

lemma same_success: "same w (process_success p w)"
  by (simp add: process_success_def same_put_breaker)

lemma same_failure: "same w (process_failure rt p w)"
  by (auto simp: process_failure_def Let_def split: prod.splits
      intro: same_put_breaker same_trans [OF same_read_clock same_put_breaker])

lemma same_inv: "same w w' \<Longrightarrow> inv w \<Longrightarrow> inv w'"
  by (simp add: same_def)

definition good_credit :: "string \<Rightarrow> string \<Rightarrow> credit_result \<Rightarrow> 'e process \<Rightarrow> bool" where
  "good_credit p r res w \<longleftrightarrow>
     (cd_outcome res = CREDIT_SUCCESS \<longrightarrow> credited w p r \<and> cd_confirmation_id res \<noteq> None \<and> \<not> cd_retryable res)"

lemma good_credit_same: "same w w' \<Longrightarrow> good_credit p r res w' = good_credit p r res w"
  by (simp add: good_credit_def same_def)

text \<open>One attempt: the result is good, and without an unknown or successful outcome nothing became possible.\<close>

lemma attempt_good:
  assumes "inv w" "fits_request p r m n w"
    and "rt_limit_credit rt d (ad_credit_points inner p r m n) w = (called, w')" "\<forall>e. called \<noteq> Raised e"
    and "res = (case called of Returned x \<Rightarrow> x | _ \<Rightarrow> mk_credit CREDIT_UNKNOWN ''deadline_exceeded'' False None None)"
  shows "inv w' \<and> fits_request p r m n w' \<and> good_credit p r res w' \<and>
    (cd_outcome res \<notin> {CREDIT_UNKNOWN, CREDIT_SUCCESS} \<longrightarrow> may_credit w' p r \<longrightarrow> may_credit w p r)"
proof (cases called)
  case (Returned x)
  with assms have call: "ad_credit_points inner p r m n w = (Inr x, w')" and res: "res = x"
    using limit_credit(1) by auto
  show ?thesis
    using credit_inv [OF assms(1,2) call] credit_success [OF assms(1,2) call]
      credit_rejected [OF assms(1,2) call] credit_not_sent [OF assms(1,2) call] one_attempt [OF call] res
    by (cases "cd_outcome res") (auto simp: good_credit_def)
next
  case TimedOut
  with assms show ?thesis
    using limit_credit_timeout [of w p r m n d w'] by (auto simp: good_credit_def)
qed (use assms(4) in auto)

text \<open>
  The loop. Its precondition relates the current world to the one the call started in: a pending result
  is good, if no attempt was unknown then nothing became possible since the start, and before the first
  attempt none was unknown.
\<close>

definition loop_pre :: "string \<Rightarrow> string \<Rightarrow> string \<Rightarrow> int \<Rightarrow> 'e process \<Rightarrow> bool \<Rightarrow> int \<Rightarrow> credit_result option
    \<Rightarrow> 'e process \<Rightarrow> bool" where
  "loop_pre p r m n w0 possibly attempts result w \<longleftrightarrow> inv w \<and> fits_request p r m n w
     \<and> 0 \<le> attempts \<and> (attempts = 0 \<longrightarrow> \<not> possibly)
     \<and> (\<forall>x. result = Some x \<longrightarrow> cd_outcome x \<noteq> CREDIT_SUCCESS
          \<and> (attempts = 1 \<longrightarrow> cd_outcome x = CREDIT_REJECTED \<longrightarrow> \<not> possibly))
     \<and> (\<not> possibly \<longrightarrow> may_credit w p r \<longrightarrow> may_credit w0 p r)"

definition loop_post :: "string \<Rightarrow> string \<Rightarrow> string \<Rightarrow> int \<Rightarrow> 'e process
    \<Rightarrow> (credit_result \<times> bool \<times> int) result \<times> 'e process \<Rightarrow> bool" where
  "loop_post p r m n w0 out \<longleftrightarrow> inv (snd out) \<and> fits_request p r m n (snd out)
     \<and> (\<forall>res possibly attempts. fst out = Inr (res, possibly, attempts) \<longrightarrow>
          good_credit p r res (snd out)
          \<and> (attempts = 1 \<longrightarrow> cd_outcome res = CREDIT_REJECTED \<longrightarrow> \<not> possibly)
          \<and> (\<not> possibly \<longrightarrow> cd_outcome res \<noteq> CREDIT_SUCCESS \<longrightarrow> may_credit (snd out) p r \<longrightarrow> may_credit w0 p r))"

lemma loop_pre_same: "same w w' \<Longrightarrow> loop_pre p r m n w0 possibly k result w
    \<Longrightarrow> loop_pre p r m n w0 possibly k result w'"
  by (auto simp: loop_pre_def same_def)

lemma loop_pre_sleep:
  assumes "inv w" "fits_request p r m n w" "cd_outcome res \<noteq> CREDIT_SUCCESS" "0 < k"
    and "k = 1 \<longrightarrow> cd_outcome res = CREDIT_REJECTED \<longrightarrow> \<not> possibly"
    and "\<not> possibly \<longrightarrow> may_credit w p r \<longrightarrow> may_credit w0 p r"
  shows "loop_pre p r m n w0 possibly k (Some res) (rt_sleep rt d w)"
  using assms sleep_keeps [of w d p r m n] by (auto simp: loop_pre_def)

lemma loop_post_attempt:
  assumes "inv w2" "fits_request p r m n w2" "loop_pre p r m n w0 possibly k result w2"
    and "rt_limit_credit rt d (ad_credit_points inner p r m n) w2 = (called, w3)" "\<forall>e. called \<noteq> Raised e"
    and "res = (case called of Returned x \<Rightarrow> x | _ \<Rightarrow> mk_credit CREDIT_UNKNOWN ''deadline_exceeded'' False None None)"
    and "same w3 w'"
  shows "loop_post p r m n w0 (Inr (res, possibly \<or> cd_outcome res = CREDIT_UNKNOWN, k + 1), w')"
    and "cd_retryable res \<Longrightarrow>
      loop_pre p r m n w0 (possibly \<or> cd_outcome res = CREDIT_UNKNOWN) (k + 1) (Some res) (rt_sleep rt delay w')"
proof -
  note a3 = attempt_good [OF assms(1,2,4,5,6)]
  have may: "\<not> (possibly \<or> cd_outcome res = CREDIT_UNKNOWN) \<longrightarrow> cd_outcome res \<noteq> CREDIT_SUCCESS
      \<longrightarrow> may_credit w3 p r \<longrightarrow> may_credit w0 p r"
    using a3 assms(3) by (auto simp: loop_pre_def)
  have first: "k + 1 = 1 \<longrightarrow> cd_outcome res = CREDIT_REJECTED \<longrightarrow> \<not> (possibly \<or> cd_outcome res = CREDIT_UNKNOWN)"
    using assms(3) by (auto simp: loop_pre_def)
  show "loop_post p r m n w0 (Inr (res, possibly \<or> cd_outcome res = CREDIT_UNKNOWN, k + 1), w')"
    using assms(7) a3 may first good_credit_same [OF assms(7)] by (auto simp: loop_post_def same_def)
  assume "cd_retryable res"
  then have "cd_outcome res \<noteq> CREDIT_SUCCESS"
    using a3 by (auto simp: good_credit_def)
  then show "loop_pre p r m n w0 (possibly \<or> cd_outcome res = CREDIT_UNKNOWN) (k + 1) (Some res) (rt_sleep rt delay w')"
    using a3 may first assms(3,7) by (intro loop_pre_sleep) (auto simp: same_def loop_pre_def)
qed

lemma credit_loop_post:
  "loop_pre p r m n w0 possibly attempts result w \<Longrightarrow>
   loop_post p r m n w0 (credit_loop rt cfg inner p r m n deadline possibly attempts result w)"
proof (induction "nat (rp_max_attempts (rz_retry cfg) - attempts)" arbitrary: possibly attempts result w
    rule: less_induct)
  case less
  obtain allowed w1 where w1: "process_allow rt p w = (allowed, w1)" by force
  obtain now w2 where w2: "read_clock rt w1 = (now, w2)" by force
  obtain called w3 where w3: "rt_limit_credit rt (deadline - now) (ad_credit_points inner p r m n) w2 = (called, w3)"
    by force
  note step = credit_loop.simps [of rt cfg inner p r m n deadline possibly attempts result w]
  have pre1: "loop_pre p r m n w0 possibly attempts result w1"
    using same_allow [OF w1] less.prems by (rule loop_pre_same)
  then have pre2: "loop_pre p r m n w0 possibly attempts result w2"
    by (rule loop_pre_same [OF same_read_clock [OF w2]])
  then have inv2: "inv w2" "fits_request p r m n w2"
    by (simp_all add: loop_pre_def)
  consider (refused) "\<not> allowed" | (late) "allowed" "deadline - now \<le> 0"
    | (raised) e where "allowed" "0 < deadline - now" "called = Raised e"
    | (attempt) "allowed" "0 < deadline - now" "\<forall>e. called \<noteq> Raised e"
    by fastforce
  then show ?case
  proof cases
    case refused
    with pre1 w1 step show ?thesis
      by (auto simp: loop_post_def loop_pre_def good_credit_def)
  next
    case late
    with pre2 w1 w2 step show ?thesis
      by (auto simp: loop_post_def loop_pre_def good_credit_def split: option.splits)
  next
    case raised
    then have "ad_credit_points inner p r m n w2 = (Inl e, w3)"
      using w3 limit_credit(2) by auto
    from credit_inv [OF inv2 this] raised w1 w2 w3 step show ?thesis
      by (simp add: loop_post_def)
  next
    case attempt
    define res where "res = (case called of Returned x \<Rightarrow> x
      | _ \<Rightarrow> mk_credit CREDIT_UNKNOWN ''deadline_exceeded'' False None None)"
    define w4 where "w4 = (if cd_outcome res \<in> {CREDIT_SUCCESS, CREDIT_REJECTED}
      then process_success p w3 else process_failure rt p w3)"
    obtain rnd w5 where w5: "read_rand rt w4 = (rnd, w5)" by force
    obtain now2 w6 where w6: "read_clock rt w5 = (now2, w6)" by force
    have same4: "same w3 w4"
      by (simp add: w4_def same_success same_failure)
    note same6 = same_trans [OF same_trans [OF same4 same_read_rand [OF w5]] same_read_clock [OF w6]]
    note post = loop_post_attempt [OF inv2 pre2 w3 attempt(3) res_def]
    show ?thesis
      using attempt(1,2) w1 w2 w3 w5 w6 post(1) [OF same4] post(1) [OF same6] post(2) [OF same6]
      by (subst step, cases called)
        (auto simp: Let_def res_def w4_def attempt(3) intro!: less.hyps)
  qed
qed

text \<open>The status loop: an earlier result is carried to a later attempt only if it was unknown.\<close>

definition good_status :: "string \<Rightarrow> string \<Rightarrow> status_result \<Rightarrow> 'e process \<Rightarrow> bool" where
  "good_status p r st w \<longleftrightarrow>
     (st_status st = STATUS_COMPLETED \<longrightarrow> credited w p r \<and> st_confirmation_id st \<noteq> None \<and> \<not> st_retryable st)
     \<and> (st_status st = STATUS_NOT_FOUND \<longrightarrow> \<not> credited w p r \<and> \<not> st_retryable st)"

definition status_rel :: "string \<Rightarrow> string \<Rightarrow> 'e process \<Rightarrow> 'e process \<Rightarrow> bool" where
  "status_rel p r w0 w \<longleftrightarrow> inv w \<and> (\<forall>m n. fits_request p r m n w0 \<longrightarrow> fits_request p r m n w)
     \<and> (may_credit w p r \<longrightarrow> may_credit w0 p r)"

lemma status_rel_same: "same w w' \<Longrightarrow> status_rel p r w0 w \<Longrightarrow> status_rel p r w0 w'"
  by (auto simp: status_rel_def same_def)

lemma good_status_same: "same w w' \<Longrightarrow> good_status p r st w' = good_status p r st w"
  by (simp add: good_status_def same_def)

lemma status_attempt:
  assumes "known p" "status_rel p r w0 w" "rt_limit_status rt d (ad_get_credit_status inner p r) w = (called, w')"
  shows "status_rel p r w0 w'"
    and "\<forall>e. called \<noteq> Raised e \<Longrightarrow> st = (case called of Returned x \<Rightarrow> x
      | _ \<Rightarrow> mk_status STATUS_UNKNOWN ''deadline_exceeded'' False None None) \<Longrightarrow> good_status p r st w'"
proof -
  have inv: "inv w" using assms(2) by (simp add: status_rel_def)
  show "status_rel p r w0 w'"
  proof (cases called)
    case (Returned x)
    then show ?thesis
      using status_inv [OF assms(1) inv limit_status(1) [OF assms(3) [unfolded Returned]]] assms(2)
      by (auto simp: status_rel_def)
  next
    case TimedOut
    then show ?thesis
      using limit_status_timeout [OF assms(1) inv assms(3) [unfolded TimedOut]] assms(2) by (auto simp: status_rel_def)
  next
    case (Raised e)
    then show ?thesis
      using status_inv [OF assms(1) inv limit_status(2) [OF assms(3) [unfolded Raised]]] assms(2)
      by (auto simp: status_rel_def)
  qed
  assume st: "st = (case called of Returned x \<Rightarrow> x
      | _ \<Rightarrow> mk_status STATUS_UNKNOWN ''deadline_exceeded'' False None None)"
  show "good_status p r st w'"
  proof (cases called)
    case (Returned x)
    then have call: "ad_get_credit_status inner p r w = (Inr x, w')"
      using assms(3) limit_status(1) by simp
    show ?thesis
      using status_completed [OF assms(1) inv call] status_not_found [OF assms(1) inv call] st Returned
      by (auto simp: good_status_def)
  qed (use st in \<open>auto simp: good_status_def\<close>)
qed

lemma status_rel_sleep: "status_rel p r w0 w \<Longrightarrow> status_rel p r w0 (rt_sleep rt d w)"
  using sleep_keeps [of w d p r] by (auto simp: status_rel_def)

lemma status_loop_post:
  assumes known: "known p"
    and "status_rel p r w0 w" "st_status result = STATUS_UNKNOWN"
    and "status_loop rt cfg inner p r deadline attempts result w = (out, w')"
  shows "status_rel p r w0 w' \<and> (\<forall>st k. out = Inr (st, k) \<longrightarrow> good_status p r st w')"
  using assms(2-)
proof (induction "nat (rp_max_attempts (rz_retry cfg) - attempts)" arbitrary: attempts result w rule: less_induct)
  case less
  obtain allowed w1 where w1: "process_allow rt p w = (allowed, w1)" by force
  obtain now w2 where w2: "read_clock rt w1 = (now, w2)" by force
  obtain called w3 where w3: "rt_limit_status rt (deadline - now) (ad_get_credit_status inner p r) w2 = (called, w3)"
    by force
  note step = less.prems(3) [unfolded status_loop.simps [of rt cfg inner p r deadline attempts result w]]
  have rel1: "status_rel p r w0 w1"
    using same_allow [OF w1] less.prems(1) by (rule status_rel_same)
  then have rel2: "status_rel p r w0 w2"
    by (rule status_rel_same [OF same_read_clock [OF w2]])
  note rel3 = status_attempt [OF known rel2 w3]
  show ?case
  proof (cases "allowed \<and> 0 < deadline - now \<and> (\<forall>e. called \<noteq> Raised e)")
    case False
    with step w1 w2 w3 rel1 rel2 rel3(1) less.prems(2) show ?thesis
      by (auto simp: good_status_def split: if_splits)
  next
    case True
    define st where "st = (case called of Returned x \<Rightarrow> x
      | _ \<Rightarrow> mk_status STATUS_UNKNOWN ''deadline_exceeded'' False None None)"
    define w4 where "w4 = (if st_status st = STATUS_UNKNOWN then process_failure rt p w3 else process_success p w3)"
    obtain rnd w5 where w5: "read_rand rt w4 = (rnd, w5)" by force
    obtain now2 w6 where w6: "read_clock rt w5 = (now2, w6)" by force
    have same4: "same w3 w4"
      by (simp add: w4_def same_success same_failure)
    note same6 = same_trans [OF same_trans [OF same4 same_read_rand [OF w5]] same_read_clock [OF w6]]
    have good: "good_status p r st w3"
      using rel3(2) True st_def by blast
    then have unknown: "cd_retry \<Longrightarrow> st_status st = STATUS_UNKNOWN" if "cd_retry = st_retryable st" for cd_retry
      using that by (cases "st_status st") (auto simp: good_status_def)
    have body: "status_loop rt cfg inner p r deadline attempts result w = (if \<not> st_retryable st \<or> attempts + 1 \<ge> rp_max_attempts (rz_retry cfg) then (Inr (st, attempts + 1), w4)
       else if now2 + retry_backoff (rz_retry cfg) (attempts + 1) rnd \<ge> deadline then (Inr (st, attempts + 1), w6)
       else status_loop rt cfg inner p r deadline (attempts + 1) st
         (rt_sleep rt (retry_backoff (rz_retry cfg) (attempts + 1) rnd) w6))"
      using True w1 w2 w3 w5 w6
      by (subst status_loop.simps) (cases called; simp add: Let_def st_def w4_def)
    note rel4 = status_rel_same [OF same4 rel3(1)] and rel6 = status_rel_same [OF same6 rel3(1)]
    have again: "status_rel p r w0 w' \<and> (\<forall>st k. out = Inr (st, k) \<longrightarrow> good_status p r st w')"
      if "st_retryable st" "attempts + 1 < rp_max_attempts (rz_retry cfg)"
        "status_loop rt cfg inner p r deadline (attempts + 1) st
           (rt_sleep rt (retry_backoff (rz_retry cfg) (attempts + 1) rnd) w6) = (out, w')"
      using that(1,2) by (intro less.hyps [OF _ status_rel_sleep [OF rel6] unknown [OF refl] that(3)]) auto
    show ?thesis
      using less.prems(3) [unfolded body] rel4 rel6 good again
        good_status_same [OF same4, of p r st] good_status_same [OF same6, of p r st]
      by (auto split: if_splits)
  qed
qed

end

sublocale resilient_contract \<subseteq> resilient: partner_contract
  "resilient_credit_points rt cfg inner" "resilient_get_credit_status rt cfg inner"
  known inv fits_request credited may_credit
proof
  show "credited w p r \<Longrightarrow> may_credit w p r" if "inv w" for w p r
    using credited_may that .
  have credit: "inv w' \<and> fits_request p r m n w' \<and> (\<forall>res. out = Inr res \<longrightarrow> good_credit p r res w'
      \<and> (cd_outcome res = CREDIT_NOT_SENT \<or> cd_outcome res = CREDIT_REJECTED \<and> cd_attempts res = 1
           \<longrightarrow> may_credit w' p r \<longrightarrow> may_credit w p r))"
    if call: "resilient_credit_points rt cfg inner p r m n w = (out, w')" and "inv w" "fits_request p r m n w"
    for p r m n w out w'
  proof -
    obtain now w1 where w1: "read_clock rt (ensure_breaker p w) = (now, w1)" by force
    obtain lout w2 where w2: "credit_loop rt cfg inner p r m n (now + rz_deadline_seconds cfg) False 0 None w1 = (lout, w2)"
      by force
    have "same w w1"
      using same_trans [OF same_ensure_breaker same_read_clock [OF w1]] .
    then have "loop_pre p r m n w False 0 None w1"
      using that by (auto simp: loop_pre_def same_def)
    from credit_loop_post [OF this, of "now + rz_deadline_seconds cfg"] call w1 w2 show ?thesis
      by (cases lout) (auto simp: resilient_credit_points_def final_credit_sel loop_post_def good_credit_def split: if_splits)
  qed
  have status: "status_rel p r w w' \<and> (\<forall>st. out = Inr st \<longrightarrow> good_status p r st w')"
    if call: "resilient_get_credit_status rt cfg inner p r w = (out, w')" and "inv w" and known: "known p"
    for p r w out w'
  proof -
    obtain now w1 where w1: "read_clock rt (ensure_breaker p w) = (now, w1)" by force
    obtain lout w2 where w2: "status_loop rt cfg inner p r (now + rz_deadline_seconds cfg) 0
        (mk_status STATUS_UNKNOWN ''circuit_open'' False None None) w1 = (lout, w2)" by force
    have "same w w1"
      using same_trans [OF same_ensure_breaker same_read_clock [OF w1]] .
    then have "status_rel p r w w1"
      using that by (auto simp: status_rel_def same_def)
    from status_loop_post [OF known this _ w2] call w1 w2 show ?thesis
      by (cases lout) (auto simp: resilient_get_credit_status_def good_status_def)
  qed
  note credit_defs = good_credit_def and status_defs = good_status_def status_rel_def
  fix w w' p r m n res cres st sres
  assume inv: "inv w"
  show "fits_request p r m n w \<Longrightarrow> resilient_credit_points rt cfg inner p r m n w = (cres, w')
      \<Longrightarrow> inv w' \<and> fits_request p r m n w'"
    using credit inv by blast
  show "fits_request p r m n w \<Longrightarrow> resilient_credit_points rt cfg inner p r m n w = (Inr res, w')
      \<Longrightarrow> cd_outcome res = CREDIT_SUCCESS
      \<Longrightarrow> credited w' p r \<and> cd_confirmation_id res \<noteq> None \<and> \<not> cd_retryable res"
    using credit inv unfolding credit_defs by blast
  show "fits_request p r m n w \<Longrightarrow> resilient_credit_points rt cfg inner p r m n w = (Inr res, w')
      \<Longrightarrow> cd_outcome res = CREDIT_REJECTED \<Longrightarrow> cd_attempts res = 1 \<Longrightarrow> may_credit w' p r \<Longrightarrow> may_credit w p r"
    using credit inv by blast
  show "fits_request p r m n w \<Longrightarrow> resilient_credit_points rt cfg inner p r m n w = (Inr res, w')
      \<Longrightarrow> cd_outcome res = CREDIT_NOT_SENT \<Longrightarrow> may_credit w' p r \<Longrightarrow> may_credit w p r"
    using credit inv by blast
  show "known p \<Longrightarrow> resilient_get_credit_status rt cfg inner p r w = (sres, w')
      \<Longrightarrow> inv w' \<and> (fits_request p r m n w \<longrightarrow> fits_request p r m n w')
        \<and> (may_credit w' p r \<longrightarrow> may_credit w p r)"
    using status inv unfolding status_defs by blast
  show "known p \<Longrightarrow> resilient_get_credit_status rt cfg inner p r w = (Inr st, w') \<Longrightarrow> st_status st = STATUS_COMPLETED
      \<Longrightarrow> credited w' p r \<and> st_confirmation_id st \<noteq> None \<and> \<not> st_retryable st"
    using status inv unfolding status_defs by blast
  show "known p \<Longrightarrow> resilient_get_credit_status rt cfg inner p r w = (Inr st, w') \<Longrightarrow> st_status st = STATUS_NOT_FOUND
      \<Longrightarrow> \<not> credited w' p r \<and> \<not> st_retryable st"
    using status inv unfolding status_defs by blast
qed

section \<open>The whole partner stack\<close>

text \<open>
  The adapter of \<^verbatim>\<open>build_partner_registry\<close>: retries over HTTP. Only the laws of the client and of the
  runtime are assumed; the partner contract between the two layers is proved.
\<close>

locale partner_stack =
  http_partner client known inv fits_request credited may_credit
  + partner_runtime "HttpPartnerAdapter client" known inv fits_request credited may_credit rt
  for client :: "'e process http_client" and known inv fits_request credited may_credit and rt :: "'e runtime"

sublocale partner_stack \<subseteq> stack: resilient_contract
  "HttpPartnerAdapter client" known inv fits_request credited may_credit rt cfg for cfg
  by unfold_locales (simp add: HttpPartnerAdapter_def http_one_attempt)

context partner_stack
begin

lemmas credit_laws = stack.resilient.credit_success stack.resilient.credit_rejected stack.resilient.credit_not_sent
lemmas status_laws = stack.resilient.status_completed stack.resilient.status_not_found

end

text \<open>
  C6: outcome safety end to end, for every client and runtime that satisfy the laws above, with time
  passing, responses lost and cut off requests arriving late. When the resilient HTTP adapter returns,
  success means that the partner holds the credit; a reference that could not be credited before the
  call still cannot after \<open>NOT_SENT\<close>, nor after a rejection at the first attempt; a status answer
  \<open>COMPLETED\<close> or \<open>NOT_FOUND\<close> is true of the partner when it is given.
\<close>

theorem resilient_outcome_safe:
  assumes stack: "partner_stack client known well_formed fits_request credited may_credit rt"
    and w: "well_formed w" "fits_request p r m n w" "known p"
  shows "(resilient_credit_points rt cfg (HttpPartnerAdapter client) p r m n w = (Inr res, w') \<longrightarrow>
        (cd_outcome res = CREDIT_SUCCESS \<longrightarrow> credited w' p r \<and> cd_confirmation_id res \<noteq> None)
        \<and> (cd_outcome res = CREDIT_NOT_SENT \<longrightarrow> \<not> may_credit w p r \<longrightarrow> \<not> may_credit w' p r)
        \<and> (cd_outcome res = CREDIT_REJECTED \<longrightarrow> cd_attempts res = 1 \<longrightarrow> \<not> may_credit w p r \<longrightarrow> \<not> may_credit w' p r))
    \<and> (resilient_get_credit_status rt cfg (HttpPartnerAdapter client) p r w = (Inr st, w') \<longrightarrow>
        (st_status st = STATUS_COMPLETED \<longrightarrow> credited w' p r \<and> st_confirmation_id st \<noteq> None)
        \<and> (st_status st = STATUS_NOT_FOUND \<longrightarrow> \<not> credited w' p r))"
  using partner_stack.credit_laws [OF stack w(1,2)] partner_stack.status_laws [OF stack w(3,1)]
  by (intro conjI impI) metis+

section \<open>Properties of the breaker and the retries\<close>

lemmas breaker_defs = allow_request_def breaker_poll_def breaker_transition_def record_success_def
  record_failure_def breaker_open_def Let_def

lemma the_breaker_put [simp]: "the_breaker p (put_breaker p b w) = b"
  by (simp add: the_breaker_def put_breaker_def breakers_get_def)

text \<open>
  admission. A closed breaker admits every request; an open one admits none until the cooldown has
  elapsed and then exactly one, the trial; while the trial is in flight none is admitted. The trial's
  success closes the breaker and its failure opens it again at the time of the failure.
\<close>

lemma breaker_admission:
  "(cb_state b = CLOSED \<longrightarrow> allow_request now b = (True, b))
   \<and> (cb_state b = OPEN \<longrightarrow> now - cb_opened_at b < cb_cooldown_seconds b \<longrightarrow> allow_request now b = (False, b))
   \<and> (cb_state b = OPEN \<longrightarrow> cb_cooldown_seconds b \<le> now - cb_opened_at b \<longrightarrow> \<not> cb_trial_in_flight b \<longrightarrow>
        (let (ok, t) = allow_request now b in ok \<and> t = b\<lparr>cb_state := HALF_OPEN, cb_trial_in_flight := True\<rparr>
           \<and> allow_request later t = (False, t)
           \<and> cb_state (record_success t) = CLOSED \<and> cb_consecutive_failures (record_success t) = 0
           \<and> cb_state (record_failure later t) = OPEN \<and> cb_opened_at (record_failure later t) = later))"
  by (auto simp: breaker_defs)

lemma closed_failures:
  assumes "cb_state b = CLOSED" "cb_consecutive_failures b = 0" "int k < cb_failure_threshold b"
  shows "(record_failure now ^^ k) b =
    (if k = 0 then b else b\<lparr>cb_trial_in_flight := False, cb_consecutive_failures := int k\<rparr>)"
  using assms
proof (induction k)
  case (Suc k)
  then show ?case by (auto simp: breaker_defs)
qed simp

text \<open>
  The breaker opens exactly at the threshold. From a fresh closed breaker, \<open>k\<close> consecutive failures
  leave it closed while \<open>k\<close> is below the threshold and open it when \<open>k\<close> reaches it; a success in
  between starts the count again.
\<close>

lemma breaker_opens_at_threshold:
  assumes "cb_state b = CLOSED" "cb_consecutive_failures b = 0" "0 < cb_failure_threshold b"
  shows "(int k < cb_failure_threshold b \<longrightarrow> cb_state ((record_failure now ^^ k) b) = CLOSED)
    \<and> (int k = cb_failure_threshold b \<longrightarrow> cb_state ((record_failure now ^^ k) b) = OPEN
         \<and> cb_opened_at ((record_failure now ^^ k) b) = now)
    \<and> (int k < cb_failure_threshold b \<longrightarrow>
         cb_consecutive_failures (record_success ((record_failure now ^^ k) b)) = 0)"
proof -
  have "cb_state ((record_failure now ^^ k) b) = OPEN \<and> cb_opened_at ((record_failure now ^^ k) b) = now"
    if eq: "int k = cb_failure_threshold b"
  proof (cases k)
    case (Suc i)
    then show ?thesis
      using closed_failures [of b i now] assms eq by (auto simp: breaker_defs)
  qed (use eq assms(3) in simp)
  then show ?thesis
    using closed_failures [of b k now] assms by (auto simp: record_success_def Let_def)
qed

lemma allow_stuck:
  "cb_state b = HALF_OPEN \<Longrightarrow> cb_trial_in_flight b \<Longrightarrow> allow_request now b = (False, b)"
  by (simp add: breaker_defs)

text \<open>
  C31: a trial whose call raises anything but a timeout is never recorded. The exception leaves the loop
  with the trial still marked in flight, and from then on the half-open breaker refuses every request
  at every time: the partner is cut off until the process restarts.
\<close>

theorem breaker_trial_leak:
  assumes "cb_state (the_breaker p w) = HALF_OPEN" "\<not> cb_trial_in_flight (the_breaker p w)"
    and "read_clock rt (snd (process_allow rt p w)) = (now, w2)" "now < deadline"
    and "rt_limit_credit rt (deadline - now) (ad_credit_points inner p r m n) w2 = (Raised e, w3)"
    and "pw_breakers w3 = pw_breakers w2"
  shows "fst (credit_loop rt cfg inner p r m n deadline poss k res w) = Inl e
    \<and> (let w' = snd (credit_loop rt cfg inner p r m n deadline poss k res w) in
       cb_state (the_breaker p w') = HALF_OPEN \<and> cb_trial_in_flight (the_breaker p w')
       \<and> (\<forall>t. \<not> fst (allow_request t (the_breaker p w'))) \<and> \<not> fst (process_allow rt p w'))"
proof -
  let ?b = "(the_breaker p w)\<lparr>cb_trial_in_flight := True\<rparr>"
  have allow: "process_allow rt p w = (True, put_breaker p ?b w)"
    using assms(1,2) by (simp add: process_allow_def breaker_defs)
  have run: "credit_loop rt cfg inner p r m n deadline poss k res w = (Inl e, w3)"
    using assms(3-5) allow by (subst credit_loop.simps) simp
  have "pw_breakers w2 = pw_breakers (put_breaker p ?b w)"
    using assms(3) allow by (auto simp: read_clock_def split: prod.splits)
  then have stuck: "the_breaker p w3 = ?b"
    using assms(6) the_breaker_put [of p ?b w] by (simp add: the_breaker_def)
  have "\<not> fst (process_allow rt p w3)"
    using assms(1) stuck by (simp add: process_allow_def allow_stuck Let_def)
  with run stuck assms(1) show ?thesis
    by (simp add: allow_stuck)
qed


end
