(* ===== verification/Simulator.thy ===== *)
theory Simulator
  imports Resilience Schema
begin

text \<open>
  The partner simulator, \<^verbatim>\<open>partner_simulator/state.py\<close> and \<^verbatim>\<open>partner_simulator/main.py\<close>: its state, the
  credit and status endpoints with their failure modes, and its configuration endpoints. The last part
  puts it behind a network that may refuse, lose, delay and reorder requests and interprets the laws of the
  HTTP client, of the runtime and of the whole partner stack on it, so these laws can hold together; the
  network and the runtime stand for libraries and model no code of the repository.
\<close>

section \<open>State\<close>

datatype mode =
    MODE_SUCCESS | MODE_REJECT | MODE_ERROR | MODE_UNAVAILABLE | MODE_TIMEOUT
  | MODE_TIMEOUT_AFTER_COMMIT | MODE_SLOW | MODE_FLAKY

fun DEFAULT_DELAY_MS :: "mode \<Rightarrow> int" where
  "DEFAULT_DELAY_MS MODE_TIMEOUT = 10000"
| "DEFAULT_DELAY_MS MODE_TIMEOUT_AFTER_COMMIT = 10000"
| "DEFAULT_DELAY_MS MODE_SLOW = 1000"
| "DEFAULT_DELAY_MS _ = 0"

record partner_config =
  pc_mode :: mode
  pc_delay_ms :: int
  pc_failure_rate :: rat

definition default_config :: partner_config where
  "default_config = \<lparr>pc_mode = MODE_SUCCESS, pc_delay_ms = 0, pc_failure_rate = 1/2\<rparr>"

definition config_build :: "mode \<Rightarrow> int option \<Rightarrow> rat option \<Rightarrow> partner_config" where
  "config_build md delay_ms failure_rate =
     \<lparr>pc_mode = md,
      pc_delay_ms = (case delay_ms of Some d \<Rightarrow> d | None \<Rightarrow> DEFAULT_DELAY_MS md),
      pc_failure_rate = (case failure_rate of Some f \<Rightarrow> f | None \<Rightarrow> 1/2)\<rparr>"

record sim_credit =
  sc_partner_code :: string
  sc_reference :: string
  sc_member_id :: string
  sc_points :: int
  sc_confirmation_id :: string
  sc_created_at :: moment

definition same_request :: "sim_credit \<Rightarrow> string \<Rightarrow> int \<Rightarrow> bool" where
  "same_request c member_id points = (sc_member_id c = member_id \<and> sc_points c = points)"

record sim_state =
  ss_configs :: "(string \<times> partner_config) list"
  ss_credits :: "((string \<times> string) \<times> sim_credit) list"

definition config_for :: "sim_state \<Rightarrow> string \<Rightarrow> partner_config" where
  "config_for s partner_code =
     (case map_of (ss_configs s) partner_code of Some c \<Rightarrow> c | None \<Rightarrow> default_config)"

definition sim_find :: "sim_state \<Rightarrow> string \<Rightarrow> string \<Rightarrow> sim_credit option" where
  "sim_find s partner_code reference = map_of (ss_credits s) (partner_code, reference)"

text \<open>\<open>hex\<close> is the text \<^verbatim>\<open>uuid4().hex[:12].upper()\<close>.\<close>

definition sim_apply :: "string \<Rightarrow> moment \<Rightarrow> sim_state \<Rightarrow> string \<Rightarrow> string \<Rightarrow> string \<Rightarrow> int \<Rightarrow> sim_credit \<times> sim_state" where
  "sim_apply hex now s partner_code reference member_id points =
     (let c = \<lparr>sc_partner_code = partner_code, sc_reference = reference, sc_member_id = member_id,
               sc_points = points, sc_confirmation_id = partner_code @ ''-'' @ hex, sc_created_at = now\<rparr>
      in (c, s\<lparr>ss_credits := dict_set (partner_code, reference) c (ss_credits s)\<rparr>))"

definition sim_reset :: "sim_state \<Rightarrow> sim_state" where
  "sim_reset s = \<lparr>ss_configs = [], ss_credits = []\<rparr>"

section \<open>Endpoints\<close>

text \<open>The body model \<^verbatim>\<open>CreditRequest\<close>: exactly three fields, each in its range.\<close>

definition credit_request_of :: "(string \<times> json) list \<Rightarrow> (string \<times> string \<times> int) option" where
  "credit_request_of body =
     (if fst ` set body \<subseteq> {''reference'', ''member_id'', ''points''} then
        (case (map_of body ''reference'', map_of body ''member_id'', map_of body ''points'') of
           (Some (JStr r), Some (JStr m), Some (JInt n)) \<Rightarrow>
             if 1 \<le> length r \<and> length r \<le> 64 \<and> 1 \<le> length m \<and> length m \<le> 100 \<and> 0 < n
             then Some (r, m, n) else None
         | _ \<Rightarrow> None)
      else None)"

text \<open>\<^verbatim>\<open>CreditResponse.of\<close>; \<open>show_moment\<close> prints a moment as Pydantic does.\<close>

definition credit_response :: "(moment \<Rightarrow> string) \<Rightarrow> sim_credit \<Rightarrow> json" where
  "credit_response show_moment c = JObj [(''confirmation_id'', JStr (sc_confirmation_id c)), (''status'', JStr ''COMPLETED''),
     (''reference'', JStr (sc_reference c)), (''member_id'', JStr (sc_member_id c)),
     (''points'', JInt (sc_points c)), (''created_at'', JStr (show_moment (sc_created_at c)))]"

definition failure :: "int \<Rightarrow> string \<Rightarrow> string \<Rightarrow> http_response" where
  "failure status_code error message =
     \<lparr>hr_status_code = status_code, hr_json = Some (JObj [(''error'', JStr error), (''message'', JStr message)])\<rparr>"

text \<open>The 422 answer of the framework to a request outside its model; its details are not used.\<close>

definition unprocessable :: http_response where
  "unprocessable = \<lparr>hr_status_code = 422, hr_json = Some (JObj [(''detail'', JArr [])])\<rparr>"

text \<open>\<open>rnd\<close> is the value of \<^verbatim>\<open>random.random()\<close>, drawn only in flaky mode.\<close>

definition infrastructure_failure :: "partner_config \<Rightarrow> rat \<Rightarrow> http_response option" where
  "infrastructure_failure config rnd =
     (if pc_mode config = MODE_ERROR then Some (failure 500 ''INTERNAL_ERROR'' ''Simulated partner error'')
      else if pc_mode config = MODE_UNAVAILABLE then Some (failure 503 ''UNAVAILABLE'' ''Simulated partner outage'')
      else if pc_mode config = MODE_FLAKY \<and> rnd < pc_failure_rate config
        then Some (failure 500 ''INTERNAL_ERROR'' ''Simulated intermittent error'')
      else None)"

text \<open>
  \<^verbatim>\<open>create_credit\<close> on a validated request. \<open>pause d\<close> is \<^verbatim>\<open>asyncio.sleep\<close>: other requests of the single
  process run meanwhile. The result is the response, the milliseconds slept, and the state.
\<close>

definition create_credit ::
  "(moment \<Rightarrow> string) \<Rightarrow> (int \<Rightarrow> sim_state \<Rightarrow> sim_state) \<Rightarrow> rat \<Rightarrow> string \<Rightarrow> moment
    \<Rightarrow> string \<Rightarrow> string \<Rightarrow> string \<Rightarrow> int \<Rightarrow> sim_state \<Rightarrow> http_response \<times> int \<times> sim_state" where
  "create_credit show_moment pause rnd hex now partner_code reference member_id points s0 =
     (let config = config_for s0 partner_code in
      case infrastructure_failure config rnd of
        Some f \<Rightarrow> (f, 0, s0)
      | None \<Rightarrow>
        if pc_mode config = MODE_TIMEOUT then
          (failure 504 ''TIMEOUT'' ''Simulated timeout; nothing applied'', pc_delay_ms config,
           pause (pc_delay_ms config) s0)
        else
          let slept = (if pc_mode config = MODE_SLOW then pc_delay_ms config else 0);
              s = (if pc_mode config = MODE_SLOW then pause (pc_delay_ms config) s0 else s0);
              late = (if pc_mode config = MODE_TIMEOUT_AFTER_COMMIT then pc_delay_ms config else 0)
          in
          case sim_find s partner_code reference of
            Some existing \<Rightarrow>
              if \<not> same_request existing member_id points
              then (failure 409 ''REFERENCE_CONFLICT'' ''Reference already used for a different credit'', slept, s)
              else (\<lparr>hr_status_code = 200, hr_json = Some (credit_response show_moment existing)\<rparr>, slept + late,
                    if pc_mode config = MODE_TIMEOUT_AFTER_COMMIT then pause late s else s)
          | None \<Rightarrow>
              if pc_mode config = MODE_REJECT
              then (failure 422 ''MEMBER_NOT_FOUND'' ''Member account not found or not eligible'', slept, s)
              else let (c, s') = sim_apply hex now s partner_code reference member_id points in
                (\<lparr>hr_status_code = 201, hr_json = Some (credit_response show_moment c)\<rparr>, slept + late,
                 if pc_mode config = MODE_TIMEOUT_AFTER_COMMIT then pause late s' else s'))"

definition get_credit :: "(moment \<Rightarrow> string) \<Rightarrow> rat \<Rightarrow> string \<Rightarrow> string \<Rightarrow> sim_state \<Rightarrow> http_response" where
  "get_credit show_moment rnd partner_code reference s =
     (case infrastructure_failure (config_for s partner_code) rnd of
        Some f \<Rightarrow> f
      | None \<Rightarrow>
        (case sim_find s partner_code reference of
           None \<Rightarrow> failure 404 ''NOT_FOUND'' ''No credit with this reference''
         | Some c \<Rightarrow> \<lparr>hr_status_code = 200, hr_json = Some (credit_response show_moment c)\<rparr>))"

text \<open>\<^verbatim>\<open>POST /simulator/config\<close>, \<^verbatim>\<open>GET /simulator/credits\<close> (unsorted).\<close>

definition set_config :: "string \<Rightarrow> mode \<Rightarrow> int option \<Rightarrow> rat option \<Rightarrow> sim_state \<Rightarrow> sim_state" where
  "set_config partner_code md delay_ms failure_rate s =
     s\<lparr>ss_configs := dict_set partner_code (config_build md delay_ms failure_rate) (ss_configs s)\<rparr>"

section \<open>A network between the engine and the simulator\<close>

text \<open>
  An instance of the laws of \<open>http_partner\<close> and \<open>partner_runtime\<close>, to show that they can hold of a
  hostile network. Every await point takes one turn of a script: time passes, the configuration may
  change, and requests sent earlier may arrive, before the request or while its handler sleeps. A
  request is delivered, refused at connect, lost, delayed (it is then in transit and the client sees a
  read timeout), processed with the response lost, answered by something that is not JSON, or by
  something that raises. A request that takes longer than the read timeout ends in \<^verbatim>\<open>ReadTimeout\<close> although
  it was processed, and a call that takes longer than its budget is cut off.
\<close>

datatype fault = Deliver | RefuseConnect | LoseRequest | LoseResponse | Garble | Crash | Delay

record turn =
  tn_fault :: fault
  tn_ms :: nat
  tn_config :: "(string \<times> mode) option"
  tn_before :: nat
  tn_during :: nat

definition plain_turn :: turn where
  "plain_turn = \<lparr>tn_fault = Deliver, tn_ms = 0, tn_config = None, tn_before = 0, tn_during = 0\<rparr>"

record sim_request =
  sq_terms :: "string \<times> string \<times> string \<times> int"
  sq_rnd :: rat
  sq_hex :: string

record sim_env =
  se_sim :: sim_state
  se_time :: rat
  se_turns :: "turn list"
  se_rands :: "rat list"
  se_hexes :: "string list"
  se_in_transit :: "sim_request list"

fun pop :: "'a \<Rightarrow> 'a list \<Rightarrow> 'a \<times> 'a list" where
  "pop d [] = (d, [])"
| "pop d (x # xs) = (x, xs)"

definition land :: "sim_request \<Rightarrow> sim_state \<Rightarrow> sim_state" where
  "land q s = (case sq_terms q of (p, r, m, n) \<Rightarrow>
     snd (snd (create_credit (\<lambda>_. []) (\<lambda>_ s. s) (sq_rnd q) (sq_hex q) 0 p r m n s)))"

definition pass_turn :: "turn \<Rightarrow> sim_env \<Rightarrow> sim_env" where
  "pass_turn t e =
     (let s = (case tn_config t of Some (code, md) \<Rightarrow> set_config code md None None (se_sim e) | None \<Rightarrow> se_sim e)
      in e\<lparr>se_sim := fold land (take (tn_before t) (se_in_transit e)) s,
           se_in_transit := drop (tn_before t) (se_in_transit e)\<rparr>)"

text \<open>Routing: \<^verbatim>\<open>/partners/{partner_code}/credits\<close> and \<^verbatim>\<open>.../credits/{reference}\<close>.\<close>

definition split_slash :: "string \<Rightarrow> string \<times> string" where
  "split_slash s = (takeWhile (\<lambda>c. c \<noteq> CHR ''/'') s, dropWhile (\<lambda>c. c \<noteq> CHR ''/'') s)"

definition route_partner :: "string \<Rightarrow> (string \<times> string) option" where
  "route_partner path =
     (if take 10 path = ''/partners/''
      then let (code, rest) = split_slash (drop 10 path) in
        if program_code_format code then Some (code, rest) else None
      else None)"

definition READ_TIMEOUT :: rat where "READ_TIMEOUT = 3"

definition spend :: "rat \<Rightarrow> sim_env \<Rightarrow> sim_env" where
  "spend seconds e = e\<lparr>se_time := se_time e + min seconds READ_TIMEOUT\<rparr>"

definition deliver :: "fault \<Rightarrow> rat \<Rightarrow> http_response \<Rightarrow> http_outcome" where
  "deliver f seconds response =
     (if f = LoseResponse then Transport ReadError
      else if f = Crash then HttpRaised (OtherError ''DecodingError'')
      else if seconds \<ge> READ_TIMEOUT then Transport ReadTimeout
      else if f = Garble then Response \<lparr>hr_status_code = hr_status_code response, hr_json = None\<rparr>
      else Response response)"

text \<open>\<open>serve\<close>: the handler runs; requests in transit arrive while it sleeps, if it does.\<close>

definition serve :: "(moment \<Rightarrow> string) \<Rightarrow> turn \<Rightarrow> sim_request \<Rightarrow> sim_env \<Rightarrow> http_response \<times> int \<times> sim_env" where
  "serve show_moment t q e =
     (let pause = (\<lambda>d s. if d = 0 then s else fold land (take (tn_during t) (se_in_transit e)) s) in
      case sq_terms q of (p, r, m, n) \<Rightarrow>
        let (resp, ms, s) = create_credit show_moment pause (sq_rnd q) (sq_hex q) 0 p r m n (se_sim e)
        in (resp, ms, e\<lparr>se_sim := s,
              se_in_transit := (if ms = 0 then id else drop (tn_during t)) (se_in_transit e)\<rparr>))"

definition sim_post ::
  "(moment \<Rightarrow> string) \<Rightarrow> string \<Rightarrow> (string \<times> json) list \<Rightarrow> sim_env process \<Rightarrow> http_outcome \<times> sim_env process" where
  "sim_post show_moment path body w =
     (let e = pw_env w;
          (t, turns) = pop plain_turn (se_turns e);
          (rnd, rands) = pop 0 (se_rands e);
          (hex, hexes) = pop ''000000000000'' (se_hexes e);
          f = tn_fault t; net = of_nat (tn_ms t) / 1000;
          e1 = pass_turn t (e\<lparr>se_turns := turns, se_rands := rands, se_hexes := hexes\<rparr>);
          (out, e2) =
            (if f = RefuseConnect then (Transport ConnectError, spend net e1)
             else if f = LoseRequest then (Transport ReadTimeout, spend READ_TIMEOUT e1)
             else case (route_partner path, credit_request_of body) of
               (Some (code, rest), Some (r, m, n)) \<Rightarrow>
                 let q = \<lparr>sq_terms = (code, r, m, n), sq_rnd = rnd, sq_hex = hex\<rparr> in
                 if rest \<noteq> ''/credits'' then (deliver f net (failure 404 ''NOT_FOUND'' ''''), spend net e1)
                 else if f = Delay then
                   (Transport ReadTimeout, spend READ_TIMEOUT (e1\<lparr>se_in_transit := se_in_transit e1 @ [q]\<rparr>))
                 else
                   let (resp, ms, e3) = serve show_moment t q e1; seconds = net + of_int ms / 1000
                   in (deliver f seconds resp, spend seconds e3)
             | _ \<Rightarrow> (deliver f net unprocessable, spend net e1))
      in (out, w\<lparr>pw_env := e2\<rparr>))"

definition sim_get :: "(moment \<Rightarrow> string) \<Rightarrow> string \<Rightarrow> sim_env process \<Rightarrow> http_outcome \<times> sim_env process" where
  "sim_get show_moment path w =
     (let e = pw_env w;
          (t, turns) = pop plain_turn (se_turns e);
          (rnd, rands) = pop 0 (se_rands e);
          f = tn_fault t; net = of_nat (tn_ms t) / 1000;
          e1 = pass_turn t (e\<lparr>se_turns := turns, se_rands := rands\<rparr>);
          out =
            (if f = RefuseConnect then Transport ConnectError
             else if f \<in> {LoseRequest, Delay} then Transport ReadTimeout
             else case route_partner path of
               Some (code, rest) \<Rightarrow>
                 if take 9 rest = ''/credits/''
                 then deliver f net (get_credit show_moment rnd code (drop 9 rest) (se_sim e1))
                 else deliver f net unprocessable
             | None \<Rightarrow> deliver f net unprocessable)
      in (out, w\<lparr>pw_env := spend (if f \<in> {LoseRequest, Delay} then READ_TIMEOUT else net) e1\<rparr>))"

definition sim_client :: "(moment \<Rightarrow> string) \<Rightarrow> sim_env process http_client" where
  "sim_client show_moment = \<lparr>hc_post = sim_post show_moment, hc_get = sim_get show_moment\<rparr>"

definition sim_sleep :: "rat \<Rightarrow> sim_env process \<Rightarrow> sim_env process" where
  "sim_sleep d w =
     (let e = pw_env w; (t, turns) = pop plain_turn (se_turns e)
      in w\<lparr>pw_env := pass_turn t (e\<lparr>se_turns := turns, se_time := se_time e + d\<rparr>)\<rparr>)"

definition sim_limit :: "rat \<Rightarrow> (sim_env process \<Rightarrow> 'a result \<times> sim_env process)
    \<Rightarrow> sim_env process \<Rightarrow> 'a call \<times> sim_env process" where
  "sim_limit budget f w =
     (case f w of (out, w') \<Rightarrow>
        if se_time (pw_env w') - se_time (pw_env w) \<ge> budget
        then (TimedOut, w'\<lparr>pw_env := (pw_env w')\<lparr>se_time := se_time (pw_env w) + budget\<rparr>\<rparr>)
        else (case out of Inr x \<Rightarrow> Returned x | Inl ex \<Rightarrow> Raised ex, w'))"

definition sim_runtime :: "sim_env runtime" where
  "sim_runtime =
     \<lparr>rt_clock = (\<lambda>e. (se_time e, e)),
      rt_rand = (\<lambda>e. let (r, rs) = pop 0 (se_rands e) in (r, e\<lparr>se_rands := rs\<rparr>)),
      rt_sleep = sim_sleep, rt_limit_credit = sim_limit, rt_limit_status = sim_limit\<rparr>"

section \<open>The laws hold of the simulator\<close>

definition sim_confirmed :: "sim_env \<Rightarrow> bool" where
  "sim_confirmed e = (\<forall>p r c. sim_find (se_sim e) p r = Some c \<longrightarrow> sc_confirmation_id c \<noteq> [])"

definition sim_fits :: "string \<Rightarrow> string \<Rightarrow> string \<Rightarrow> int \<Rightarrow> sim_env \<Rightarrow> bool" where
  "sim_fits p r m n e =
     ((\<forall>c. sim_find (se_sim e) p r = Some c \<longrightarrow> same_request c m n)
      \<and> (\<forall>q \<in> set (se_in_transit e). \<forall>m' n'. sq_terms q = (p, r, m', n') \<longrightarrow> m' = m \<and> n' = n))"

definition sim_ok :: "sim_env process \<Rightarrow> bool" where
  "sim_ok w = sim_confirmed (pw_env w)"

definition sim_request_ok :: "string \<Rightarrow> string \<Rightarrow> string \<Rightarrow> int \<Rightarrow> sim_env process \<Rightarrow> bool" where
  "sim_request_ok p r m n w =
     (program_code_format p \<and> 1 \<le> length r \<and> length r \<le> 64 \<and> 1 \<le> length m \<and> length m \<le> 100 \<and> 0 < n
      \<and> sim_fits p r m n (pw_env w))"

definition sim_credited :: "sim_env process \<Rightarrow> string \<Rightarrow> string \<Rightarrow> bool" where
  "sim_credited w p r = (sim_find (se_sim (pw_env w)) p r \<noteq> None)"

definition sim_may_credit :: "sim_env process \<Rightarrow> string \<Rightarrow> string \<Rightarrow> bool" where
  "sim_may_credit w p r =
     (sim_credited w p r \<or> (\<exists>q \<in> set (se_in_transit (pw_env w)). \<exists>m n. sq_terms q = (p, r, m, n)))"

lemma in_range_not_slash:
  "is_upper c \<Longrightarrow> c \<noteq> CHR ''/''" "is_digit c \<Longrightarrow> c \<noteq> CHR ''/''"
  by (auto simp: is_upper_def is_digit_def in_range_def)

lemma program_code_no_slash: "program_code_format p \<Longrightarrow> c \<in> set p \<Longrightarrow> c \<noteq> CHR ''/''"
  by (cases p) (auto simp: program_code_format_def list_all_iff dest: in_range_not_slash)

lemma route_partner_credits:
  assumes "program_code_format p" "rest = CHR ''/'' # tail"
  shows "route_partner (''/partners/'' @ p @ rest) = Some (p, rest)"
  using assms program_code_no_slash [OF assms(1)]
  by (simp add: route_partner_def split_slash_def takeWhile_append dropWhile_append Let_def)

lemma sim_apply_credit:
  assumes "sim_apply hex now s p r m n = (c, s')"
  shows "sc_confirmation_id c \<noteq> []" "same_request c m n"
    and "sim_find s' p' r' = (if p' = p \<and> r' = r then Some c else sim_find s p' r')"
  using assms by (auto simp: sim_apply_def same_request_def sim_find_def Let_def)

text \<open>\<open>grown Q s s'\<close>: credits are only added, each for a request of \<open>Q\<close> whose reference had none.\<close>

definition grown :: "(string \<times> string \<times> string \<times> int) set \<Rightarrow> sim_state \<Rightarrow> sim_state \<Rightarrow> bool" where
  "grown Q s s' \<longleftrightarrow> (\<forall>p r. sim_find s' p r = sim_find s p r \<or> (sim_find s p r = None
     \<and> (\<exists>m n c. (p, r, m, n) \<in> Q \<and> sim_find s' p r = Some c \<and> same_request c m n \<and> sc_confirmation_id c \<noteq> [])))"

lemma grown_refl: "grown Q s s"
  by (simp add: grown_def)

lemma grown_trans: "grown Q s s' \<Longrightarrow> grown Q s' s'' \<Longrightarrow> grown Q s s''"
  unfolding grown_def by metis

lemma grown_mono: "grown Q s s' \<Longrightarrow> Q \<subseteq> Q' \<Longrightarrow> grown Q' s s'"
  unfolding grown_def by blast

lemma grown_config: "grown Q (set_config code md d f s) s' = grown Q s s'" "grown Q s (set_config code md d f s') = grown Q s s'"
  by (simp_all add: grown_def set_config_def sim_find_def)

lemma grown_apply:
  assumes "sim_apply hex now s p r m n = (c, s')" "sim_find s p r = None" "(p, r, m, n) \<in> Q"
  shows "grown Q s s'"
  unfolding grown_def using assms(2,3) sim_apply_credit(1,2) [OF assms(1)]
  by (auto simp: sim_apply_credit(3) [OF assms(1)])

lemma grown_keeps: "grown Q s s' \<Longrightarrow> sim_find s p r = Some c \<Longrightarrow> sim_find s' p r = Some c"
  unfolding grown_def by (metis option.distinct(1))

text \<open>
  The credit endpoint, with anything allowed by \<open>Q\<close> arriving while it sleeps: a 200 or 201 leaves its
  credit there, a refusal has not applied its own request.
\<close>

lemma create_credit_grown:
  assumes call: "create_credit show_moment pause rnd hex now p r m n s = (resp, ms, s')"
    and pause: "\<And>d s. grown Q s (pause d s)"
  shows "grown (insert (p, r, m, n) Q) s s'"
    and "hr_status_code resp \<in> {200, 201} \<Longrightarrow>
      \<exists>c. sim_find s' p r = Some c \<and> hr_json resp = Some (credit_response show_moment c)"
    and "400 \<le> hr_status_code resp \<Longrightarrow> hr_status_code resp < 500 \<Longrightarrow> grown Q s s'"
proof -
  note pause' = pause [THEN grown_mono, of "insert (p, r, m, n) Q", OF subset_insertI]
  note own = grown_apply [where Q = "insert (p, r, m, n) Q", OF _ _ insertI1]
  show "grown (insert (p, r, m, n) Q) s s'"
    using call by (auto simp: create_credit_def Let_def
      intro: grown_refl pause' own grown_trans [OF pause' own] grown_trans [OF own pause']
      split: if_splits option.splits prod.splits)
  have applied: "\<exists>c'. sim_find (pause d t) p r = Some c' \<and> credit_response show_moment c = credit_response show_moment c'"
    if "sim_apply hex now u p r m n = (c, t)" for u c t d
    using grown_keeps [OF pause] sim_apply_credit(3) [OF that] by auto
  show "\<exists>c. sim_find s' p r = Some c \<and> hr_json resp = Some (credit_response show_moment c)"
    if "hr_status_code resp \<in> {200, 201}"
    using call that
    by (auto simp: create_credit_def infrastructure_failure_def failure_def Let_def sim_apply_credit(3)
        intro: grown_keeps [OF pause] applied
        split: if_splits option.splits prod.splits)
  show "grown Q s s'" if "400 \<le> hr_status_code resp" "hr_status_code resp < 500"
    using call that by (auto simp: create_credit_def infrastructure_failure_def failure_def Let_def
        intro: grown_refl pause split: if_splits option.splits prod.splits)
qed

lemma grown_land:
  assumes "sq_terms q \<in> Q"
  shows "grown Q s (land q s)"
proof -
  obtain p r m n where q: "sq_terms q = (p, r, m, n)" by (cases "sq_terms q")
  obtain resp ms s' where c: "create_credit (\<lambda>_. []) (\<lambda>_ s. s) (sq_rnd q) (sq_hex q) 0 p r m n s = (resp, ms, s')"
    by (metis prod_cases3)
  show ?thesis
    using create_credit_grown(1) [OF c grown_refl, of "{}"] assms q by (auto simp: land_def c intro: grown_mono)
qed

lemma grown_fold_land: "sq_terms ` set qs \<subseteq> Q \<Longrightarrow> grown Q s (fold land qs s)"
  by (induction qs arbitrary: s) (auto intro: grown_refl grown_trans [OF grown_land])

text \<open>What the others may do at an await point, for every request at once.\<close>

definition calm :: "sim_env \<Rightarrow> sim_env \<Rightarrow> bool" where
  "calm e e' \<longleftrightarrow> grown (sq_terms ` set (se_in_transit e)) (se_sim e) (se_sim e')
     \<and> set (se_in_transit e') \<subseteq> set (se_in_transit e)"

lemma calm_trans: "calm e e' \<Longrightarrow> calm e' e'' \<Longrightarrow> calm e e''"
  unfolding calm_def by (meson dual_order.trans grown_mono grown_trans image_mono)

lemma calm_turn:
  assumes same: "se_sim e0 = se_sim e" "se_in_transit e0 = se_in_transit e"
  shows "calm e (pass_turn t e0)"
proof -
  have sub: "sq_terms ` set (take k qs) \<subseteq> sq_terms ` set qs" for k and qs :: "sim_request list"
    using set_take_subset by (rule image_mono)
  have "grown (sq_terms ` set (se_in_transit e)) u (fold land (take k (se_in_transit e)) (set_config c md None None u))" for u k c md
    using grown_fold_land [where s = "set_config c md None None u", OF sub] by (simp add: grown_config)
  then show ?thesis
    using grown_fold_land [OF sub] set_drop_subset [of "tn_before t" "se_in_transit e"]
    by (simp add: calm_def pass_turn_def same Let_def split: option.splits prod.splits)
qed

lemma grown_find:
  fixes Q :: "sim_request set"
  assumes "grown (sq_terms ` Q) s s'" "sim_find s' p r = Some c"
  shows "sim_find s p r = Some c
    \<or> (\<exists>q \<in> Q. \<exists>m n. sq_terms q = (p, r, m, n) \<and> same_request c m n \<and> sc_confirmation_id c \<noteq> [])"
proof -
  have "sim_find s p r = Some c \<or> (\<exists>m n. (p, r, m, n) \<in> sq_terms ` Q \<and> same_request c m n \<and> sc_confirmation_id c \<noteq> [])"
    using assms unfolding grown_def by (metis option.inject)
  then show ?thesis
    by (auto dest: sym)
qed

lemma calm_confirmed: "calm e e' \<Longrightarrow> sim_confirmed e \<Longrightarrow> sim_confirmed e'"
  using grown_find unfolding calm_def sim_confirmed_def by blast

lemma calm_fits: "calm e e' \<Longrightarrow> sim_fits p r m n e \<Longrightarrow> sim_fits p r m n e'"
  using grown_find [of "set (se_in_transit e)" "se_sim e" "se_sim e'" p r] unfolding calm_def sim_fits_def by blast

lemma calm_may: "calm (pw_env w) (pw_env w') \<Longrightarrow> sim_may_credit w' p r \<Longrightarrow> sim_may_credit w p r"
  using grown_find [of "set (se_in_transit (pw_env w))" "se_sim (pw_env w)" "se_sim (pw_env w')" p r]
  unfolding calm_def sim_may_credit_def sim_credited_def by blast

lemma calm_cong: "calm e (e'\<lparr>se_time := x\<rparr>) = calm e e'" "calm e (spend x e') = calm e e'"
  by (simp_all add: calm_def spend_def)

text \<open>A request that is served or joins those in transit.\<close>

definition sent :: "string \<Rightarrow> string \<Rightarrow> string \<Rightarrow> int \<Rightarrow> sim_env \<Rightarrow> sim_env \<Rightarrow> bool" where
  "sent p r m n e e' \<longleftrightarrow> grown (insert (p, r, m, n) (sq_terms ` set (se_in_transit e))) (se_sim e) (se_sim e')
     \<and> (\<forall>q \<in> set (se_in_transit e'). q \<in> set (se_in_transit e) \<or> sq_terms q = (p, r, m, n))"

lemma calm_sent: "calm e e' \<Longrightarrow> sent p r m n e e'"
  unfolding calm_def sent_def by (meson grown_mono subsetD subset_insertI)

lemma sent_keeps:
  assumes "sent p r m n e e'"
  shows "sim_confirmed e \<Longrightarrow> sim_confirmed e'" and "sim_fits p r m n e \<Longrightarrow> sim_fits p r m n e'"
proof -
  let ?q = "\<lparr>sq_terms = (p, r, m, n), sq_rnd = 0, sq_hex = []\<rparr>"
  have grown: "grown (sq_terms ` insert ?q (set (se_in_transit e))) (se_sim e) (se_sim e')"
    using assms by (simp add: sent_def)
  note find = grown_find [OF grown]
  show "sim_confirmed e \<Longrightarrow> sim_confirmed e'"
    using find unfolding sim_confirmed_def by blast
  assume fits: "sim_fits p r m n e"
  have "same_request c m n" if "sim_find (se_sim e') p r = Some c" for c
    using find [OF that] fits unfolding sim_fits_def by auto
  moreover have "m' = m \<and> n' = n" if "q \<in> set (se_in_transit e')" "sq_terms q = (p, r, m', n')" for q m' n'
    using assms fits that unfolding sent_def sim_fits_def by fastforce
  ultimately show "sim_fits p r m n e'"
    unfolding sim_fits_def by blast
qed

lemma calm_then_sent: "calm e e' \<Longrightarrow> sent p r m n e' e'' \<Longrightarrow> sent p r m n e e''"
  unfolding calm_def sent_def by (meson grown_mono grown_trans image_mono insert_mono subsetD subset_insertI)

lemma serve_sent:
  assumes "serve show_moment t q e = (resp, ms, e')" "sq_terms q = (p, r, m, n)"
  shows "sent p r m n e e'"
    and "hr_status_code resp \<in> {200, 201} \<Longrightarrow>
      \<exists>c. sim_find (se_sim e') p r = Some c \<and> hr_json resp = Some (credit_response show_moment c)"
    and "400 \<le> hr_status_code resp \<Longrightarrow> hr_status_code resp < 500 \<Longrightarrow> calm e e'"
proof -
  define pause where "pause = (\<lambda>d s. if d = (0::int) then s else fold land (take (tn_during t) (se_in_transit e)) s)"
  obtain s where c: "create_credit show_moment pause (sq_rnd q) (sq_hex q) 0 p r m n (se_sim e) = (resp, ms, s)"
    and e': "e' = e\<lparr>se_sim := s, se_in_transit := (if ms = 0 then id else drop (tn_during t)) (se_in_transit e)\<rparr>"
    using assms by (auto simp: serve_def Let_def pause_def split: prod.splits)
  have "grown (sq_terms ` set (se_in_transit e)) u (pause d u)" for d u
    using grown_fold_land [OF image_mono [OF set_take_subset]] by (simp add: pause_def grown_refl)
  note served = create_credit_grown [OF c this]
  have transit: "set (se_in_transit e') \<subseteq> set (se_in_transit e)"
    using set_drop_subset by (auto simp: e' dest: in_set_dropD)
  show "sent p r m n e e'"
    using served(1) transit by (auto simp: sent_def e')
  show "\<exists>c. sim_find (se_sim e') p r = Some c \<and> hr_json resp = Some (credit_response show_moment c)"
    if "hr_status_code resp \<in> {200, 201}"
    using served(2) [OF that] by (simp add: e')
  show "calm e e'" if "400 \<le> hr_status_code resp" "hr_status_code resp < 500"
    using served(3) [OF that] transit by (auto simp: calm_def e')
qed

lemma sent_cong: "sent p r m n e (e'\<lparr>se_time := x\<rparr>) = sent p r m n e e'" "sent p r m n e (spend x e') = sent p r m n e e'"
  by (simp_all add: sent_def spend_def)

lemma sent_delayed: "sent p r m n e (e\<lparr>se_in_transit := se_in_transit e @ [\<lparr>sq_terms = (p, r, m, n), sq_rnd = x, sq_hex = h\<rparr>]\<rparr>)"
  by (simp add: sent_def grown_refl)

lemma confirmation_credit_response:
  "credit_response show_moment c = JObj body \<Longrightarrow> map_of body ''confirmation_id'' = Some (JStr (sc_confirmation_id c))"
  by (auto simp: credit_response_def)

lemma deliver_response:
  "deliver f x resp = Response resp' \<Longrightarrow>
     hr_status_code resp' = hr_status_code resp \<and> (hr_json resp' = hr_json resp \<or> hr_json resp' = None)"
  "deliver f x resp = Transport er \<Longrightarrow> er \<in> {ReadError, ReadTimeout}"
  by (auto simp: deliver_def split: if_splits)

lemma sim_post_outcome:
  assumes ok: "sim_request_ok p r m n w"
    and post: "hc_post (sim_client show_moment) (''/partners/'' @ p @ ''/credits'')
        [(''reference'', JStr r), (''member_id'', JStr m), (''points'', JInt n)] w = (oc, w')"
  shows "sent p r m n (pw_env w) (pw_env w') \<and> (\<forall>resp. oc = Response resp \<longrightarrow>
        (hr_status_code resp \<in> {200, 201} \<longrightarrow> sim_credited w' p r)
        \<and> (400 \<le> hr_status_code resp \<longrightarrow> hr_status_code resp < 500 \<longrightarrow> calm (pw_env w) (pw_env w')))
    \<and> (\<forall>er \<in> {ConnectError, ConnectTimeout, PoolTimeout}. oc = Transport er \<longrightarrow> calm (pw_env w) (pw_env w'))"
proof -
  obtain t turns where t: "pop plain_turn (se_turns (pw_env w)) = (t, turns)" by force
  obtain rnd rands where rnd: "pop 0 (se_rands (pw_env w)) = (rnd, rands)" by force
  obtain hex hexes where hex: "pop ''000000000000'' (se_hexes (pw_env w)) = (hex, hexes)" by force
  define e1 where "e1 = pass_turn t ((pw_env w)\<lparr>se_turns := turns, se_rands := rands, se_hexes := hexes\<rparr>)"
  define q where "q = \<lparr>sq_terms = (p, r, m, n), sq_rnd = rnd, sq_hex = hex\<rparr>"
  obtain resp ms e3 where served: "serve show_moment t q e1 = (resp, ms, e3)" by (metis prod_cases3)
  have calm: "calm (pw_env w) e1"
    unfolding e1_def by (rule calm_turn) simp_all
  have body: "credit_request_of [(''reference'', JStr r), (''member_id'', JStr m), (''points'', JInt n)] = Some (r, m, n)"
    using ok by (simp add: credit_request_of_def sim_request_ok_def)
  have route: "route_partner (''/partners/'' @ p @ ''/credits'') = Some (p, ''/credits'')"
    using ok by (intro route_partner_credits) (simp_all add: sim_request_ok_def)
  let ?net = "of_nat (tn_ms t) / 1000 :: rat"
  have out: "(oc, pw_env w') =
      (if tn_fault t = RefuseConnect then (Transport ConnectError, spend ?net e1)
       else if tn_fault t = LoseRequest then (Transport ReadTimeout, spend READ_TIMEOUT e1)
       else if tn_fault t = Delay then
         (Transport ReadTimeout, spend READ_TIMEOUT (e1\<lparr>se_in_transit := se_in_transit e1 @ [q]\<rparr>))
       else (deliver (tn_fault t) (?net + of_int ms / 1000) resp, spend (?net + of_int ms / 1000) e3))"
    using post unfolding sim_client_def http_client.simps sim_post_def Let_def t rnd hex body route prod.case
      e1_def [symmetric] option.case q_def [symmetric] served
    by (auto split: if_splits)
  have q: "sq_terms q = (p, r, m, n)" by (simp add: q_def)
  note serve = serve_sent [OF served q]
  note sents = calm_then_sent [OF calm serve(1)] calm_sent [OF calm] calm_then_sent [OF calm sent_delayed]
  note via = deliver_response [of "tn_fault t" "?net + of_int ms / 1000" resp]
  show ?thesis
  proof (cases "tn_fault t \<in> {RefuseConnect, LoseRequest, Delay}")
    case True
    then show ?thesis
      using out calm sents by (auto simp: sent_cong calm_cong q_def)
  next
    case False
    then have oc: "oc = deliver (tn_fault t) (?net + of_int ms / 1000) resp"
      and w': "pw_env w' = spend (?net + of_int ms / 1000) e3"
      using out by auto
    have sim: "se_sim (pw_env w') = se_sim e3"
      by (simp add: w' spend_def)
    show ?thesis
    proof (intro conjI ballI allI impI)
      show "sent p r m n (pw_env w) (pw_env w')"
        by (simp add: w' sent_cong sents(1))
    next
      fix resp' assume "oc = Response resp'" "hr_status_code resp' \<in> {200, 201}"
      then show "sim_credited w' p r"
        using via(1) [of resp'] serve(2) oc by (auto simp: sim_credited_def sim)
    next
      fix resp' assume "oc = Response resp'" "400 \<le> hr_status_code resp'" "hr_status_code resp' < 500"
      then show "calm (pw_env w) (pw_env w')"
        using via(1) [of resp'] calm_trans [OF calm serve(3)] oc by (simp add: w' calm_cong)
    next
      fix er assume "er \<in> {ConnectError, ConnectTimeout, PoolTimeout}" "oc = Transport er"
      then show "calm (pw_env w) (pw_env w')"
        using via(2) [of er] oc by auto
    qed
  qed
qed

lemma sim_get_outcome:
  assumes known: "program_code_format p"
    and get: "hc_get (sim_client show_moment) (''/partners/'' @ p @ ''/credits/'' @ r) w = (oc, w')"
  shows "calm (pw_env w) (pw_env w') \<and> (\<forall>resp. oc = Response resp \<longrightarrow>
        (hr_status_code resp = 200 \<longrightarrow> sim_credited w' p r) \<and> (hr_status_code resp = 404 \<longrightarrow> \<not> sim_credited w' p r))"
proof -
  obtain t turns where t: "pop plain_turn (se_turns (pw_env w)) = (t, turns)" by force
  obtain rnd rands where rnd: "pop 0 (se_rands (pw_env w)) = (rnd, rands)" by force
  define e1 where "e1 = pass_turn t ((pw_env w)\<lparr>se_turns := turns, se_rands := rands\<rparr>)"
  have calm: "calm (pw_env w) e1"
    unfolding e1_def by (rule calm_turn) simp_all
  have route: "route_partner (''/partners/'' @ p @ ''/credits/'' @ r) = Some (p, ''/credits/'' @ r)"
    using known by (intro route_partner_credits) simp_all
  let ?net = "of_nat (tn_ms t) / 1000 :: rat"
  have oc: "oc = (if tn_fault t = RefuseConnect then Transport ConnectError
      else if tn_fault t \<in> {LoseRequest, Delay} then Transport ReadTimeout
      else deliver (tn_fault t) ?net (get_credit show_moment rnd p r (se_sim e1)))"
    and w': "pw_env w' = spend (if tn_fault t \<in> {LoseRequest, Delay} then READ_TIMEOUT else ?net) e1"
    using get unfolding sim_client_def http_client.simps sim_get_def Let_def t rnd route prod.case
      e1_def [symmetric] option.case by auto
  have sim: "se_sim (pw_env w') = se_sim e1"
    by (simp add: w' spend_def)
  have status: "hr_status_code (get_credit show_moment rnd p r (se_sim e1)) = 200 \<Longrightarrow> sim_find (se_sim e1) p r \<noteq> None"
    "hr_status_code (get_credit show_moment rnd p r (se_sim e1)) = 404 \<Longrightarrow> sim_find (se_sim e1) p r = None"
    by (auto simp: get_credit_def infrastructure_failure_def failure_def split: option.splits if_splits)
  have "(hr_status_code resp = 200 \<longrightarrow> sim_credited w' p r) \<and> (hr_status_code resp = 404 \<longrightarrow> \<not> sim_credited w' p r)"
    if "oc = Response resp" for resp
    using that status deliver_response(1) [of "tn_fault t" ?net "get_credit show_moment rnd p r (se_sim e1)" resp]
    by (auto simp: oc sim_credited_def sim split: if_splits)
  then show ?thesis
    using calm by (simp add: w' calm_cong)
qed

lemma calm_world:
  assumes "calm (pw_env w) (pw_env w')"
  shows "sim_ok w \<Longrightarrow> sim_ok w'" and "sim_request_ok p r m n w \<Longrightarrow> sim_request_ok p r m n w'"
    and "sim_may_credit w' p r \<Longrightarrow> sim_may_credit w p r"
  using calm_confirmed [OF assms] calm_fits [OF assms] calm_may [OF assms]
  by (auto simp: sim_ok_def sim_request_ok_def)

lemma sent_world:
  assumes "sent p r m n (pw_env w) (pw_env w')" "sim_ok w" "sim_request_ok p r m n w"
  shows "sim_ok w' \<and> sim_request_ok p r m n w'"
  using sent_keeps [OF assms(1)] assms(2,3) by (simp add: sim_ok_def sim_request_ok_def)

interpretation sim_http: http_partner
  "sim_client show_moment" program_code_format sim_ok sim_request_ok sim_credited sim_may_credit
  for show_moment
proof
  fix w p r
  show "sim_credited w p r \<Longrightarrow> sim_may_credit w p r"
    by (simp add: sim_may_credit_def)
next
  fix p r m n w oc w'
  assume w: "sim_ok w" "sim_request_ok p r m n w"
    and post: "hc_post (sim_client show_moment) (''/partners/'' @ p @ ''/credits'')
        [(''reference'', JStr r), (''member_id'', JStr m), (''points'', JInt n)] w = (oc, w')"
  show "sim_ok w' \<and> sim_request_ok p r m n w'"
    using sim_post_outcome [OF w(2) post] sent_world [OF _ w] by blast
next
  fix p r m n w resp w' body c
  assume w: "sim_ok w" "sim_request_ok p r m n w"
    and post: "hc_post (sim_client show_moment) (''/partners/'' @ p @ ''/credits'')
        [(''reference'', JStr r), (''member_id'', JStr m), (''points'', JInt n)] w = (Response resp, w')"
  show "hr_status_code resp \<in> {200, 201} \<Longrightarrow> sim_credited w' p r"
    using sim_post_outcome [OF w(2) post] by blast
  show "400 \<le> hr_status_code resp \<Longrightarrow> hr_status_code resp < 500 \<Longrightarrow> sim_may_credit w' p r \<Longrightarrow> sim_may_credit w p r"
    using sim_post_outcome [OF w(2) post] calm_world(3) by blast
next
  fix p r m n w er w'
  assume a: "sim_request_ok p r m n w"
    "hc_post (sim_client show_moment) (''/partners/'' @ p @ ''/credits'')
        [(''reference'', JStr r), (''member_id'', JStr m), (''points'', JInt n)] w = (Transport er, w')"
    and "er \<in> {ConnectError, ConnectTimeout, PoolTimeout}" "sim_may_credit w' p r"
  then show "sim_may_credit w p r"
    using sim_post_outcome [OF a] calm_world(3) by blast
next
  fix p w r oc w' m n
  assume ok: "sim_ok w" and get: "program_code_format p"
    "hc_get (sim_client show_moment) (''/partners/'' @ p @ ''/credits/'' @ r) w = (oc, w')"
  show "sim_ok w' \<and> (sim_request_ok p r m n w \<longrightarrow> sim_request_ok p r m n w')
      \<and> (sim_may_credit w' p r \<longrightarrow> sim_may_credit w p r)"
    using sim_get_outcome [OF get] calm_world ok by blast
next
  fix p w r resp w'
  assume get: "program_code_format p" "hc_get (sim_client show_moment) (''/partners/'' @ p @ ''/credits/'' @ r) w = (Response resp, w')"
  show "hr_status_code resp = 200 \<Longrightarrow> sim_credited w' p r" "hr_status_code resp = 404 \<Longrightarrow> \<not> sim_credited w' p r"
    using sim_get_outcome [OF get] by blast+
qed

lemma sim_limit_cases:
  "sim_limit d f w = (Returned x, w') \<Longrightarrow> f w = (Inr x, w')"
  "sim_limit d f w = (Raised ex, w') \<Longrightarrow> f w = (Inl ex, w')"
  "sim_limit d f w = (TimedOut, w') \<Longrightarrow>
     \<exists>out w1. f w = (out, w1) \<and> w' = w1\<lparr>pw_env := (pw_env w1)\<lparr>se_time := se_time (pw_env w) + d\<rparr>\<rparr>"
  by (auto simp: sim_limit_def split: prod.splits sum.splits if_splits)

lemma sim_same:
  assumes "se_sim e = se_sim (pw_env w)" "se_in_transit e = se_in_transit (pw_env w)"
  shows "sim_ok (w\<lparr>pw_env := e\<rparr>) = sim_ok w" "sim_request_ok p r m n (w\<lparr>pw_env := e\<rparr>) = sim_request_ok p r m n w"
    "sim_credited (w\<lparr>pw_env := e\<rparr>) p r = sim_credited w p r"
    "sim_may_credit (w\<lparr>pw_env := e\<rparr>) p r = sim_may_credit w p r"
  using assms by (simp_all add: sim_ok_def sim_confirmed_def sim_request_ok_def sim_fits_def sim_credited_def sim_may_credit_def)

abbreviation sim_adapter :: "(moment \<Rightarrow> string) \<Rightarrow> sim_env process adapter" where
  "sim_adapter show_moment \<equiv> HttpPartnerAdapter (sim_client show_moment)"

interpretation sim_runs: partner_runtime
  "sim_adapter show_moment" program_code_format sim_ok sim_request_ok sim_credited sim_may_credit sim_runtime
  for show_moment
proof
  fix w w' :: "sim_env process" and g p r m n e d f h x y ex
  show "sim_ok (w\<lparr>pw_breakers := g\<rparr>) = sim_ok w"
    "sim_request_ok p r m n (w\<lparr>pw_breakers := g\<rparr>) = sim_request_ok p r m n w"
    "sim_credited (w\<lparr>pw_breakers := g\<rparr>) p r = sim_credited w p r"
    "sim_may_credit (w\<lparr>pw_breakers := g\<rparr>) p r = sim_may_credit w p r"
    by (simp_all add: sim_ok_def sim_request_ok_def sim_credited_def sim_may_credit_def)
  show "sim_ok (w\<lparr>pw_env := e\<rparr>) = sim_ok w
      \<and> sim_request_ok p r m n (w\<lparr>pw_env := e\<rparr>) = sim_request_ok p r m n w
      \<and> sim_credited (w\<lparr>pw_env := e\<rparr>) p r = sim_credited w p r
      \<and> sim_may_credit (w\<lparr>pw_env := e\<rparr>) p r = sim_may_credit w p r"
    if "e = snd (rt_clock sim_runtime (pw_env w)) \<or> e = snd (rt_rand sim_runtime (pw_env w))"
    using that by (intro conjI sim_same) (auto simp: sim_runtime_def split: prod.splits)
  have "calm (pw_env w) (pw_env (sim_sleep d w))"
    by (auto simp: sim_sleep_def Let_def intro!: calm_turn split: prod.splits)
  then show "sim_ok (rt_sleep sim_runtime d w)
      \<and> (sim_request_ok p r m n w \<longrightarrow> sim_request_ok p r m n (rt_sleep sim_runtime d w))
      \<and> (sim_may_credit (rt_sleep sim_runtime d w) p r \<longrightarrow> sim_may_credit w p r)" if "sim_ok w"
    using calm_world [of w "sim_sleep d w"] that by (auto simp: sim_runtime_def)
  show "rt_limit_credit sim_runtime d f w = (Returned x, w') \<Longrightarrow> f w = (Inr x, w')"
    "rt_limit_credit sim_runtime d f w = (Raised ex, w') \<Longrightarrow> f w = (Inl ex, w')"
    "rt_limit_status sim_runtime d h w = (Returned y, w') \<Longrightarrow> h w = (Inr y, w')"
    "rt_limit_status sim_runtime d h w = (Raised ex, w') \<Longrightarrow> h w = (Inl ex, w')"
    by (simp_all add: sim_runtime_def sim_limit_cases)
  show "sim_ok w' \<and> sim_request_ok p r m n w'"
    if "sim_ok w" "sim_request_ok p r m n w"
      "rt_limit_credit sim_runtime d (ad_credit_points (sim_adapter show_moment) p r m n) w = (TimedOut, w')"
    using that(3) sim_http.adapter.credit_inv [OF that(1,2), of show_moment]
    by (auto simp: sim_runtime_def sim_same dest!: sim_limit_cases(3))
  show "sim_ok w' \<and> (sim_request_ok p r m n w \<longrightarrow> sim_request_ok p r m n w')
      \<and> (sim_may_credit w' p r \<longrightarrow> sim_may_credit w p r)"
    if "program_code_format p" "sim_ok w"
      "rt_limit_status sim_runtime d (ad_get_credit_status (sim_adapter show_moment) p r) w = (TimedOut, w')"
    using that(3) sim_http.adapter.status_inv [OF that(1,2), of show_moment r]
    by (auto simp: sim_runtime_def sim_same dest!: sim_limit_cases(3))
qed

interpretation sim_stack: partner_stack
  "sim_client show_moment" program_code_format sim_ok sim_request_ok sim_credited sim_may_credit sim_runtime
  for show_moment ..

section \<open>Runs of the partner stack\<close>

definition faulty :: "fault \<Rightarrow> turn" where
  "faulty f = plain_turn\<lparr>tn_fault := f, tn_ms := 200\<rparr>"

definition switch_to :: "mode \<Rightarrow> turn" where
  "switch_to md = plain_turn\<lparr>tn_config := Some (''AIR_B'', md)\<rparr>"

definition sample_world :: "turn list \<Rightarrow> sim_env process" where
  "sample_world turns =
     \<lparr>pw_breakers = \<lparr>bg_failure_threshold = 5, bg_cooldown_seconds = 30, bg_breakers = []\<rparr>,
      pw_env = \<lparr>se_sim = \<lparr>ss_configs = [], ss_credits = []\<rparr>, se_time = 0, se_turns = turns, se_rands = [],
        se_hexes = [''00112233AABB''], se_in_transit = []\<rparr>\<rparr>"

definition sample_retry :: resilient_config where
  "sample_retry = \<lparr>rz_retry = \<lparr>rp_max_attempts = 2, rp_base_delay_seconds = 1/5, rp_max_delay_seconds = 2\<rparr>,
     rz_deadline_seconds = 8\<rparr>"

definition sample_call :: "turn list \<Rightarrow> credit_result result \<times> sim_env process" where
  "sample_call turns = resilient_credit_points sim_runtime sample_retry
     (HttpPartnerAdapter (sim_client (\<lambda>_. []))) ''AIR_B'' ''tr_1'' ''M-0001'' 600 (sample_world turns)"

lemma sample_start:
  "sim_ok (sample_world ts)" "sim_request_ok ''AIR_B'' ''tr_1'' ''M-0001'' 600 (sample_world ts)"
  "program_code_format ''AIR_B''" "\<not> sim_may_credit (sample_world ts) ''AIR_B'' ''tr_1''"
  by (simp_all add: sim_ok_def sim_confirmed_def sim_request_ok_def sim_fits_def sim_credited_def sim_may_credit_def
      sample_world_def sim_find_def program_code_format_def is_upper_def is_digit_def in_range_def)

text \<open>
  A lost response and a retry; two refused connections; a rejection at the first attempt; a delayed
  request followed by a refused connection, which stays unknown.
\<close>

theorem resilient_outcome_safe_witness:
  "sim_credited (snd (sample_call [faulty LoseResponse, plain_turn, faulty Deliver])) ''AIR_B'' ''tr_1''
   \<and> \<not> sim_may_credit (snd (sample_call [faulty RefuseConnect, plain_turn, faulty RefuseConnect])) ''AIR_B'' ''tr_1''
   \<and> \<not> sim_may_credit (snd (sample_call [switch_to MODE_REJECT])) ''AIR_B'' ''tr_1''
   \<and> map_sum id cd_outcome (fst (sample_call [faulty Delay, plain_turn, faulty RefuseConnect])) = Inr CREDIT_UNKNOWN"
proof -
  have out: "map_sum id (\<lambda>x. (cd_outcome x, cd_attempts x))
      (fst (sample_call [faulty LoseResponse, plain_turn, faulty Deliver])) = Inr (CREDIT_SUCCESS, 2)"
    "map_sum id (\<lambda>x. (cd_outcome x, cd_attempts x))
      (fst (sample_call [faulty RefuseConnect, plain_turn, faulty RefuseConnect])) = Inr (CREDIT_NOT_SENT, 2)"
    "map_sum id (\<lambda>x. (cd_outcome x, cd_attempts x)) (fst (sample_call [switch_to MODE_REJECT])) = Inr (CREDIT_REJECTED, 1)"
    "map_sum id cd_outcome (fst (sample_call [faulty Delay, plain_turn, faulty RefuseConnect])) = Inr CREDIT_UNKNOWN"
    by code_simp+
  have safe: "(oc = CREDIT_SUCCESS \<longrightarrow> sim_credited (snd (sample_call ts)) ''AIR_B'' ''tr_1'')
      \<and> (oc = CREDIT_NOT_SENT \<or> oc = CREDIT_REJECTED \<and> k = 1 \<longrightarrow> \<not> sim_may_credit (snd (sample_call ts)) ''AIR_B'' ''tr_1'')"
    if oc: "map_sum id (\<lambda>x. (cd_outcome x, cd_attempts x)) (fst (sample_call ts)) = Inr (oc, k)" for ts oc k
  proof -
    obtain res w' where call: "sample_call ts = (Inr res, w')" "cd_outcome res = oc" "cd_attempts res = k"
      using oc by (cases "sample_call ts"; cases "fst (sample_call ts)") auto
    then show ?thesis
      using resilient_outcome_safe [where cfg = sample_retry and res = res and w' = w',
          OF sim_stack.partner_stack_axioms sample_start(1) [of ts] sample_start(2) [of ts] sample_start(3)]
        sample_start(4) [of ts] by (auto simp: sample_call_def)
  qed
  show ?thesis
    using safe [OF out(1)] safe [OF out(2)] safe [OF out(3)] out(4) by simp
qed

definition half_open_world :: "sim_env process" where
  "half_open_world =
     put_breaker ''AIR_B'' ((new_breaker ''AIR_B'' 5 30)\<lparr>cb_state := HALF_OPEN\<rparr>) (sample_world [faulty Crash])"

theorem breaker_trial_leak_witness:
  "let w = snd (credit_loop sim_runtime sample_retry (HttpPartnerAdapter (sim_client (\<lambda>_. [])))
       ''AIR_B'' ''tr_1'' ''M-0001'' 600 8 False 0 None half_open_world)
   in \<forall>t. \<not> fst (allow_request t (the_breaker ''AIR_B'' w))"
proof -
  let ?w1 = "snd (process_allow sim_runtime ''AIR_B'' half_open_world)"
  let ?w2 = "snd (read_clock sim_runtime ?w1)"
  let ?call = "ad_credit_points (HttpPartnerAdapter (sim_client (\<lambda>_. []))) ''AIR_B'' ''tr_1'' ''M-0001'' 600"
  let ?w3 = "snd (rt_limit_credit sim_runtime (8 - 0) ?call ?w2)"
  have 1: "cb_state (the_breaker ''AIR_B'' half_open_world) = HALF_OPEN"
    "\<not> cb_trial_in_flight (the_breaker ''AIR_B'' half_open_world)"
    by (simp_all add: half_open_world_def new_breaker_def)
  have now: "fst (read_clock sim_runtime ?w1) = 0" by code_simp
  then have 2: "read_clock sim_runtime ?w1 = (0, ?w2)"
    by (metis prod.collapse)
  have "fst (rt_limit_credit sim_runtime (8 - 0) ?call ?w2) = Raised (OtherError ''DecodingError'')" by code_simp
  then have 3: "rt_limit_credit sim_runtime (8 - 0) ?call ?w2 = (Raised (OtherError ''DecodingError''), ?w3)"
    by (metis prod.collapse)
  have 4: "pw_breakers ?w3 = pw_breakers ?w2" by code_simp
  show ?thesis
    using breaker_trial_leak [OF 1 2 _ 3 4, of sample_retry False 0 None] by (simp add: Let_def)
qed




end
