(* ===== verification/Engine.thy ===== *)
theory Engine
  imports Saga Simulator
begin

text \<open>
  The engine as a system of interleaved transactions. A transaction that keeps the saga's invariant is an
  instance of the locale \<open>saga_transaction\<close>; every database step of the transfer service and the reconciler
  is one. \<open>txn\<close> is one committed transaction of any request or worker, in any order and with any partner
  answer, and \<open>reachable\<close> are the databases that any interleaving produces. The properties of the engine
  follow: over all interleavings, for each step, and for the composed operations.
\<close>

section \<open>Transactions\<close>

locale saga_transaction =
  fixes body :: "db \<Rightarrow> ('a \<times> db) result"
  assumes body_keeps: "saga_ok s \<Longrightarrow> body s = Inr (x, s') \<Longrightarrow> saga_step False s s'"
begin

lemma commits: "saga_ok s \<Longrightarrow> body s = Inr (x, s') \<Longrightarrow> unit_of_work body s = (Inr x, s')"
  using body_keeps [of s x s'] saga_books [of False s'] books_ok_commit [of s' s]
  by (simp add: unit_of_work_Inr_iff saga_step_def)

lemma unit_eq:
  assumes "saga_ok s"
  shows "unit_of_work body s = (case body s of Inl e \<Rightarrow> (Inl e, s) | Inr (x, s') \<Rightarrow> (Inr x, s'))"
  using commits [OF assms] by (auto simp: unit_of_work_def split: sum.splits prod.splits)

lemma unit_keeps: "saga_ok s \<Longrightarrow> saga_step False s (snd (unit_of_work body s))"
  using body_keeps saga_step_refl by (auto simp: unit_eq split: sum.splits)

end

interpretation debit_txn: saga_transaction "debit_source dbnow wall now tid u req key" for dbnow wall now tid u req key
  by unfold_locales (rule debit_source_keeps)

interpretation submit_txn: saga_transaction "mark_submitted dbnow wall now tid pc" for dbnow wall now tid pc
  by unfold_locales (rule mark_submitted_keeps)

interpretation outcome_txn: saga_transaction "apply_partner_outcome dbnow wall now vd tid r" for dbnow wall now vd tid r
  by unfold_locales (rule apply_partner_outcome_keeps)

interpretation interrupted_txn: saga_transaction "reverse_interrupted dbnow wall tid" for dbnow wall tid
  by unfold_locales (rule reverse_interrupted_keeps)

interpretation verify_txn: saga_transaction "apply_status policy dbnow wall now tid r" for policy dbnow wall now tid r
  by unfold_locales (rule apply_status_keeps)

interpretation claim_txn: saga_transaction "claim_due policy now busy n" for policy now busy n
  by unfold_locales (rule claim_due_keeps)

section \<open>Interleavings\<close>

inductive txn :: "db \<Rightarrow> db \<Rightarrow> bool" where
  txn_debit: "unit_of_work (debit_source dbnow wall now tid u req key) s = (Inr d, s') \<Longrightarrow> txn s s'"
| txn_submit: "unit_of_work (mark_submitted dbnow wall now tid pc) s = (Inr st, s') \<Longrightarrow> txn s s'"
| txn_outcome: "unit_of_work (apply_partner_outcome dbnow wall now vd tid r) s = (Inr st, s') \<Longrightarrow> txn s s'"
| txn_claim: "unit_of_work (claim_due policy now busy n) s = (Inr ids, s') \<Longrightarrow> txn s s'"
| txn_interrupted: "unit_of_work (reverse_interrupted dbnow wall tid) s = (Inr x, s') \<Longrightarrow> txn s s'"
| txn_verify: "unit_of_work (apply_status policy dbnow wall now tid pr) s = (Inr x, s') \<Longrightarrow> txn s s'"

inductive reachable :: "db \<Rightarrow> db \<Rightarrow> bool" where
  reachable_refl: "reachable s s"
| reachable_step: "reachable s s' \<Longrightarrow> txn s' s'' \<Longrightarrow> reachable s s''"

lemma txn_keeps: "txn s s' \<Longrightarrow> saga_ok s \<Longrightarrow> saga_step False s s'"
proof (induction rule: txn.induct)
  case (txn_debit dbnow wall now tid u req key s d s')
  then show ?case using debit_txn.unit_keeps [of s dbnow wall now tid u req key] by simp
next
  case (txn_submit dbnow wall now tid pc s st s')
  then show ?case using submit_txn.unit_keeps [of s dbnow wall now tid pc] by simp
next
  case (txn_outcome dbnow wall now vd tid r s st s')
  then show ?case using outcome_txn.unit_keeps [of s dbnow wall now vd tid r] by simp
next
  case (txn_claim policy now busy n s ids s')
  then show ?case using claim_txn.unit_keeps [of s policy now busy n] by simp
next
  case (txn_interrupted dbnow wall tid s x s')
  then show ?case using interrupted_txn.unit_keeps [of s dbnow wall tid] by simp
next
  case (txn_verify policy dbnow wall now tid pr s x s')
  then show ?case using verify_txn.unit_keeps [of s policy dbnow wall now tid pr] by simp
qed

lemma reachable_keeps: "reachable s s' \<Longrightarrow> saga_ok s \<Longrightarrow> saga_step False s s'"
proof (induction rule: reachable.induct)
  case (reachable_refl s)
  then show ?case by (rule saga_step_refl)
next
  case (reachable_step s s' s'')
  then show ?case
    using txn_keeps [of s' s''] extends_trans [of s s' s''] by (auto simp: saga_step_def)
qed

section \<open>Properties over all interleavings\<close>

text \<open>
  C1: in every database that any interleaving of requests and reconciliation workers reaches, whatever the
  partners answer, the four ledger queries find no violation.
\<close>

theorem ledger_always_consistent:
  assumes "saga_ok s0" "reachable s0 s"
  shows "find_violations s = [] \<and> (\<forall>pid. program_total s pid = 0)
    \<and> (\<forall>a \<in> set (db_accounts s). acc_owner_type a = USER \<longrightarrow> 0 \<le> acc_balance a)"
proof -
  have ok: "saga_ok s" using reachable_keeps [OF assms(2,1)] by (simp add: saga_step_def)
  then show ?thesis
    using program_totals_zero [of s] saga_books [OF ok] by (simp add: saga_inv_def ledger_ok_def accounts_ok_def)
qed

text \<open>
  C3: points are never in limbo. In every reachable database the balance of each program's clearing account
  is exactly the sum of the source points of that program's transfers that are not yet completed or
  reversed.
\<close>

theorem clearing_holds_in_flight_points:
  assumes "saga_ok s0" "reachable s0 s" "a \<in> set (db_accounts s)" "acc_account_type a = TRANSFER_CLEARING"
  shows "acc_balance a = sum_list (map tr_source_points (filter (\<lambda>t. tr_source_program_id t = acc_program_id a
    \<and> tr_status t \<in> {SOURCE_DEBITED, PARTNER_SUBMITTED, PENDING_VERIFICATION, MANUAL_REVIEW}) (db_transfers s)))"
  using reachable_keeps [OF assms(2,1)] assms(3,4)
  by (simp add: saga_step_def saga_inv_def clearing_ok_def in_flight_points_def in_flight_def)

text \<open>
  C2: every transfer is accounted for. In every reachable database a transfer has exactly the journals of its
  status (the debit; plus the settlement if it is COMPLETED; plus the reversal if it is REVERSED; never both),
  its audit trail is a run of the state machine that ends in its status, no user has two transfers for one
  idempotency key, and a transfer in verification has a time for its next check.
\<close>

theorem transfers_accounted_for:
  assumes "saga_ok s0" "reachable s0 s"
  shows "(\<forall>t \<in> set (db_transfers s).
      journals_of s (tr_id t) = (case tr_status t of COMPLETED \<Rightarrow> [TRANSFER_DEBIT, TRANSFER_SETTLE]
        | REVERSED \<Rightarrow> [TRANSFER_DEBIT, TRANSFER_REVERSAL] | _ \<Rightarrow> [TRANSFER_DEBIT])
      \<and> replay None (events_of s (tr_id t)) = Some (tr_status t)
      \<and> (tr_status t = PENDING_VERIFICATION \<longrightarrow> tr_next_verification_at t \<noteq> None))
    \<and> distinct (map (\<lambda>t. (tr_user_id t, tr_idempotency_key t)) (db_transfers s))"
proof -
  have "saga_ok s" using reachable_keeps [OF assms(2,1)] by (simp add: saga_step_def)
  then show ?thesis
    by (auto simp: saga_inv_def transfer_linked_def split: transfer_status.splits)
qed

text \<open>
  C17: history is never rewritten. Between any two reachable databases journals, entries and audit events are
  only appended, every transfer keeps its identity, amounts and rate snapshot, its status moves only along
  the table, and a transfer that is COMPLETED, REVERSED or in MANUAL_REVIEW stays so.
\<close>

theorem history_never_rewritten:
  assumes "saga_ok s0" "reachable s0 s"
  shows "(\<exists>es. db_entries s = db_entries s0 @ es) \<and> (\<exists>js. db_journals s = db_journals s0 @ js)
    \<and> (\<exists>evs. db_events s = db_events s0 @ evs)
    \<and> (\<forall>t \<in> set (db_transfers s0). \<exists>t' \<in> set (db_transfers s). same_identity t t'
         \<and> (\<exists>sts. moves (tr_status t) sts (tr_status t'))
         \<and> (tr_status t \<in> {COMPLETED, REVERSED, MANUAL_REVIEW} \<longrightarrow> tr_status t' = tr_status t))"
proof -
  have stay: "st' = st" if "moves st sts st'" "st \<in> {COMPLETED, REVERSED, MANUAL_REVIEW}" for st sts st'
    using that terminal_no_move terminal_iff by (induction rule: moves.induct) auto
  have "extends s0 s" using reachable_keeps [OF assms(2,1)] by (simp add: saga_step_def)
  then show ?thesis
    using stay unfolding extends_def progressed_def by meson
qed

end
