(* ===== verification/Resolution.thy ===== *)
theory Resolution
  imports Saga
begin

text \<open>
  Settling and reversing succeed. On a database where the saga's invariant holds and every program has its
  system accounts, the two resolutions of an open transfer never get stuck: the journal is accepted, the
  checks of the changed row hold and the step commits. The only obstacles are columns that are too short for
  the partner's text, and balances at the edge of \<^verbatim>\<open>BIGINT\<close>.
\<close>

section \<open>Preconditions\<close>

text \<open>Each program has its clearing and its settlement account (the docstring of \<^verbatim>\<open>Account\<close>).\<close>

definition systems_present :: "db \<Rightarrow> bool" where
  "systems_present s =
     (\<forall>p \<in> set (db_programs s). \<forall>ty \<in> {TRANSFER_CLEARING, PARTNER_SETTLEMENT}. \<exists>a \<in> set (db_accounts s).
        acc_owner_type a = SYSTEM \<and> acc_program_id a = prg_id p \<and> acc_account_type a = ty)"

text \<open>Room in every balance for the points of the transfer.\<close>

definition headroom :: "db \<Rightarrow> transfer \<Rightarrow> bool" where
  "headroom s t =
     (\<forall>a \<in> set (db_accounts s). \<bar>acc_balance a\<bar> + tr_source_points t + tr_destination_points t < 2 ^ 63)"

lemma get_system_account_row:
  assumes "saga_inv pend s" "system_row s pid ty a"
  shows "get_system_account s pid ty = Inr a"
proof (cases "get_system_account s pid ty")
  case (Inl e)
  with assms(2) show ?thesis
    by (auto simp: get_system_account_def result_simps find_None_iff system_row_def)
next
  case (Inr b)
  then have "b = a"
    using get_system_account_Inr [OF Inr] assms by (auto simp: saga_inv_def system_unique_def system_row_def)
  with Inr show ?thesis by simp
qed

lemma system_row_exists:
  assumes "saga_inv pend s" "systems_present s" "a \<in> set (db_accounts s)" "ty \<in> {TRANSFER_CLEARING, PARTNER_SETTLEMENT}"
  shows "\<exists>b. system_row s (acc_program_id a) ty b"
proof -
  obtain p where "p \<in> set (db_programs s)" "prg_id p = acc_program_id a"
    using assms(1,3) by (fastforce simp: saga_inv_def ledger_ok_def)
  with assms(2,4) show ?thesis
    by (fastforce simp: systems_present_def system_row_def)
qed

lemma user_row_exists:
  assumes "ledger_ok s" "owns s u aid pid"
  shows "\<exists>a. user_row_of s u aid pid a"
proof -
  obtain a where a: "a \<in> set (db_accounts s)" "acc_id a = aid"
    using assms(2) by (auto simp: owns_def list_ex_iff)
  with owns_row [OF assms a] show ?thesis
    by (auto simp: user_row_of_def)
qed

lemma locked_row_eq:
  assumes "ledger_ok s" "lock_accounts_for_update s ids = Inr rows" "a \<in> set (db_accounts s)" "acc_id a \<in> set ids"
  shows "locked_row rows (acc_id a) = Inr a"
proof -
  have rows: "rows = map (\<lambda>a. (acc_id a, a)) (sort_key acc_id (filter (\<lambda>a. acc_id a \<in> set ids) (db_accounts s)))"
    using assms(2) by (auto simp: lock_accounts_for_update_eq split: if_splits)
  have "(acc_id a, a) \<in> set rows"
    using assms(3,4) by (auto simp: rows)
  moreover have "distinct (map fst rows)"
    using assms(1) by (auto simp: rows comp_def ledger_ok_def accounts_ok_def distinct_map inj_on_def)
  ultimately show ?thesis
    by (simp add: locked_row_def)
qed

lemma lock_accounts_succeeds:
  "set ids \<subseteq> acc_id ` set (db_accounts s) \<Longrightarrow> \<exists>rows. lock_accounts_for_update s ids = Inr rows"
  by (simp add: lock_accounts_for_update_eq)

lemma journal_missing:
  assumes "saga_inv pend s" "t \<in> set (db_transfers s)" "jt \<notin> set (expected_journals (tr_status t))" "jt \<noteq> SEED"
  shows "\<forall>c \<in> set (journal_checks s jt (Some (tr_id t))). fst c"
proof -
  have "jt \<notin> set (journals_of s (tr_id t))"
    using assms by (simp add: saga_inv_def transfer_linked_def)
  then show ?thesis
    using assms(2,4) by (auto simp: journal_checks_def journals_of_def list_ex_iff)
qed

lemma account_in_program_row: "a \<in> set (db_accounts s) \<Longrightarrow> account_in_program s (acc_id a) (acc_program_id a)"
  by (auto simp: account_in_program_def list_ex_iff)

section \<open>Posting the two resolutions\<close>

lemma net_bounds:
  assumes "\<bar>b\<bar> + sp + dp < 2 ^ 63" "0 < sp" "0 < dp" "d \<in> {0, sp, - sp, dp, - dp}"
  shows "in_bigint (b + d)"
  using assms by (auto simp: in_bigint_def)

lemma settle_posts:
  assumes ok: "saga_inv pend s" "t \<in> set (db_transfers s)" and room: "headroom s t"
    and st: "tr_status t \<in> {PARTNER_SUBMITTED, PENDING_VERIFICATION}"
    and rows: "system_row s (tr_source_program_id t) TRANSFER_CLEARING a1"
      "system_row s (tr_source_program_id t) PARTNER_SETTLEMENT a2"
      "system_row s (tr_destination_program_id t) PARTNER_SETTLEMENT a3"
      "user_row_of s (tr_user_id t) (tr_destination_account_id t) (tr_destination_program_id t) a4"
  shows "post_journal dbnow s TRANSFER_SETTLE (settle_postings a1 a2 a3 a4 t) (Some (tr_id t)) =
    Inr (new_journal dbnow s TRANSFER_SETTLE (Some (tr_id t)),
         posted dbnow s TRANSFER_SETTLE (settle_postings a1 a2 a3 a4 t) (Some (tr_id t)))"
proof -
  note D = saga_transferD [OF ok]
  have in4: "a1 \<in> set (db_accounts s)" "a2 \<in> set (db_accounts s)" "a3 \<in> set (db_accounts s)" "a4 \<in> set (db_accounts s)"
    and prg: "acc_program_id a1 = tr_source_program_id t" "acc_program_id a2 = tr_source_program_id t"
      "acc_program_id a3 = tr_destination_program_id t" "acc_program_id a4 = tr_destination_program_id t"
    using rows by (simp_all add: system_row_def user_row_of_def)
  have ids: "acc_id x = acc_id y \<longleftrightarrow> x = y" if "x \<in> set (db_accounts s)" "y \<in> set (db_accounts s)" for x y
    using account_ids_inj [OF D(2) that] .
  have neq: "a1 \<noteq> a2" "a1 \<noteq> a3" "a1 \<noteq> a4" "a2 \<noteq> a3" "a2 \<noteq> a4" "a3 \<noteq> a4"
    using rows D(5) by (auto simp: system_row_def user_row_of_def)
  have net: "account_net (settle_postings a1 a2 a3 a4 t) (acc_id a) =
      (if a = a1 then - tr_source_points t else if a = a2 then tr_source_points t
       else if a = a3 then - tr_destination_points t else if a = a4 then tr_destination_points t else 0)"
    if "a \<in> set (db_accounts s)" for a
    using ids that in4 neq by (auto simp: settle_postings_def)
  have big: "in_bigint (tr_source_points t)" "in_bigint (tr_destination_points t)"
    using D(1) by (simp_all add: transfer_linked_def transfer_ranges_def)
  have "postable s TRANSFER_SETTLE (settle_postings a1 a2 a3 a4 t) (Some (tr_id t))"
    unfolding postable_def
    using journal_missing [OF ok, of TRANSFER_SETTLE] st D(5-7) prg big in4 account_in_program_row
    by (fastforce simp: settle_postings_def validate_journal_Inr_iff)
  moreover have "accounts_ok s" "\<not> overdrawn s (settle_postings a1 a2 a3 a4 t)"
    using D(2,6,7) rows
    by (auto simp: ledger_ok_def overdrawn_def net accounts_ok_def system_row_def user_row_of_def)
  moreover have "\<forall>a \<in> set (db_accounts s). in_bigint (acc_balance a + account_net (settle_postings a1 a2 a3 a4 t) (acc_id a))"
  proof
    fix a assume a: "a \<in> set (db_accounts s)"
    show "in_bigint (acc_balance a + account_net (settle_postings a1 a2 a3 a4 t) (acc_id a))"
      unfolding net [OF a] using room a D(6,7)
      by (intro net_bounds [of _ "tr_source_points t" "tr_destination_points t"]) (auto simp: headroom_def)
  qed
  ultimately show ?thesis
    by (simp add: post_journal_eq)
qed

lemma reverse_posts:
  assumes ok: "saga_inv pend s" "t \<in> set (db_transfers s)" and room: "headroom s t"
    and st: "tr_status t \<in> {SOURCE_DEBITED, PARTNER_SUBMITTED, PENDING_VERIFICATION}"
    and rows: "system_row s (tr_source_program_id t) TRANSFER_CLEARING a1"
      "user_row_of s (tr_user_id t) (tr_source_account_id t) (tr_source_program_id t) a2"
  shows "post_journal dbnow s TRANSFER_REVERSAL (reverse_postings a1 a2 t) (Some (tr_id t)) =
    Inr (new_journal dbnow s TRANSFER_REVERSAL (Some (tr_id t)),
         posted dbnow s TRANSFER_REVERSAL (reverse_postings a1 a2 t) (Some (tr_id t)))"
proof -
  note D = saga_transferD [OF ok]
  have in2: "a1 \<in> set (db_accounts s)" "a2 \<in> set (db_accounts s)"
    and prg: "acc_program_id a1 = tr_source_program_id t" "acc_program_id a2 = tr_source_program_id t"
    using rows by (simp_all add: system_row_def user_row_of_def)
  have ids: "acc_id x = acc_id y \<longleftrightarrow> x = y" if "x \<in> set (db_accounts s)" "y \<in> set (db_accounts s)" for x y
    using account_ids_inj [OF D(2) that] .
  have neq: "a1 \<noteq> a2"
    using rows by (auto simp: system_row_def user_row_of_def)
  have net: "account_net (reverse_postings a1 a2 t) (acc_id a) =
      (if a = a1 then - tr_source_points t else if a = a2 then tr_source_points t else 0)"
    if "a \<in> set (db_accounts s)" for a
    using ids that in2 neq by (auto simp: reverse_postings_def)
  have big: "in_bigint (tr_source_points t)"
    using D(1) by (simp add: transfer_linked_def transfer_ranges_def)
  have "postable s TRANSFER_REVERSAL (reverse_postings a1 a2 t) (Some (tr_id t))"
    unfolding postable_def
    using journal_missing [OF ok, of TRANSFER_REVERSAL] st D(5-7) prg big in2 account_in_program_row
    by (fastforce simp: reverse_postings_def validate_journal_Inr_iff)
  moreover have "accounts_ok s" "\<not> overdrawn s (reverse_postings a1 a2 t)"
    using D(2,6) rows
    by (auto simp: ledger_ok_def overdrawn_def net accounts_ok_def system_row_def user_row_of_def)
  moreover have "\<forall>a \<in> set (db_accounts s). in_bigint (acc_balance a + account_net (reverse_postings a1 a2 t) (acc_id a))"
  proof
    fix a assume a: "a \<in> set (db_accounts s)"
    show "in_bigint (acc_balance a + account_net (reverse_postings a1 a2 t) (acc_id a))"
      unfolding net [OF a] using room a D(6,7)
      by (intro net_bounds [of _ "tr_source_points t" "tr_destination_points t"]) (auto simp: headroom_def)
  qed
  ultimately show ?thesis
    by (simp add: post_journal_eq)
qed

section \<open>The resolutions commit\<close>

text \<open>The flush of a changed row whose checks hold, with an event whose reason fits its column.\<close>

lemma flush_changes_succeeds:
  assumes "list_all fst (transfer_ranges t1 @ transfer_checks t1)" "length (pe_reason e) \<le> 200"
    and "pe_transfer_id e = tr_id t" "tr_id t1 = tr_id t" "t \<in> set (db_transfers s)" "t1 \<noteq> t"
  shows "\<exists>t'. (t' = t1 \<or> t' = t1\<lparr>tr_updated_at := dbnow\<rparr>) \<and> flush_changes dbnow s t t1 [e] =
    Inr (s\<lparr>db_transfers := update_where (\<lambda>r. tr_id r = tr_id t) (\<lambda>_. t') (db_transfers s),
      db_events := db_events s @ [added_event dbnow s e], db_next_event_id := db_next_event_id s + 1\<rparr>)"
proof -
  define t' where "t' = touch_updated_at dbnow t t1"
  have t': "t' = t1 \<or> t' = t1\<lparr>tr_updated_at := dbnow\<rparr>"
    by (simp add: t'_def touch_updated_at_def)
  then have checks: "\<forall>c \<in> set (transfer_ranges t'). fst c" "\<forall>c \<in> set (transfer_checks t'). fst c"
    using assms(1) by (auto simp: list_all_iff transfer_ranges_def transfer_checks_def)
  let ?s1 = "s\<lparr>db_transfers := update_where (\<lambda>r. tr_id r = tr_id t) (\<lambda>_. t') (db_transfers s)\<rparr>"
  have "flush_transfer dbnow s t t1 = Inr ?s1"
    using checks assms(6) checked_Inr_iff [of "transfer_checks t'"] ranged_Inr_iff [of "transfer_ranges t'"]
    by (simp add: flush_transfer_def t'_def [symmetric])
  moreover have "list_ex (\<lambda>r. tr_id r = tr_id t) (db_transfers ?s1)"
  proof -
    have "t' \<in> set (db_transfers ?s1)"
      using assms(5) by (force simp: set_update_where)
    moreover have "tr_id t' = tr_id t"
      using assms(4) t' by auto
    ultimately show ?thesis unfolding list_ex_iff by blast
  qed
  moreover have "added_event dbnow ?s1 e = added_event dbnow s e"
    by (simp add: added_event_def)
  ultimately have "flush_changes dbnow s t t1 [e] = Inr (?s1\<lparr>db_events := db_events s @ [added_event dbnow s e],
      db_next_event_id := db_next_event_id s + 1\<rparr>)"
    using assms(2,3) by (simp add: flush_changes_def flush_event_Inr_iff bindE_Inr_iff)
  then show ?thesis using t' by auto
qed

lemma settled_row_ok:
  assumes "transfer_linked pend s t" "c \<noteq> []" "length c \<le> 128"
  shows "list_all fst (transfer_ranges (t\<lparr>tr_partner_confirmation_id := Some c, tr_next_verification_at := None,
      tr_status := COMPLETED, tr_updated_at := m, tr_completed_at := Some m\<rparr>) @
    transfer_checks (t\<lparr>tr_partner_confirmation_id := Some c, tr_next_verification_at := None,
      tr_status := COMPLETED, tr_updated_at := m, tr_completed_at := Some m\<rparr>))"
  using assms by (auto simp: transfer_linked_def transfer_ranges_def transfer_checks_def fits_def)

lemma reversed_row_ok:
  assumes "transfer_linked pend s t" "length msg \<le> 500"
  shows "list_all fst (transfer_ranges (t\<lparr>tr_failure_code := Some fc, tr_failure_message := Some msg,
      tr_next_verification_at := None, tr_status := REVERSED, tr_updated_at := m, tr_completed_at := Some m\<rparr>) @
    transfer_checks (t\<lparr>tr_failure_code := Some fc, tr_failure_message := Some msg,
      tr_next_verification_at := None, tr_status := REVERSED, tr_updated_at := m, tr_completed_at := Some m\<rparr>))"
  using assms by (auto simp: transfer_linked_def transfer_ranges_def transfer_checks_def fits_def)

text \<open>
  Settling an open transfer. \<open>settled\<close> is the database it leaves: the settlement journal posted, the row
  completed with the partner's confirmation, and the event of the move.
\<close>

lemma settle_commits:
  assumes ok: "saga_inv pend s" "t \<in> set (db_transfers s)" "systems_present s" "headroom s t"
    and st: "tr_status t \<in> {PARTNER_SUBMITTED, PENDING_VERIFICATION}"
    and c: "c \<noteq> []" "length c \<le> 128" "length reason \<le> 200"
  shows "\<exists>a1 a2 a3 a4 t1 e t'. system_row s (tr_source_program_id t) TRANSFER_CLEARING a1
    \<and> system_row s (tr_source_program_id t) PARTNER_SETTLEMENT a2
    \<and> system_row s (tr_destination_program_id t) PARTNER_SETTLEMENT a3
    \<and> user_row_of s (tr_user_id t) (tr_destination_account_id t) (tr_destination_program_id t) a4
    \<and> settle_transfer wall dbnow s t c reason md =
        Inr ((t1, e), posted dbnow s TRANSFER_SETTLE (settle_postings a1 a2 a3 a4 t) (Some (tr_id t)))
    \<and> tr_status t' = COMPLETED \<and> tr_partner_confirmation_id t' = Some c \<and> tr_completed_at t' = Some wall
    \<and> same_identity t t'
    \<and> commit_step dbnow t ((t1, e), posted dbnow s TRANSFER_SETTLE (settle_postings a1 a2 a3 a4 t) (Some (tr_id t))) =
        Inr (COMPLETED, (posted dbnow s TRANSFER_SETTLE (settle_postings a1 a2 a3 a4 t) (Some (tr_id t)))
          \<lparr>db_transfers := update_where (\<lambda>r. tr_id r = tr_id t) (\<lambda>_. t') (db_transfers s),
           db_events := db_events s @ [added_event dbnow s e], db_next_event_id := db_next_event_id s + 1\<rparr>)"
proof -
  note D = saga_transferD [OF ok(1,2)]
  obtain a2' a4 where u: "user_row_of s (tr_user_id t) (tr_source_account_id t) (tr_source_program_id t) a2'"
    "user_row_of s (tr_user_id t) (tr_destination_account_id t) (tr_destination_program_id t) a4"
    using user_row_exists D(2-4) by blast
  then have sys: "\<exists>b. system_row s (tr_source_program_id t) TRANSFER_CLEARING b"
    "\<exists>b. system_row s (tr_source_program_id t) PARTNER_SETTLEMENT b"
    "\<exists>b. system_row s (tr_destination_program_id t) PARTNER_SETTLEMENT b"
    using system_row_exists [OF ok(1,3), of a2'] system_row_exists [OF ok(1,3), of a4]
    by (simp_all add: user_row_of_def)
  then obtain a1 a2 a3 where rows: "system_row s (tr_source_program_id t) TRANSFER_CLEARING a1"
    "system_row s (tr_source_program_id t) PARTNER_SETTLEMENT a2"
    "system_row s (tr_destination_program_id t) PARTNER_SETTLEMENT a3"
    by blast
  let ?s1 = "posted dbnow s TRANSFER_SETTLE (settle_postings a1 a2 a3 a4 t) (Some (tr_id t))"
  let ?t1 = "t\<lparr>tr_partner_confirmation_id := Some c, tr_next_verification_at := None,
      tr_status := COMPLETED, tr_updated_at := wall, tr_completed_at := Some wall\<rparr>"
  define e where "e = \<lparr>pe_transfer_id = tr_id t, pe_from_status = Some (tr_status t), pe_to_status = COMPLETED,
      pe_reason = reason, pe_metadata = dict_set ''confirmation_id'' (JStr c) md\<rparr>"
  have te: "transition wall (t\<lparr>tr_partner_confirmation_id := Some c, tr_next_verification_at := None\<rparr>) COMPLETED reason
      (dict_set ''confirmation_id'' (JStr c) md) None = Inr (?t1, e)"
    using st by (auto simp: transition_Inr_iff can_transition_def e_def)
  have in4: "a1 \<in> set (db_accounts s)" "a2 \<in> set (db_accounts s)" "a3 \<in> set (db_accounts s)" "a4 \<in> set (db_accounts s)"
    and a4: "acc_id a4 = tr_destination_account_id t"
    using rows u(2) by (simp_all add: system_row_def user_row_of_def)
  obtain locked where locked: "lock_accounts_for_update s [acc_id a1, acc_id a2, acc_id a3, acc_id a4] = Inr locked"
    using lock_accounts_succeeds [of "[acc_id a1, acc_id a2, acc_id a3, acc_id a4]" s] in4 by auto
  have row4: "locked_row locked (tr_destination_account_id t) = Inr a4"
    using locked_row_eq [OF D(2) locked in4(4)] a4 by simp
  have settle: "settle_transfer wall dbnow s t c reason md = Inr ((?t1, e), ?s1)"
    using get_system_account_row [OF ok(1) rows(1)] get_system_account_row [OF ok(1) rows(2)]
      get_system_account_row [OF ok(1) rows(3)] locked locked_row_eq [OF D(2) locked] row4 in4 a4
      settle_posts [OF ok(1,2,4) st rows u(2), of dbnow] te
    by (simp add: settle_transfer_def settle_postings_def)
  have e: "length (pe_reason e) \<le> 200" "pe_transfer_id e = tr_id t"
    using c(3) by (simp_all add: e_def)
  have t1: "tr_id ?t1 = tr_id t" "t \<in> set (db_transfers ?s1)"
    using ok(2) by simp_all
  have "tr_status ?t1 \<noteq> tr_status t" using st by auto
  then have ne: "?t1 \<noteq> t" by metis
  obtain t' where t': "t' = ?t1 \<or> t' = ?t1\<lparr>tr_updated_at := dbnow\<rparr>"
    "flush_changes dbnow ?s1 t ?t1 [e] = Inr (?s1\<lparr>db_transfers := update_where (\<lambda>r. tr_id r = tr_id t) (\<lambda>_. t') (db_transfers ?s1),
      db_events := db_events ?s1 @ [added_event dbnow ?s1 e], db_next_event_id := db_next_event_id ?s1 + 1\<rparr>)"
    using flush_changes_succeeds [OF settled_row_ok [OF D(1) c(1,2)] e t1 ne] by blast
  have "added_event dbnow ?s1 e = added_event dbnow s e"
    by (simp add: added_event_def)
  then have "commit_step dbnow t ((?t1, e), ?s1) = Inr (COMPLETED, ?s1\<lparr>db_transfers :=
        update_where (\<lambda>r. tr_id r = tr_id t) (\<lambda>_. t') (db_transfers s),
      db_events := db_events s @ [added_event dbnow s e], db_next_event_id := db_next_event_id s + 1\<rparr>)"
    using t'(2) by (simp add: commit_step_Inr)
  moreover have "tr_status t' = COMPLETED \<and> tr_partner_confirmation_id t' = Some c \<and> tr_completed_at t' = Some wall
      \<and> same_identity t t'"
    using t'(1) by (auto simp: same_identity_def)
  ultimately show ?thesis
    using rows u(2) settle by blast
qed

lemma reverse_commits:
  assumes ok: "saga_inv pend s" "t \<in> set (db_transfers s)" "systems_present s" "headroom s t"
    and st: "tr_status t \<in> {SOURCE_DEBITED, PARTNER_SUBMITTED, PENDING_VERIFICATION}"
    and c: "length msg \<le> 500" "length reason \<le> 200"
  shows "\<exists>a1 a2 t1 e t'. system_row s (tr_source_program_id t) TRANSFER_CLEARING a1
    \<and> user_row_of s (tr_user_id t) (tr_source_account_id t) (tr_source_program_id t) a2
    \<and> reverse_transfer wall dbnow s t fc msg reason md =
        Inr ((t1, e), posted dbnow s TRANSFER_REVERSAL (reverse_postings a1 a2 t) (Some (tr_id t)))
    \<and> tr_status t' = REVERSED \<and> tr_failure_code t' = Some fc \<and> tr_completed_at t' = Some wall
    \<and> same_identity t t'
    \<and> commit_step dbnow t ((t1, e), posted dbnow s TRANSFER_REVERSAL (reverse_postings a1 a2 t) (Some (tr_id t))) =
        Inr (REVERSED, (posted dbnow s TRANSFER_REVERSAL (reverse_postings a1 a2 t) (Some (tr_id t)))
          \<lparr>db_transfers := update_where (\<lambda>r. tr_id r = tr_id t) (\<lambda>_. t') (db_transfers s),
           db_events := db_events s @ [added_event dbnow s e], db_next_event_id := db_next_event_id s + 1\<rparr>)"
proof -
  note D = saga_transferD [OF ok(1,2)]
  obtain a2 where u: "user_row_of s (tr_user_id t) (tr_source_account_id t) (tr_source_program_id t) a2"
    using user_row_exists D(2,3) by blast
  then have "\<exists>b. system_row s (tr_source_program_id t) TRANSFER_CLEARING b"
    using system_row_exists [OF ok(1,3), of a2] by (simp add: user_row_of_def)
  then obtain a1 where row: "system_row s (tr_source_program_id t) TRANSFER_CLEARING a1"
    by blast
  let ?s1 = "posted dbnow s TRANSFER_REVERSAL (reverse_postings a1 a2 t) (Some (tr_id t))"
  let ?t1 = "t\<lparr>tr_failure_code := Some fc, tr_failure_message := Some msg, tr_next_verification_at := None,
      tr_status := REVERSED, tr_updated_at := wall, tr_completed_at := Some wall\<rparr>"
  define e where "e = \<lparr>pe_transfer_id = tr_id t, pe_from_status = Some (tr_status t), pe_to_status = REVERSED,
      pe_reason = reason, pe_metadata = dict_set ''failure_code'' (JStr (failure_code_text fc)) md\<rparr>"
  have te: "transition wall (t\<lparr>tr_failure_code := Some fc, tr_failure_message := Some msg, tr_next_verification_at := None\<rparr>)
      REVERSED reason (dict_set ''failure_code'' (JStr (failure_code_text fc)) md) None = Inr (?t1, e)"
    using st by (auto simp: transition_Inr_iff can_transition_def e_def)
  have in2: "a1 \<in> set (db_accounts s)" "a2 \<in> set (db_accounts s)" and a2: "acc_id a2 = tr_source_account_id t"
    using row u by (simp_all add: system_row_def user_row_of_def)
  obtain locked where locked: "lock_accounts_for_update s [acc_id a1, acc_id a2] = Inr locked"
    using lock_accounts_succeeds [of "[acc_id a1, acc_id a2]" s] in2 by auto
  have row2: "locked_row locked (tr_source_account_id t) = Inr a2"
    using locked_row_eq [OF D(2) locked in2(2)] a2 by simp
  have rev: "reverse_transfer wall dbnow s t fc msg reason md = Inr ((?t1, e), ?s1)"
    using get_system_account_row [OF ok(1) row] locked locked_row_eq [OF D(2) locked in2(1)] row2 a2
      reverse_posts [OF ok(1,2,4) st row u, of dbnow] te
    by (simp add: reverse_transfer_def reverse_postings_def)
  have e: "length (pe_reason e) \<le> 200" "pe_transfer_id e = tr_id t"
    using c(2) by (simp_all add: e_def)
  have t1: "tr_id ?t1 = tr_id t" "t \<in> set (db_transfers ?s1)"
    using ok(2) by simp_all
  have "tr_status ?t1 \<noteq> tr_status t" using st by auto
  then have ne: "?t1 \<noteq> t" by metis
  obtain t' where t': "t' = ?t1 \<or> t' = ?t1\<lparr>tr_updated_at := dbnow\<rparr>"
    "flush_changes dbnow ?s1 t ?t1 [e] = Inr (?s1\<lparr>db_transfers := update_where (\<lambda>r. tr_id r = tr_id t) (\<lambda>_. t') (db_transfers ?s1),
      db_events := db_events ?s1 @ [added_event dbnow ?s1 e], db_next_event_id := db_next_event_id ?s1 + 1\<rparr>)"
    using flush_changes_succeeds [OF reversed_row_ok [OF D(1) c(1)] e t1 ne] by blast
  have "added_event dbnow ?s1 e = added_event dbnow s e"
    by (simp add: added_event_def)
  then have "commit_step dbnow t ((?t1, e), ?s1) = Inr (REVERSED, ?s1\<lparr>db_transfers :=
        update_where (\<lambda>r. tr_id r = tr_id t) (\<lambda>_. t') (db_transfers s),
      db_events := db_events s @ [added_event dbnow s e], db_next_event_id := db_next_event_id s + 1\<rparr>)"
    using t'(2) by (simp add: commit_step_Inr)
  moreover have "tr_status t' = REVERSED \<and> tr_failure_code t' = Some fc \<and> tr_completed_at t' = Some wall
      \<and> same_identity t t'"
    using t'(1) by (auto simp: same_identity_def)
  ultimately show ?thesis
    using row u rev by blast
qed

end
