(* ===== verification/Outcomes.thy ===== *)
theory Outcomes
  imports Engine Resolution
begin

text \<open>
  What each step of a transfer does, as the user and the ledger see it: the debit, and the four outcomes of
  the partner call. Every statement is about the committed transaction (\<open>unit_of_work\<close>), gives the new
  balance of every account, and covers success and failure.
\<close>

section \<open>A sample run\<close>

text \<open>A transfer of 900 points debited at 9 and submitted at 10, with the databases written out.\<close>

definition sample_request :: transfer_request where
  "sample_request = \<lparr>rq_source_program = ''CARD_A'', rq_destination_program = ''AIR_B'', rq_source_points = 900\<rparr>"

definition sample_row :: "transfer_status \<Rightarrow> moment \<Rightarrow> transfer" where
  "sample_row st m = sample_transfer\<lparr>tr_rate_snapshot := [(''rate_id'', JInt 1), (''version'', JInt 1),
     (''numerator'', JInt 2), (''denominator'', JInt 3), (''bonus_id'', JNull), (''bonus_bps'', JNull)],
     tr_status := st, tr_created_at := 9, tr_updated_at := m\<rparr>"

definition sample_event :: "int \<Rightarrow> transfer_status option \<Rightarrow> transfer_status \<Rightarrow> string \<Rightarrow> (string \<times> json) list \<Rightarrow> moment \<Rightarrow> transfer_event" where
  "sample_event i st st' reason md m = \<lparr>ev_id = i, ev_transfer_id = sample_id, ev_from_status = st,
     ev_to_status = st', ev_reason = reason, ev_metadata = md, ev_created_at = m\<rparr>"

definition debited_db :: db where
  "debited_db = (posted 9 sample_db TRANSFER_DEBIT (sample_postings 900) (Some sample_id))\<lparr>
     db_transfers := [sample_row SOURCE_DEBITED 9],
     db_events := [sample_event 1 None PENDING ''transfer_requested'' [] 9,
       sample_event 2 (Some PENDING) SOURCE_DEBITED ''source_points_debited'' [(''journal_id'', JInt 2)] 9],
     db_next_event_id := 3\<rparr>"

definition submitted_db :: db where
  "submitted_db = debited_db\<lparr>db_transfers := [sample_row PARTNER_SUBMITTED 10],
     db_events := db_events debited_db @ [sample_event 3 (Some SOURCE_DEBITED) PARTNER_SUBMITTED
       ''partner_credit_requested'' [(''partner'', JStr ''AIR_B'')] 10],
     db_next_event_id := 4\<rparr>"

lemma sample_debit_run: "debit_source 9 9 9 sample_id ''user_1'' sample_request ''key-1'' sample_db =
    Inr (\<lparr>dt_transfer_id = sample_id, dt_partner_code = ''AIR_B'', dt_member_id = ''M-0001'',
          dt_destination_points = 600\<rparr>, debited_db)"
  by code_simp

lemma sample_submit_run: "mark_submitted 10 10 10 sample_id ''AIR_B'' debited_db = Inr (PARTNER_SUBMITTED, submitted_db)"
  by code_simp

lemma debited_ok: "saga_ok debited_db"
  using debit_source_keeps [OF sample_db_saga_ok sample_debit_run] by (simp add: saga_step_def)

lemma debited_reachable: "reachable sample_db debited_db"
  by (rule reachable_step [OF reachable_refl txn_debit [OF debit_txn.commits [OF sample_db_saga_ok sample_debit_run]]])

lemma submitted_reachable: "reachable sample_db submitted_db"
  by (rule reachable_step [OF debited_reachable txn_submit [OF submit_txn.commits [OF debited_ok sample_submit_run]]])

lemma submitted_ok: "saga_ok submitted_db"
  using reachable_keeps [OF submitted_reachable sample_db_saga_ok] by (simp add: saga_step_def)

lemma submitted_transfers [simp]: "db_transfers submitted_db = [sample_row PARTNER_SUBMITTED 10]"
  by (simp add: submitted_db_def)

lemma sample_row_simps [simp]: "tr_id (sample_row st m) = sample_id" "tr_status (sample_row st m) = st"
  by (simp_all add: sample_row_def sample_transfer_def)

lemma submitted_facts: "systems_present submitted_db" "headroom submitted_db (sample_row PARTNER_SUBMITTED 10)"
  by code_simp+

section \<open>Witnesses of the properties over all interleavings\<close>

theorem ledger_always_consistent_witness:
  "find_violations submitted_db = [] \<and> program_total submitted_db 1 = 0"
  using ledger_always_consistent [OF sample_db_saga_ok submitted_reachable] by simp

theorem transfers_accounted_for_witness: "journals_of submitted_db sample_id = [TRANSFER_DEBIT]"
  using transfers_accounted_for [OF sample_db_saga_ok submitted_reachable] by simp

theorem history_never_rewritten_witness:
  "\<exists>es. db_entries submitted_db = db_entries sample_db @ es"
  using history_never_rewritten [OF sample_db_saga_ok submitted_reachable] by blast

theorem clearing_holds_in_flight_points_witness:
  "acc_balance (hd (db_accounts submitted_db)) = 900"
proof -
  have 1: "hd (db_accounts submitted_db) \<in> set (db_accounts submitted_db)"
    "acc_account_type (hd (db_accounts submitted_db)) = TRANSFER_CLEARING"
    "acc_program_id (hd (db_accounts submitted_db)) = tr_source_program_id (sample_row PARTNER_SUBMITTED 10)"
    "tr_source_points (sample_row PARTNER_SUBMITTED 10) = 900"
    by code_simp+
  show ?thesis
    using clearing_holds_in_flight_points [OF sample_db_saga_ok submitted_reachable 1(1,2)] 1(3,4) by simp
qed

section \<open>Balances after a resolution\<close>

text \<open>What settling and reversing change of an account, by what the account is.\<close>

definition settle_delta :: "transfer \<Rightarrow> account \<Rightarrow> int" where
  "settle_delta t a =
     (if acc_id a = tr_destination_account_id t then tr_destination_points t
      else if acc_account_type a = TRANSFER_CLEARING \<and> acc_program_id a = tr_source_program_id t then - tr_source_points t
      else if acc_account_type a = PARTNER_SETTLEMENT \<and> acc_program_id a = tr_source_program_id t then tr_source_points t
      else if acc_account_type a = PARTNER_SETTLEMENT \<and> acc_program_id a = tr_destination_program_id t
        then - tr_destination_points t
      else 0)"

definition reverse_delta :: "transfer \<Rightarrow> account \<Rightarrow> int" where
  "reverse_delta t a =
     (if acc_id a = tr_source_account_id t then tr_source_points t
      else if acc_account_type a = TRANSFER_CLEARING \<and> acc_program_id a = tr_source_program_id t then - tr_source_points t
      else 0)"

text \<open>Every account keeps its identity and changes by \<open>d\<close>.\<close>

definition balances_change :: "db \<Rightarrow> (account \<Rightarrow> int) \<Rightarrow> db \<Rightarrow> bool" where
  "balances_change s d s' =
     (map (\<lambda>a. (acc_id a, acc_owner_type a, acc_user_id a, acc_program_id a, acc_account_type a, acc_balance a)) (db_accounts s')
      = map (\<lambda>a. (acc_id a, acc_owner_type a, acc_user_id a, acc_program_id a, acc_account_type a, acc_balance a + d a))
          (db_accounts s))"

text \<open>
  Exactly one journal was posted, of the given type, for the given transfer and with the given directions
  and amounts; exactly these audit events were added.
\<close>

definition journal_posted :: "db \<Rightarrow> journal_type \<Rightarrow> string \<Rightarrow> (entry_direction \<times> int) list \<Rightarrow> db \<Rightarrow> bool" where
  "journal_posted s jt tid legs s' =
     (let j = last (db_journals s'); es = drop (length (db_entries s)) (db_entries s') in
      db_journals s' = db_journals s @ [j] \<and> jr_journal_type j = jt \<and> jr_transfer_id j = Some tid
      \<and> db_entries s' = db_entries s @ es \<and> map (\<lambda>e. (en_direction e, en_amount e)) es = legs
      \<and> list_all (\<lambda>e. en_journal_id e = jr_id j) es)"

definition events_added ::
  "db \<Rightarrow> (string \<times> transfer_status option \<times> transfer_status \<times> string) list \<Rightarrow> db \<Rightarrow> bool" where
  "events_added s rows s' =
     (let es = drop (length (db_events s)) (db_events s') in
      db_events s' = db_events s @ es
      \<and> map (\<lambda>e. (ev_transfer_id e, ev_from_status e, ev_to_status e, ev_reason e)) es = rows)"

lemma posted_entries_legs:
  "map (\<lambda>e. (en_direction e, en_amount e)) (posted_entries dbnow i jid ps) = map (\<lambda>p. (po_direction p, po_amount p)) ps"
  "list_all (\<lambda>e. en_journal_id e = jid) (posted_entries dbnow i jid ps)"
  by (induction ps arbitrary: i) auto

lemma journal_posted_intro:
  assumes "db_journals s' = db_journals (posted dbnow s jt ps (Some tid))"
    "db_entries s' = db_entries (posted dbnow s jt ps (Some tid))"
  shows "journal_posted s jt tid (map (\<lambda>p. (po_direction p, po_amount p)) ps) s'"
  using assms by (simp add: journal_posted_def posted_def new_journal_def posted_entries_legs)

lemma system_row_iff:
  assumes "saga_inv pend s" "system_row s pid ty b" "a \<in> set (db_accounts s)" "ty \<noteq> USER_BALANCE"
  shows "acc_id b = acc_id a \<longleftrightarrow> acc_account_type a = ty \<and> acc_program_id a = pid"
proof -
  have led: "ledger_ok s" and uniq: "system_unique s" using assms(1) by (simp_all add: saga_inv_def)
  have "acc_account_type a = ty \<Longrightarrow> acc_owner_type a = SYSTEM"
    using account_types [OF led assms(3)] assms(4) by (cases "acc_owner_type a") auto
  then have "acc_account_type a = ty \<and> acc_program_id a = pid \<Longrightarrow> b = a"
    using uniq assms(2,3) by (auto simp: system_unique_def system_row_def)
  moreover have "acc_id b = acc_id a \<Longrightarrow> b = a"
    using account_ids_inj [OF led, of b a] assms(2,3) by (simp add: system_row_def)
  ultimately show ?thesis
    using assms(2) by (auto simp: system_row_def)
qed

lemma user_row_type:
  assumes "saga_inv pend s" "user_row_of s u aid pid b" "a \<in> set (db_accounts s)" "acc_id a = aid"
  shows "acc_account_type a = USER_BALANCE"
proof -
  have "a = b"
    using account_ids_inj [of s a b] assms by (auto simp: saga_inv_def user_row_of_def)
  with assms(2) show ?thesis by (simp add: user_row_of_def)
qed

lemma settle_changes:
  assumes ok: "saga_inv pend s" "t \<in> set (db_transfers s)"
    and rows: "system_row s (tr_source_program_id t) TRANSFER_CLEARING a1"
      "system_row s (tr_source_program_id t) PARTNER_SETTLEMENT a2"
      "system_row s (tr_destination_program_id t) PARTNER_SETTLEMENT a3"
      "user_row_of s (tr_user_id t) (tr_destination_account_id t) (tr_destination_program_id t) a4"
    and acc: "db_accounts s' = db_accounts (posted dbnow s TRANSFER_SETTLE (settle_postings a1 a2 a3 a4 t) x)"
  shows "balances_change s (settle_delta t) s'"
proof -
  have "account_net (settle_postings a1 a2 a3 a4 t) (acc_id a) = settle_delta t a" if a: "a \<in> set (db_accounts s)" for a
    using system_row_iff [OF ok(1) rows(1) a] system_row_iff [OF ok(1) rows(2) a] system_row_iff [OF ok(1) rows(3) a]
      user_row_type [OF ok(1) rows(4) a] rows(4) saga_transferD(5) [OF ok]
    by (auto simp: settle_postings_def settle_delta_def user_row_of_def)
  then show ?thesis
    by (simp add: balances_change_def acc)
qed

lemma reverse_changes:
  assumes ok: "saga_inv pend s" "t \<in> set (db_transfers s)"
    and rows: "system_row s (tr_source_program_id t) TRANSFER_CLEARING a1"
      "user_row_of s (tr_user_id t) (tr_source_account_id t) (tr_source_program_id t) a2"
    and acc: "db_accounts s' = db_accounts (posted dbnow s TRANSFER_REVERSAL (reverse_postings a1 a2 t) x)"
  shows "balances_change s (reverse_delta t) s'"
proof -
  have "account_net (reverse_postings a1 a2 t) (acc_id a) = reverse_delta t a" if a: "a \<in> set (db_accounts s)" for a
    using system_row_iff [OF ok(1) rows(1) a] user_row_type [OF ok(1) rows(2) a] rows(2)
    by (auto simp: reverse_postings_def reverse_delta_def user_row_of_def)
  then show ?thesis
    by (simp add: balances_change_def acc)
qed

lemma lock_transfer_eq:
  assumes "saga_inv pend s" "t \<in> set (db_transfers s)"
  shows "lock_transfer s (tr_id t) = Inr t"
  using assms find_unique [of tr_id "db_transfers s" t] by (simp add: lock_transfer_def saga_inv_def)

section \<open>The two resolutions, committed\<close>

lemma settle_unit:
  assumes ok: "saga_ok s" "t \<in> set (db_transfers s)" "systems_present s" "headroom s t"
    and "tr_status t \<in> {PARTNER_SUBMITTED, PENDING_VERIFICATION}" "c \<noteq> []" "length c \<le> 128" "length reason \<le> 200"
  shows "\<exists>s' t'. bindE (settle_transfer wall dbnow s t c reason md) (commit_step dbnow t) = Inr (COMPLETED, s')
    \<and> balances_change s (settle_delta t) s'
    \<and> journal_posted s TRANSFER_SETTLE (tr_id t) [(DEBIT, tr_source_points t), (CREDIT, tr_source_points t),
        (DEBIT, tr_destination_points t), (CREDIT, tr_destination_points t)] s'
    \<and> t' \<in> set (db_transfers s') \<and> same_identity t t' \<and> tr_status t' = COMPLETED
    \<and> tr_partner_confirmation_id t' = Some c"
proof -
  from settle_commits [OF assms, of wall dbnow md]
  obtain a1 a2 a3 a4 t1 e t' where rows: "system_row s (tr_source_program_id t) TRANSFER_CLEARING a1"
      "system_row s (tr_source_program_id t) PARTNER_SETTLEMENT a2"
      "system_row s (tr_destination_program_id t) PARTNER_SETTLEMENT a3"
      "user_row_of s (tr_user_id t) (tr_destination_account_id t) (tr_destination_program_id t) a4"
    and settle: "settle_transfer wall dbnow s t c reason md =
        Inr ((t1, e), posted dbnow s TRANSFER_SETTLE (settle_postings a1 a2 a3 a4 t) (Some (tr_id t)))"
    and t': "tr_status t' = COMPLETED" "tr_partner_confirmation_id t' = Some c" "same_identity t t'"
    and commit: "commit_step dbnow t ((t1, e), posted dbnow s TRANSFER_SETTLE (settle_postings a1 a2 a3 a4 t) (Some (tr_id t))) =
        Inr (COMPLETED, (posted dbnow s TRANSFER_SETTLE (settle_postings a1 a2 a3 a4 t) (Some (tr_id t)))
          \<lparr>db_transfers := update_where (\<lambda>r. tr_id r = tr_id t) (\<lambda>_. t') (db_transfers s),
           db_events := db_events s @ [added_event dbnow s e], db_next_event_id := db_next_event_id s + 1\<rparr>)"
      (is "_ = Inr (COMPLETED, ?s')")
    by auto
  have "bindE (settle_transfer wall dbnow s t c reason md) (commit_step dbnow t) = Inr (COMPLETED, ?s')"
    using settle commit by simp
  moreover have "balances_change s (settle_delta t) ?s'"
    by (rule settle_changes [OF ok(1,2) rows, where dbnow = dbnow and x = "Some (tr_id t)"]) simp
  moreover have "journal_posted s TRANSFER_SETTLE (tr_id t) [(DEBIT, tr_source_points t), (CREDIT, tr_source_points t),
      (DEBIT, tr_destination_points t), (CREDIT, tr_destination_points t)] ?s'"
    using journal_posted_intro [of ?s' dbnow s TRANSFER_SETTLE "settle_postings a1 a2 a3 a4 t" "tr_id t"]
    by (simp add: settle_postings_def debit_def credit_def)
  moreover have "t' \<in> set (db_transfers ?s')"
    using ok(2) by (force simp: set_update_where)
  ultimately show ?thesis
    using t' by blast
qed

lemma reverse_unit:
  assumes ok: "saga_ok s" "t \<in> set (db_transfers s)" "systems_present s" "headroom s t"
    and "tr_status t \<in> {SOURCE_DEBITED, PARTNER_SUBMITTED, PENDING_VERIFICATION}" "length msg \<le> 500" "length reason \<le> 200"
  shows "\<exists>s' t'. bindE (reverse_transfer wall dbnow s t fc msg reason md) (commit_step dbnow t) = Inr (REVERSED, s')
    \<and> balances_change s (reverse_delta t) s'
    \<and> t' \<in> set (db_transfers s') \<and> same_identity t t' \<and> tr_status t' = REVERSED \<and> tr_failure_code t' = Some fc"
proof -
  from reverse_commits [OF assms, of wall dbnow fc md]
  obtain a1 a2 t1 e t' where rows: "system_row s (tr_source_program_id t) TRANSFER_CLEARING a1"
      "user_row_of s (tr_user_id t) (tr_source_account_id t) (tr_source_program_id t) a2"
    and rev: "reverse_transfer wall dbnow s t fc msg reason md =
        Inr ((t1, e), posted dbnow s TRANSFER_REVERSAL (reverse_postings a1 a2 t) (Some (tr_id t)))"
    and t': "tr_status t' = REVERSED" "tr_failure_code t' = Some fc" "same_identity t t'"
    and commit: "commit_step dbnow t ((t1, e), posted dbnow s TRANSFER_REVERSAL (reverse_postings a1 a2 t) (Some (tr_id t))) =
        Inr (REVERSED, (posted dbnow s TRANSFER_REVERSAL (reverse_postings a1 a2 t) (Some (tr_id t)))
          \<lparr>db_transfers := update_where (\<lambda>r. tr_id r = tr_id t) (\<lambda>_. t') (db_transfers s),
           db_events := db_events s @ [added_event dbnow s e], db_next_event_id := db_next_event_id s + 1\<rparr>)"
      (is "_ = Inr (REVERSED, ?s')")
    by auto
  have "bindE (reverse_transfer wall dbnow s t fc msg reason md) (commit_step dbnow t) = Inr (REVERSED, ?s')"
    using rev commit by simp
  moreover have "balances_change s (reverse_delta t) ?s'"
    by (rule reverse_changes [OF ok(1,2) rows, where dbnow = dbnow and x = "Some (tr_id t)"]) simp
  moreover have "t' \<in> set (db_transfers ?s')"
    using ok(2) by (force simp: set_update_where)
  ultimately show ?thesis
    using t' by blast
qed

section \<open>The four outcomes of the partner call\<close>

text \<open>
  C7: a confirmed credit settles the transfer. For a submitted transfer and a confirmation of 1 to 128
  characters the transaction commits: the status is COMPLETED with the confirmation recorded, exactly one
  journal is posted, a settlement of this transfer with its four entries, the user's destination account
  gains the destination points, the source points move from clearing to the source program's settlement
  account, the destination settlement account pays the destination points, and no other balance changes.
\<close>

theorem partner_success_settles:
  assumes "saga_ok s" "t \<in> set (db_transfers s)" "tr_status t = PARTNER_SUBMITTED" "systems_present s" "headroom s t"
    and "cd_outcome r = CREDIT_SUCCESS" "cd_confirmation_id r = Some c" "c \<noteq> []" "length c \<le> 128"
  shows "\<exists>s' t'. unit_of_work (apply_partner_outcome dbnow wall now vd (tr_id t) r) s = (Inr COMPLETED, s')
    \<and> balances_change s (settle_delta t) s'
    \<and> journal_posted s TRANSFER_SETTLE (tr_id t) [(DEBIT, tr_source_points t), (CREDIT, tr_source_points t),
        (DEBIT, tr_destination_points t), (CREDIT, tr_destination_points t)] s'
    \<and> t' \<in> set (db_transfers s') \<and> same_identity t t' \<and> tr_status t' = COMPLETED
    \<and> tr_partner_confirmation_id t' = Some c"
proof -
  have "apply_partner_outcome dbnow wall now vd (tr_id t) r s = bindE (settle_transfer wall dbnow s t c
      ''partner_confirmed_credit'' (credit_metadata r)) (commit_step dbnow t)"
    using lock_transfer_eq [OF assms(1,2)] assms(3,6-8) by (simp add: apply_partner_outcome_def nonempty_def)
  then show ?thesis
    using settle_unit [OF assms(1,2,4,5) _ assms(8,9), of "''partner_confirmed_credit''" wall dbnow "credit_metadata r"] assms(3)
      outcome_txn.commits [OF assms(1)]
    by fastforce
qed

theorem partner_success_settles_witness:
  "\<exists>s'. unit_of_work (apply_partner_outcome 12 12 12 60 sample_id
      (mk_credit CREDIT_SUCCESS ''credited'' False (Some ''AIR_B-1'') (Some 201))) submitted_db = (Inr COMPLETED, s')
    \<and> balances_change submitted_db (settle_delta (sample_row PARTNER_SUBMITTED 10)) s'
    \<and> journal_posted submitted_db TRANSFER_SETTLE sample_id [(DEBIT, 900), (CREDIT, 900), (DEBIT, 600), (CREDIT, 600)] s'"
  using partner_success_settles [OF submitted_ok _ _ submitted_facts,
      of "mk_credit CREDIT_SUCCESS ''credited'' False (Some ''AIR_B-1'') (Some 201)" "''AIR_B-1''" 12 12 12 60]
  by (auto simp: sample_row_def sample_transfer_def)

text \<open>
  C8: a refused or unsent credit returns the points. For a submitted transfer, a rejection (whose reason
  fits the message column) or a credit that never reached the partner commits a reversal: the status is
  REVERSED with the failure code, the source points go from clearing back to the user's source account in
  full, and no other balance changes.
\<close>

theorem partner_refusal_returns_points:
  assumes "saga_ok s" "t \<in> set (db_transfers s)" "tr_status t = PARTNER_SUBMITTED" "systems_present s" "headroom s t"
    and "cd_outcome r = CREDIT_REJECTED \<and> length (cd_reason r) \<le> 400 \<or> cd_outcome r = CREDIT_NOT_SENT"
  shows "\<exists>s' t'. unit_of_work (apply_partner_outcome dbnow wall now vd (tr_id t) r) s = (Inr REVERSED, s')
    \<and> balances_change s (reverse_delta t) s'
    \<and> t' \<in> set (db_transfers s') \<and> same_identity t t' \<and> tr_status t' = REVERSED
    \<and> tr_failure_code t' = Some (if cd_outcome r = CREDIT_REJECTED then PARTNER_REJECTED else PARTNER_UNAVAILABLE)"
proof -
  define fc where "fc = (if cd_outcome r = CREDIT_REJECTED then PARTNER_REJECTED else PARTNER_UNAVAILABLE)"
  define msg where "msg = (if cd_outcome r = CREDIT_REJECTED
    then ''The partner rejected the credit ('' @ cd_reason r @ ''). Points were returned.''
    else ''The partner could not be reached. Points were returned.'')"
  define reason where "reason = (if cd_outcome r = CREDIT_REJECTED then ''partner_rejected_credit'' else ''partner_not_reached'')"
  have len: "length msg \<le> 500" "length reason \<le> 200"
    using assms(6) by (auto simp: msg_def reason_def)
  have "apply_partner_outcome dbnow wall now vd (tr_id t) r s =
      bindE (reverse_transfer wall dbnow s t fc msg reason (credit_metadata r)) (commit_step dbnow t)"
    using lock_transfer_eq [OF assms(1,2)] assms(3,6)
    by (auto simp: apply_partner_outcome_def fc_def msg_def reason_def)
  then show ?thesis
    using reverse_unit [OF assms(1,2,4,5) _ len, of wall dbnow fc "credit_metadata r"] assms(3)
      outcome_txn.commits [OF assms(1)]
    unfolding fc_def by fastforce
qed

theorem partner_refusal_returns_points_witness:
  "\<exists>s'. unit_of_work (apply_partner_outcome 12 12 12 60 sample_id
      (mk_credit CREDIT_REJECTED ''MEMBER_NOT_FOUND'' False None (Some 422))) submitted_db = (Inr REVERSED, s')
    \<and> balances_change submitted_db (reverse_delta (sample_row PARTNER_SUBMITTED 10)) s'"
  using partner_refusal_returns_points [OF submitted_ok _ _ submitted_facts,
      of "mk_credit CREDIT_REJECTED ''MEMBER_NOT_FOUND'' False None (Some 422)" 12 12 12 60]
  by auto

text \<open>
  C9: the engine never guesses. If the outcome is unknown, or reported as a success without a confirmation,
  the transaction commits with the status PENDING_VERIFICATION and the next check scheduled after the
  verification delay; no journal is posted, no balance changes, and the points stay in clearing. A transfer
  that is no longer PARTNER_SUBMITTED is left exactly as it is, whatever the outcome.
\<close>

theorem unknown_outcome_waits:
  assumes "saga_ok s" "t \<in> set (db_transfers s)"
    and "tr_status t \<noteq> PARTNER_SUBMITTED \<or> cd_outcome r = CREDIT_UNKNOWN
      \<or> cd_outcome r = CREDIT_SUCCESS \<and> (cd_confirmation_id r = None \<or> cd_confirmation_id r = Some [])"
  shows "if tr_status t \<noteq> PARTNER_SUBMITTED
    then unit_of_work (apply_partner_outcome dbnow wall now vd (tr_id t) r) s = (Inr (tr_status t), s)
    else \<exists>s' t'. unit_of_work (apply_partner_outcome dbnow wall now vd (tr_id t) r) s = (Inr PENDING_VERIFICATION, s')
      \<and> db_accounts s' = db_accounts s \<and> db_journals s' = db_journals s \<and> db_entries s' = db_entries s
      \<and> t' \<in> set (db_transfers s') \<and> same_identity t t' \<and> tr_status t' = PENDING_VERIFICATION
      \<and> tr_next_verification_at t' = Some (now + vd)"
proof (cases "tr_status t = PARTNER_SUBMITTED")
  case False
  then have "apply_partner_outcome dbnow wall now vd (tr_id t) r s = Inr (tr_status t, s)"
    using lock_transfer_eq [OF assms(1,2)] by (simp add: apply_partner_outcome_def)
  with False show ?thesis
    using outcome_txn.commits [OF assms(1)] by simp
next
  case True
  let ?t1 = "t\<lparr>tr_next_verification_at := Some (now + vd), tr_status := PENDING_VERIFICATION, tr_updated_at := now\<rparr>"
  define e where "e = \<lparr>pe_transfer_id = tr_id t, pe_from_status = Some PARTNER_SUBMITTED, pe_to_status = PENDING_VERIFICATION,
      pe_reason = ''partner_outcome_unknown'', pe_metadata = credit_metadata r\<rparr>"
  have te: "transition wall (t\<lparr>tr_next_verification_at := Some (now + vd)\<rparr>) PENDING_VERIFICATION
      ''partner_outcome_unknown'' (credit_metadata r) (Some now) = Inr (?t1, e)"
    using True by (simp add: transition_Inr_iff can_transition_def e_def)
  have "transfer_linked False s t"
    using saga_transferD(1) [OF assms(1,2)] .
  then have row: "list_all fst (transfer_ranges ?t1 @ transfer_checks ?t1)"
    using True by (auto simp: transfer_linked_def transfer_ranges_def transfer_checks_def)
  have e: "length (pe_reason e) \<le> 200" "pe_transfer_id e = tr_id t"
    by (simp_all add: e_def)
  have "tr_status ?t1 \<noteq> tr_status t" using True by simp
  then have ne: "?t1 \<noteq> t" by metis
  have "tr_id ?t1 = tr_id t" by simp
  from flush_changes_succeeds [OF row e this assms(2) ne, of dbnow] obtain t' where
    t': "t' = ?t1 \<or> t' = ?t1\<lparr>tr_updated_at := dbnow\<rparr>"
    "flush_changes dbnow s t ?t1 [e] = Inr (s\<lparr>db_transfers := update_where (\<lambda>r. tr_id r = tr_id t) (\<lambda>_. t') (db_transfers s),
      db_events := db_events s @ [added_event dbnow s e], db_next_event_id := db_next_event_id s + 1\<rparr>)" (is "_ = Inr ?s'")
    by blast
  have "apply_partner_outcome dbnow wall now vd (tr_id t) r s = Inr (PENDING_VERIFICATION, ?s')"
    using lock_transfer_eq [OF assms(1,2)] True assms(3) te t'(2)
    by (auto simp: apply_partner_outcome_def nonempty_def commit_step_def)
  moreover have "t' \<in> set (db_transfers ?s')"
    using assms(2) by (force simp: set_update_where)
  moreover have "same_identity t t' \<and> tr_status t' = PENDING_VERIFICATION \<and> tr_next_verification_at t' = Some (now + vd)"
    using t'(1) by (auto simp: same_identity_def)
  ultimately show ?thesis
    using True outcome_txn.commits [OF assms(1)] by fastforce
qed

theorem unknown_outcome_waits_witness:
  "\<exists>s'. unit_of_work (apply_partner_outcome 12 12 12 60 sample_id
      (mk_credit CREDIT_UNKNOWN ''no_response: ReadTimeout'' True None None)) submitted_db = (Inr PENDING_VERIFICATION, s')
    \<and> db_accounts s' = db_accounts submitted_db"
  using unknown_outcome_waits [OF submitted_ok, of "sample_row PARTNER_SUBMITTED 10"
      "mk_credit CREDIT_UNKNOWN ''no_response: ReadTimeout'' True None None" 12 12 12 60]
  by auto

section \<open>The debit\<close>

definition debit_delta :: "transfer \<Rightarrow> account \<Rightarrow> int" where
  "debit_delta t a =
     (if acc_id a = tr_source_account_id t then - tr_source_points t
      else if acc_account_type a = TRANSFER_CLEARING \<and> acc_program_id a = tr_source_program_id t then tr_source_points t
      else 0)"

lemma update_where_new:
  assumes "tr_id t \<notin> tr_id ` set ts"
  shows "update_where (\<lambda>r. tr_id r = tr_id t) (\<lambda>_. t') (ts @ [t]) = ts @ [t']"
proof -
  have "update_where (\<lambda>r. tr_id r = tr_id t) (\<lambda>_. t') ts = ts"
    unfolding update_where_def
  proof (rule map_idI)
    fix r assume "r \<in> set ts"
    then have "tr_id r \<noteq> tr_id t" using assms by (metis imageI)
    then show "(if tr_id r = tr_id t then t' else r) = r" by simp
  qed
  then show ?thesis by simp
qed

lemma debit_changes:
  assumes ok: "saga_inv pend s" and src: "user_account s u pid code = Inr src"
    and clr: "get_system_account s pid TRANSFER_CLEARING = Inr clr"
    and t: "tr_source_account_id t = acc_id src" "tr_source_program_id t = pid" "tr_source_points t = n"
    and acc: "db_accounts s' = map (\<lambda>a. moved dbnow (account_net [debit src n, credit clr n] (acc_id a)) a) (db_accounts s)"
  shows "balances_change s (debit_delta t) s'"
proof -
  note U = user_account_Inr [OF src] and C = get_system_account_Inr [OF clr]
  have row: "system_row s pid TRANSFER_CLEARING clr"
    using C by (simp add: system_row_def)
  have led: "ledger_ok s" using ok by (simp add: saga_inv_def)
  have "account_net [debit src n, credit clr n] (acc_id a) = debit_delta t a" if a: "a \<in> set (db_accounts s)" for a
  proof -
    have "acc_id src = acc_id clr \<Longrightarrow> False"
      using account_ids_inj [OF led, of src clr] U C by auto
    then show ?thesis
      using system_row_iff [OF ok row a] t by (auto simp: debit_delta_def)
  qed
  then show ?thesis
    by (simp add: balances_change_def acc)
qed

lemma debit_events:
  assumes "flush_changes dbnow s t t1 [e] = Inr s'"
  shows "db_events s' = db_events s @ [added_event dbnow s e]"
proof -
  from assms obtain s1 where s1: "flush_transfer dbnow s t t1 = Inr s1" "flush_event dbnow s1 e = Inr s'"
    by (auto simp: flush_changes_def result_simps)
  then have "db_events s1 = db_events s" "db_next_event_id s1 = db_next_event_id s"
    using flush_transfer_Inr [OF s1(1)] by (auto split: if_splits)
  then show ?thesis
    using s1(2) by (simp add: flush_event_Inr_iff added_event_def)
qed

text \<open>What a debit that returned has done.\<close>

lemma debit_source_effect:
  assumes "saga_ok s" and run: "debit_source dbnow wall now tid u req key s = Inr (d, s')"
  shows "\<exists>t route rate conv src. db_transfers s' = db_transfers s @ [t]
        \<and> tr_id t = tid \<and> tr_user_id t = u \<and> tr_idempotency_key t = key \<and> tr_status t = SOURCE_DEBITED
        \<and> get_route s (rq_source_program req) (rq_destination_program req) now = Inr route
        \<and> ensure_route_usable route = Inr rate
        \<and> calculate_conversion rate (rq_source_points req) (rc_bonus route) now = Inr conv
        \<and> tr_source_points t = rq_source_points req \<and> tr_destination_points t = cv_destination_points conv
        \<and> tr_rate_snapshot t = snapshot_to_dict (cv_snapshot conv)
        \<and> src \<in> set (db_accounts s) \<and> acc_id src = tr_source_account_id t \<and> acc_user_id src = Some u
        \<and> rq_source_points req \<le> acc_balance src
        \<and> journal_posted s TRANSFER_DEBIT tid [(DEBIT, rq_source_points req), (CREDIT, rq_source_points req)] s'
        \<and> events_added s [(tid, None, PENDING, ''transfer_requested''),
            (tid, Some PENDING, SOURCE_DEBITED, ''source_points_debited'')] s'
        \<and> balances_change s (debit_delta t) s' \<and> dt_transfer_id d = tid
        \<and> dt_destination_points d = tr_destination_points t"
proof -
  from debit_source_Inr [OF run] obtain route rate conv src dst prog clr rows t s1 s2 srow crow j s3 t1 e where
    price: "get_route s (rq_source_program req) (rq_destination_program req) now = Inr route"
      "ensure_route_usable route = Inr rate"
      "calculate_conversion rate (rq_source_points req) (rc_bonus route) now = Inr conv"
    and src: "user_account s u (pr_id (rc_source route)) (pr_code (rc_source route)) = Inr src"
    and clr: "get_system_account s (pr_id (rc_source route)) TRANSFER_CLEARING = Inr clr"
    and rows: "lock_accounts_for_update s [acc_id src, acc_id clr] = Inr rows"
    and srow: "locked_row rows (acc_id src) = Inr srow" and crow: "locked_row rows (acc_id clr) = Inr crow"
    and bal: "rq_source_points req \<le> acc_balance srow"
    and post: "post_journal dbnow s2 TRANSFER_DEBIT
      [debit srow (rq_source_points req), credit crow (rq_source_points req)] (Some tid) = Inr (j, s3)"
    and ins: "insert_transfer dbnow s (new_transfer tid u key route rate conv src dst) = Inr (t, s1)"
    and ev: "flush_event dbnow s1 (record_creation t ''transfer_requested'') = Inr s2"
    and te: "transition wall t SOURCE_DEBITED ''source_points_debited'' [(''journal_id'', JInt (jr_id j))] (Some now) = Inr (t1, e)"
    and flush: "flush_changes dbnow s3 t t1 [e] = Inr s'"
    and d: "dt_transfer_id d = tid" "dt_destination_points d = cv_destination_points conv"
    by blast
  note I = insert_transfer_Inr [OF ins] and T = te [unfolded transition_Inr_iff] and U = user_account_Inr [OF src]
  have led: "ledger_ok s" using assms(1) by (simp add: saga_inv_def)
  have same: "srow = src" "crow = clr"
    using account_ids_inj [OF led] locked_row_Inr [OF rows srow] locked_row_Inr [OF rows crow]
      U get_system_account_Inr [OF clr] by blast+
  have s3: "db_transfers s3 = db_transfers s @ [t]"
    "db_accounts s3 = map (\<lambda>a. moved dbnow (account_net [debit src (rq_source_points req), credit clr (rq_source_points req)] (acc_id a)) a) (db_accounts s)"
    using post_journal_Inr(3) [OF post] ev I(2) same by (auto simp: flush_event_Inr_iff)
  have dist: "distinct (map tr_id (db_transfers s3))" and tin: "t \<in> set (db_transfers s3)"
    using assms(1) I(4) by (simp_all add: saga_inv_def s3)
  from flush_changes_Inr [OF flush dist tin I(3)] obtain t' evs where t1: "t' = t1 \<or> t' = t1\<lparr>tr_updated_at := dbnow\<rparr>"
    and s': "s' = s3\<lparr>db_transfers := update_where (\<lambda>r. tr_id r = tr_id t) (\<lambda>_. t') (db_transfers s3),
      db_events := db_events s3 @ evs, db_next_event_id := db_next_event_id s3 + int (length [e])\<rparr>"
    by blast
  have t': "t' = t1 \<or> t' = t1\<lparr>tr_updated_at := dbnow\<rparr>" "db_transfers s' = db_transfers s @ [t']"
    "db_accounts s' = db_accounts s3"
    using t1 update_where_new [OF I(4), of t'] by (simp_all add: s' s3(1))
  have pts: "cv_source_points conv = rq_source_points req"
    using price(3) by (simp add: calculate_conversion_Inr_iff)
  have f: "tr_id t' = tid" "tr_user_id t' = u" "tr_idempotency_key t' = key" "tr_status t' = SOURCE_DEBITED"
    "tr_source_points t' = rq_source_points req" "tr_destination_points t' = cv_destination_points conv"
    "tr_rate_snapshot t' = snapshot_to_dict (cv_snapshot conv)"
    "tr_source_account_id t' = acc_id src" "tr_source_program_id t' = pr_id (rc_source route)"
    using t'(1) T I(1) pts by (auto simp: new_transfer_def)
  have "balances_change s (debit_delta t') s'"
    using t'(3) s3(2) f by (intro debit_changes [OF assms(1) src clr, of t' "rq_source_points req" s' dbnow]) simp_all
  moreover have "journal_posted s TRANSFER_DEBIT tid [(DEBIT, rq_source_points req), (CREDIT, rq_source_points req)] s'"
    using journal_posted_intro [of s' dbnow s TRANSFER_DEBIT
        "[debit srow (rq_source_points req), credit crow (rq_source_points req)]" tid]
      post_journal_Inr(3) [OF post] ev I(2)
    by (auto simp: s' flush_event_Inr_iff posted_def new_journal_def debit_def credit_def)
  moreover have "events_added s [(tid, None, PENDING, ''transfer_requested''),
      (tid, Some PENDING, SOURCE_DEBITED, ''source_points_debited'')] s'"
    using debit_events [OF flush] post_journal_Inr(3) [OF post] ev I(1,2) T
    by (auto simp: flush_event_Inr_iff posted_def events_added_def added_event_def record_creation_def new_transfer_def)
  moreover have "acc_user_id src = Some u"
    using src by (auto simp: user_account_def get_user_account_def result_simps dest!: find_SomeD)
  ultimately show ?thesis
    using t'(2) f price bal same U d
    by (intro exI [of _ t'] exI [of _ route] exI [of _ rate] exI [of _ conv] exI [of _ src]) simp
qed

text \<open>
  C10: the debit is all or nothing. If it raises, the database is unchanged. If it returns, exactly one
  transfer was added, in status SOURCE_DEBITED with the user's key and the amounts that the rate in effect
  gives for the requested points; exactly one journal was posted, a debit journal of this transfer with its
  two entries; exactly two audit events were added, its creation and its debit; the user's source account
  lost exactly those points (which it had) and the clearing account of the source program gained them, and
  no other balance changed.
\<close>

theorem debit_all_or_nothing:
  assumes "saga_ok s" "unit_of_work (debit_source dbnow wall now tid u req key) s = (out, s')"
  shows "case out of
      Inl e \<Rightarrow> s' = s
    | Inr d \<Rightarrow> (\<exists>t route rate conv src. db_transfers s' = db_transfers s @ [t]
        \<and> tr_id t = tid \<and> tr_user_id t = u \<and> tr_idempotency_key t = key \<and> tr_status t = SOURCE_DEBITED
        \<and> get_route s (rq_source_program req) (rq_destination_program req) now = Inr route
        \<and> ensure_route_usable route = Inr rate
        \<and> calculate_conversion rate (rq_source_points req) (rc_bonus route) now = Inr conv
        \<and> tr_source_points t = rq_source_points req \<and> tr_destination_points t = cv_destination_points conv
        \<and> tr_rate_snapshot t = snapshot_to_dict (cv_snapshot conv)
        \<and> src \<in> set (db_accounts s) \<and> acc_id src = tr_source_account_id t \<and> acc_user_id src = Some u
        \<and> rq_source_points req \<le> acc_balance src
        \<and> journal_posted s TRANSFER_DEBIT tid [(DEBIT, rq_source_points req), (CREDIT, rq_source_points req)] s'
        \<and> events_added s [(tid, None, PENDING, ''transfer_requested''),
            (tid, Some PENDING, SOURCE_DEBITED, ''source_points_debited'')] s'
        \<and> balances_change s (debit_delta t) s' \<and> dt_transfer_id d = tid
        \<and> dt_destination_points d = tr_destination_points t)"
  using assms debit_source_effect [of s dbnow wall now tid u req key]
  by (cases out) (auto simp: unit_of_work_Inr_iff dest: unit_of_work_Inl)

theorem debit_all_or_nothing_witness:
  "\<exists>t. db_transfers debited_db = db_transfers sample_db @ [t] \<and> tr_status t = SOURCE_DEBITED
     \<and> balances_change sample_db (debit_delta t) debited_db
     \<and> journal_posted sample_db TRANSFER_DEBIT sample_id [(DEBIT, 900), (CREDIT, 900)] debited_db
     \<and> events_added sample_db [(sample_id, None, PENDING, ''transfer_requested''),
         (sample_id, Some PENDING, SOURCE_DEBITED, ''source_points_debited'')] debited_db"
  using debit_all_or_nothing [OF sample_db_saga_ok debit_txn.commits [OF sample_db_saga_ok sample_debit_run]]
  by (auto simp: sample_request_def)

end
