(* ===== verification/Escrow.thy ===== *)
theory Escrow
  imports Outcomes
begin

text \<open>
  What the engine promises, without its machinery: an escrow. Its state is the balance of every user account
  and, for every transfer, its terms and whether the points are held, paid out or returned. The three moves
  of the escrow are to hold, to pay and to return; \<open>escrow_of\<close> reads this state off the database. Every
  committed transaction of a request or a worker is one move of the escrow or none, so every interleaving
  refines a run of it: the statuses, leases, retries, system accounts, journals and events implement the
  escrow and nothing else.
\<close>

section \<open>The escrow\<close>

datatype phase = HELD | PAID | RETURNED

record deal =
  dl_from :: int
  dl_give :: int
  dl_to :: int
  dl_get :: int

record escrow =
  es_balance :: "int \<rightharpoonup> int"
  es_deals :: "string \<rightharpoonup> deal \<times> phase"

definition adjust :: "int \<Rightarrow> int \<Rightarrow> (int \<rightharpoonup> int) \<Rightarrow> int \<rightharpoonup> int" where
  "adjust i n b = b(i := map_option (\<lambda>v. v + n) (b i))"

inductive escrow_step :: "escrow \<Rightarrow> escrow \<Rightarrow> bool" where
  hold: "\<lbrakk>es_deals e i = None; es_balance e (dl_from d) = Some v; 0 < dl_give d; dl_give d \<le> v;
    dl_to d \<in> dom (es_balance e); dl_to d \<noteq> dl_from d; 0 < dl_get d\<rbrakk> \<Longrightarrow>
    escrow_step e (e\<lparr>es_balance := adjust (dl_from d) (- dl_give d) (es_balance e), es_deals := (es_deals e)(i \<mapsto> (d, HELD))\<rparr>)"
| pay: "es_deals e i = Some (d, HELD) \<Longrightarrow>
    escrow_step e (e\<lparr>es_balance := adjust (dl_to d) (dl_get d) (es_balance e), es_deals := (es_deals e)(i \<mapsto> (d, PAID))\<rparr>)"
| return_held: "es_deals e i = Some (d, HELD) \<Longrightarrow>
    escrow_step e (e\<lparr>es_balance := adjust (dl_from d) (dl_give d) (es_balance e), es_deals := (es_deals e)(i \<mapsto> (d, RETURNED))\<rparr>)"
| idle: "escrow_step e e"

lemma dom_adjust [simp]: "dom (adjust i n b) = dom b"
  by (auto simp: adjust_def)

section \<open>The escrow that a database implements\<close>

fun phase_of :: "transfer_status \<Rightarrow> phase" where
  "phase_of COMPLETED = PAID"
| "phase_of REVERSED = RETURNED"
| "phase_of _ = HELD"

definition deal_of :: "transfer \<Rightarrow> deal" where
  "deal_of t = \<lparr>dl_from = tr_source_account_id t, dl_give = tr_source_points t,
     dl_to = tr_destination_account_id t, dl_get = tr_destination_points t\<rparr>"

definition user_balances :: "account list \<Rightarrow> int \<rightharpoonup> int" where
  "user_balances as = map_of (map (\<lambda>a. (acc_id a, acc_balance a)) (filter (\<lambda>a. acc_owner_type a = USER) as))"

definition deals :: "transfer list \<Rightarrow> string \<rightharpoonup> deal \<times> phase" where
  "deals ts = map_of (map (\<lambda>t. (tr_id t, deal_of t, phase_of (tr_status t))) ts)"

definition escrow_of :: "db \<Rightarrow> escrow" where
  "escrow_of s = \<lparr>es_balance = user_balances (db_accounts s), es_deals = deals (db_transfers s)\<rparr>"

lemma escrow_eqI: "es_balance e = es_balance e' \<Longrightarrow> es_deals e = es_deals e' \<Longrightarrow> (e :: escrow) = e'"
  by simp

lemma deal_of_same: "same_identity t t' \<Longrightarrow> deal_of t' = deal_of t"
  by (simp add: same_identity_def deal_of_def)

lemma deals_lookup:
  assumes "saga_inv pend s" "t \<in> set (db_transfers s)"
  shows "deals (db_transfers s) (tr_id t) = Some (deal_of t, phase_of (tr_status t))"
  using assms unfolding deals_def
  by (intro map_of_is_SomeI) (auto simp: saga_inv_def comp_def)

lemma map_of_update_where:
  assumes "k x = c"
  shows "map_of (map (\<lambda>r. (k r, g r)) (update_where (\<lambda>r. k r = c) (\<lambda>_. x) xs)) =
    (if c \<in> k ` set xs then (map_of (map (\<lambda>r. (k r, g r)) xs))(c \<mapsto> g x) else map_of (map (\<lambda>r. (k r, g r)) xs))"
  unfolding update_where_def
proof (induction xs)
  case (Cons r xs)
  show ?case
    by (cases "k r = c"; cases "c \<in> k ` set xs") (use Cons assms in \<open>simp_all add: fun_eq_iff del: map_map\<close>)
qed simp

lemma deals_update:
  assumes "t \<in> set ts" "same_identity t t'"
  shows "deals (update_where (\<lambda>r. tr_id r = tr_id t) (\<lambda>_. t') ts) = (deals ts)(tr_id t \<mapsto> (deal_of t, phase_of (tr_status t')))"
proof -
  have "tr_id t' = tr_id t"
    using assms(2) by (simp add: same_identity_def)
  from map_of_update_where [of tr_id, OF this, of "\<lambda>t. (deal_of t, phase_of (tr_status t))" ts] show ?thesis
    using assms(1) deal_of_same [OF assms(2)] by (simp add: deals_def)
qed

lemma deals_snoc:
  assumes "tr_id t \<notin> tr_id ` set ts"
  shows "deals (ts @ [t]) = (deals ts)(tr_id t \<mapsto> (deal_of t, phase_of (tr_status t)))"
proof -
  have "dom (deals ts) = tr_id ` set ts"
    by (simp add: deals_def dom_map_of_conv_image_fst image_image)
  with assms have "deals ts (tr_id t) = None" by blast
  then show ?thesis
    by (auto simp: deals_def map_add_def fun_eq_iff split: option.splits)
qed

lemma balances_change_rows:
  "balances_change s d s' \<Longrightarrow> list_all2 (\<lambda>a a'. acc_id a' = acc_id a \<and> acc_owner_type a' = acc_owner_type a
     \<and> acc_balance a' = acc_balance a + d a) (db_accounts s) (db_accounts s')"
  by (auto simp: balances_change_def list_eq_iff_nth_eq list_all2_conv_all_nth)

text \<open>A posting whose only user account is \<open>i\<close> is an adjustment of \<open>i\<close>.\<close>

lemma user_balances_adjust:
  assumes "balances_change s d s'"
    and "\<forall>a \<in> set (db_accounts s). acc_owner_type a = USER \<longrightarrow> d a = (if acc_id a = i then n else 0)"
  shows "user_balances (db_accounts s') = adjust i n (user_balances (db_accounts s))"
proof -
  have "user_balances bs = adjust i n (user_balances as)"
    if "list_all2 (\<lambda>a a'. acc_id a' = acc_id a \<and> acc_owner_type a' = acc_owner_type a
        \<and> acc_balance a' = acc_balance a + d a) as bs"
      "\<forall>a \<in> set as. acc_owner_type a = USER \<longrightarrow> d a = (if acc_id a = i then n else 0)" for as bs
    using that
  proof (induction rule: list_all2_induct)
    case Nil
    show ?case by (simp add: user_balances_def adjust_def)
  next
    case (Cons a as a' bs)
    then have IH: "user_balances bs = adjust i n (user_balances as)"
      by simp
    show ?case
      using Cons.hyps Cons.prems IH
      by (cases "acc_owner_type a = USER"; cases "acc_id a = i") (auto simp: user_balances_def adjust_def fun_eq_iff)
  qed
  then show ?thesis
    using balances_change_rows [OF assms(1)] assms(2) by blast
qed

lemma user_types:
  assumes "saga_inv pend s" "a \<in> set (db_accounts s)" "acc_owner_type a = USER"
  shows "acc_account_type a = USER_BALANCE"
  using account_types [of s a] assms by (simp add: saga_inv_def)

lemma user_deltas:
  assumes "saga_inv pend s" "a \<in> set (db_accounts s)" "acc_owner_type a = USER"
  shows "settle_delta t a = (if acc_id a = tr_destination_account_id t then tr_destination_points t else 0)"
    "reverse_delta t a = (if acc_id a = tr_source_account_id t then tr_source_points t else 0)"
    "debit_delta t a = (if acc_id a = tr_source_account_id t then - tr_source_points t else 0)"
  using user_types [OF assms] by (simp_all add: settle_delta_def reverse_delta_def debit_delta_def)

section \<open>What each step of the engine is to the escrow\<close>

text \<open>A flush that only moves the transfer between statuses in which the points are held is no move.\<close>

lemma flush_escrow:
  assumes ok: "saga_inv pend s" "t \<in> set (db_transfers s)" and id: "same_identity t t1"
    and sm: "db_transfers sm = db_transfers s" and flush: "flush_changes dbnow sm t t1 es = Inr s'"
  shows "escrow_of s' = \<lparr>es_balance = user_balances (db_accounts sm),
    es_deals = (deals (db_transfers s))(tr_id t \<mapsto> (deal_of t, phase_of (tr_status t1)))\<rparr>"
proof -
  have "distinct (map tr_id (db_transfers sm))" "t \<in> set (db_transfers sm)"
    "list_all fst (transfer_ranges t @ transfer_checks t)"
    using ok sm by (auto simp: saga_inv_def transfer_linked_def)
  from flush_changes_Inr [OF flush this] obtain t' evs where
    t': "t' = t1 \<or> t' = t1\<lparr>tr_updated_at := dbnow\<rparr>"
    and s': "s' = sm\<lparr>db_transfers := update_where (\<lambda>r. tr_id r = tr_id t) (\<lambda>_. t') (db_transfers sm),
      db_events := db_events sm @ evs, db_next_event_id := db_next_event_id sm + int (length es)\<rparr>"
    by blast
  have "same_identity t t'" "tr_status t' = tr_status t1"
    using t' id by (auto simp: same_identity_touch)
  with deals_update [OF ok(2), of t'] show ?thesis
    by (simp add: escrow_of_def s' sm)
qed

lemma move_escrow:
  assumes "saga_inv pend s" "t \<in> set (db_transfers s)" "same_identity t t1"
    and "flush_changes dbnow s t t1 es = Inr s'" "phase_of (tr_status t1) = phase_of (tr_status t)"
  shows "escrow_of s' = escrow_of s"
  using flush_escrow [OF assms(1-3) refl assms(4)] deals_lookup [OF assms(1,2)] assms(5)
  by (simp add: escrow_of_def fun_upd_idem)

lemma settle_escrow:
  assumes ok: "saga_inv pend s" "t \<in> set (db_transfers s)"
    and "settle_transfer wall dbnow s t c reason md = Inr step" "commit_step dbnow t step = Inr (st, s')"
  shows "escrow_step (escrow_of s) (escrow_of s')"
proof -
  obtain t1 e s1 where step: "step = ((t1, e), s1)" by (metis surj_pair)
  from settle_transfer_Inr [OF ok, OF assms(3) [unfolded step]] obtain a1 a2 a3 a4 j where
    rows: "system_row s (tr_source_program_id t) TRANSFER_CLEARING a1"
      "system_row s (tr_source_program_id t) PARTNER_SETTLEMENT a2"
      "system_row s (tr_destination_program_id t) PARTNER_SETTLEMENT a3"
      "user_row_of s (tr_user_id t) (tr_destination_account_id t) (tr_destination_program_id t) a4"
    and post: "post_journal dbnow s TRANSFER_SETTLE (settle_postings a1 a2 a3 a4 t) (Some (tr_id t)) = Inr (j, s1)"
    and te: "transition wall (t\<lparr>tr_partner_confirmation_id := Some c, tr_next_verification_at := None\<rparr>)
        COMPLETED reason (dict_set ''confirmation_id'' (JStr c) md) None = Inr (t1, e)"
    by blast
  note tr = te [unfolded transition_Inr_iff] and s1 = post_journal_Inr [OF post]
  have "flush_changes dbnow s1 t t1 [e] = Inr s'"
    using assms(4) step by (simp add: commit_step_Inr)
  from flush_escrow [OF ok _ _ this] have s': "escrow_of s' = \<lparr>es_balance = user_balances (db_accounts s1),
      es_deals = (deals (db_transfers s))(tr_id t \<mapsto> (deal_of t, PAID))\<rparr>"
    using tr s1 by (simp add: same_identity_def)
  have "balances_change s (settle_delta t) s1"
    using s1 by (intro settle_changes [OF ok rows, of s1 dbnow]) simp
  then have "user_balances (db_accounts s1) = adjust (dl_to (deal_of t)) (dl_get (deal_of t)) (user_balances (db_accounts s))"
    using user_deltas(1) [OF ok(1)] by (intro user_balances_adjust) (auto simp: deal_of_def)
  moreover have "es_deals (escrow_of s) (tr_id t) = Some (deal_of t, HELD)"
    using tr deals_lookup [OF ok] by (cases "tr_status t") (auto simp: escrow_of_def can_transition_def)
  ultimately show ?thesis
    unfolding s' using pay [of "escrow_of s" "tr_id t" "deal_of t"] by (simp add: escrow_of_def)
qed

lemma reverse_escrow:
  assumes ok: "saga_inv pend s" "t \<in> set (db_transfers s)"
    and "reverse_transfer wall dbnow s t fc msg reason md = Inr step" "commit_step dbnow t step = Inr (st, s')"
  shows "escrow_step (escrow_of s) (escrow_of s')"
proof -
  obtain t1 e s1 where step: "step = ((t1, e), s1)" by (metis surj_pair)
  from reverse_transfer_Inr [OF ok, OF assms(3) [unfolded step]] obtain a1 a2 j where
    rows: "system_row s (tr_source_program_id t) TRANSFER_CLEARING a1"
      "user_row_of s (tr_user_id t) (tr_source_account_id t) (tr_source_program_id t) a2"
    and post: "post_journal dbnow s TRANSFER_REVERSAL (reverse_postings a1 a2 t) (Some (tr_id t)) = Inr (j, s1)"
    and te: "transition wall (t\<lparr>tr_failure_code := Some fc, tr_failure_message := Some msg, tr_next_verification_at := None\<rparr>)
        REVERSED reason (dict_set ''failure_code'' (JStr (failure_code_text fc)) md) None = Inr (t1, e)"
    by blast
  note tr = te [unfolded transition_Inr_iff] and s1 = post_journal_Inr [OF post]
  have "flush_changes dbnow s1 t t1 [e] = Inr s'"
    using assms(4) step by (simp add: commit_step_Inr)
  from flush_escrow [OF ok _ _ this] have s': "escrow_of s' = \<lparr>es_balance = user_balances (db_accounts s1),
      es_deals = (deals (db_transfers s))(tr_id t \<mapsto> (deal_of t, RETURNED))\<rparr>"
    using tr s1 by (simp add: same_identity_def)
  have "balances_change s (reverse_delta t) s1"
    using s1 by (intro reverse_changes [OF ok rows, of s1 dbnow]) simp
  then have "user_balances (db_accounts s1) = adjust (dl_from (deal_of t)) (dl_give (deal_of t)) (user_balances (db_accounts s))"
    using user_deltas(2) [OF ok(1)] by (intro user_balances_adjust) (auto simp: deal_of_def)
  moreover have "es_deals (escrow_of s) (tr_id t) = Some (deal_of t, HELD)"
    using tr deals_lookup [OF ok] by (cases "tr_status t") (auto simp: escrow_of_def can_transition_def)
  ultimately show ?thesis
    unfolding s' using return_held [of "escrow_of s" "tr_id t" "deal_of t"] by (simp add: escrow_of_def)
qed

lemma user_balances_row:
  assumes "ledger_ok s" "a \<in> set (db_accounts s)" "acc_owner_type a = USER"
  shows "user_balances (db_accounts s) (acc_id a) = Some (acc_balance a)"
  using assms unfolding user_balances_def
  by (intro map_of_is_SomeI) (auto simp: ledger_ok_def accounts_ok_def distinct_map inj_on_def)

lemma owns_balance: "ledger_ok s \<Longrightarrow> owns s u aid pid \<Longrightarrow> aid \<in> dom (user_balances (db_accounts s))"
  using user_balances_row by (fastforce simp: owns_def list_ex_iff)

lemma debit_escrow:
  assumes ok: "saga_ok s" and run: "debit_source dbnow wall now tid u req key s = Inr (d, s')"
  shows "escrow_step (escrow_of s) (escrow_of s')"
proof -
  from debit_source_effect [OF ok run] obtain t src where s': "db_transfers s' = db_transfers s @ [t]"
    and t: "tr_status t = SOURCE_DEBITED" and src: "src \<in> set (db_accounts s)" "acc_id src = tr_source_account_id t"
      "tr_source_points t \<le> acc_balance src"
    and bal: "balances_change s (debit_delta t) s'"
    by auto
  have ok': "saga_ok s'"
    using debit_source_keeps [OF ok run] by (simp add: saga_step_def)
  have tin: "t \<in> set (db_transfers s')" and fresh: "tr_id t \<notin> tr_id ` set (db_transfers s)"
    using ok' s' by (auto simp: saga_inv_def)
  note D = saga_transferD [OF ok' tin]
  have adj: "user_balances (db_accounts s') = adjust (dl_from (deal_of t)) (- dl_give (deal_of t)) (user_balances (db_accounts s))"
    using user_deltas(3) [OF ok] by (intro user_balances_adjust [OF bal]) (auto simp: deal_of_def)
  have "dom (user_balances (db_accounts s')) = dom (user_balances (db_accounts s))"
    by (simp add: adj)
  then have dom: "tr_source_account_id t \<in> dom (user_balances (db_accounts s))"
    "tr_destination_account_id t \<in> dom (user_balances (db_accounts s))"
    using owns_balance [OF D(2,3)] owns_balance [OF D(2,4)] by simp_all
  have ne: "tr_destination_account_id t \<noteq> tr_source_account_id t"
    using D(3-5) owns_row [OF D(2,3)] owns_row [OF D(2,4)] by (auto simp: owns_def list_ex_iff)
  have "acc_owner_type src = USER"
  proof -
    from dom(1) obtain a where a: "a \<in> set (db_accounts s)" "acc_owner_type a = USER" "acc_id a = tr_source_account_id t"
      by (auto simp: user_balances_def dest!: map_of_SomeD)
    with src account_ids_inj [of s a src] ok show ?thesis by (auto simp: saga_inv_def)
  qed
  then have "user_balances (db_accounts s) (tr_source_account_id t) = Some (acc_balance src)"
    using user_balances_row [of s src] src ok by (simp add: saga_inv_def)
  moreover have "deals (db_transfers s) (tr_id t) = None"
    using fresh by (auto simp: deals_def map_of_eq_None_iff image_image)
  ultimately show ?thesis
    using hold [of "escrow_of s" "tr_id t" "deal_of t" "acc_balance src"] D(6,7) dom(2) ne src(3) t adj
      deals_snoc [OF fresh]
    by (simp add: escrow_of_def deal_of_def s')
qed

lemma mark_submitted_escrow:
  assumes "saga_ok s" "mark_submitted dbnow wall now tid pc s = Inr (st, s')"
  shows "escrow_of s' = escrow_of s"
proof -
  from assms(2) obtain t t1 e where t: "lock_transfer s tid = Inr t"
    and te: "transition wall t PARTNER_SUBMITTED ''partner_credit_requested'' [(''partner'', JStr pc)] (Some now) = Inr (t1, e)"
    and flush: "flush_changes dbnow s t t1 [e] = Inr s'"
    by (auto simp: mark_submitted_def bindE_Inr_iff commit_step_Inr)
  note tr = te [unfolded transition_Inr_iff]
  have "tr_status t = SOURCE_DEBITED"
    using tr by (cases "tr_status t") (auto simp: can_transition_def)
  then show ?thesis
    using lock_transfer_Inr [OF t] tr
    by (intro move_escrow [OF assms(1) _ _ flush]) (auto simp: same_identity_def)
qed

lemma apply_partner_outcome_escrow:
  assumes "saga_ok s" "apply_partner_outcome dbnow wall now vd tid r s = Inr (st, s')"
  shows "escrow_step (escrow_of s) (escrow_of s')"
proof -
  from assms(2) obtain t where t: "lock_transfer s tid = Inr t"
    by (auto simp: apply_partner_outcome_def bindE_Inr_iff)
  note t' = lock_transfer_Inr [OF t]
  have unknown: "escrow_of s' = escrow_of s" if "transition wall (t\<lparr>tr_next_verification_at := Some (now + vd)\<rparr>) PENDING_VERIFICATION
      ''partner_outcome_unknown'' (credit_metadata r) (Some now) = Inr (t1, e)"
    "flush_changes dbnow s t t1 [e] = Inr s'" "tr_status t = PARTNER_SUBMITTED" for t1 e
    using that(1) [unfolded transition_Inr_iff] t' that(3)
    by (intro move_escrow [OF assms(1) _ _ that(2)]) (auto simp: same_identity_def)
  show ?thesis
    using assms t t' unknown idle [of "escrow_of s"] settle_escrow [OF assms(1)] reverse_escrow [OF assms(1)]
    by (auto simp: apply_partner_outcome_def bindE_Inr_iff commit_step_Inr split: if_splits)
qed

lemma reverse_interrupted_escrow:
  assumes "saga_ok s" "reverse_interrupted dbnow wall tid s = Inr (r, s')"
  shows "escrow_step (escrow_of s) (escrow_of s')"
  using assms lock_transfer_Inr [of s tid] idle [of "escrow_of s"] reverse_escrow [OF assms(1)]
  by (auto simp: reverse_interrupted_def bindE_Inr_iff split: if_splits)

lemma apply_status_escrow:
  assumes ok: "saga_ok s" and run: "apply_status policy dbnow wall now tid r s = Inr (out, s')"
  shows "escrow_step (escrow_of s) (escrow_of s')"
proof -
  from run obtain t where lock: "lock_transfer s tid = Inr t"
    by (auto simp: apply_status_def bindE_Inr_iff)
  note t = lock_transfer_Inr [OF lock]
  show ?thesis
  proof (cases "tr_status t \<in> set VERIFIABLE_STATUSES")
    case False
    with run lock idle show ?thesis by (simp add: apply_status_def)
  next
    case True
    then have st: "tr_status t \<in> {PARTNER_SUBMITTED, PENDING_VERIFICATION}"
      by (simp add: VERIFIABLE_STATUSES_def)
    have recheck: "escrow_of s' = escrow_of s"
      if "recheck_after_grace policy wall now dec t md = Inr (x, t1, es)" "flush_changes dbnow s t t1 es = Inr s'"
      for dec md x t1 es
    proof -
      from that(1) obtain t0 where v: "start_verifying wall t md = Inr (t0, es)"
        and t1: "t1 = t0\<lparr>tr_next_verification_at := Some (min (now + po_backoff_base policy) dec)\<rparr>"
        by (auto simp: recheck_after_grace_def bindE_Inr_iff)
      show ?thesis
        using start_verifying_Inr [OF v] st t t1
        by (intro move_escrow [OF ok _ _ that(2)]) (auto simp: same_identity_def)
    qed
    have escalate: "escrow_of s' = escrow_of s"
      if "retry_or_escalate policy wall now t md = Inr (x, t1, es)" "flush_changes dbnow s t t1 es = Inr s'"
      for md x t1 es
      using retry_or_escalate_Inr [OF that(1) st] st t
      by (intro move_escrow [OF ok _ _ that(2)]) auto
    show ?thesis
      using run lock True t recheck escalate settle_escrow [OF ok] reverse_escrow [OF ok] idle [of "escrow_of s"]
      by (auto simp: apply_status_def commit_changes_def bindE_Inr_iff Let_def split: if_splits)
  qed
qed

lemma claim_due_escrow:
  assumes "claim_due policy now busy n s = Inr (claimed, s')"
  shows "escrow_of s' = escrow_of s"
proof -
  have "deals (map (\<lambda>t. if P t then t\<lparr>tr_next_verification_at := m\<rparr> else t) ts) = deals ts" for P m ts
    by (induction ts) (auto simp: deals_def deal_of_def)
  then show ?thesis
    using claim_due_Inr [OF assms] by (simp add: escrow_of_def)
qed

section \<open>Refinement\<close>

text \<open>
  A simulation: a concrete system that keeps an invariant, and an abstraction under which each of its steps
  is an abstract one. Runs then simulate runs, and what every abstract step keeps holds of the concrete
  system.
\<close>

locale simulation =
  fixes cstep :: "'c \<Rightarrow> 'c \<Rightarrow> bool" and astep :: "'a \<Rightarrow> 'a \<Rightarrow> bool" and abstraction :: "'c \<Rightarrow> 'a" and inv :: "'c \<Rightarrow> bool"
  assumes keeps: "cstep c c' \<Longrightarrow> inv c \<Longrightarrow> inv c'"
    and simulates: "cstep c c' \<Longrightarrow> inv c \<Longrightarrow> astep (abstraction c) (abstraction c')"
begin

lemma runs: "cstep\<^sup>*\<^sup>* c c' \<Longrightarrow> inv c \<Longrightarrow> inv c' \<and> astep\<^sup>*\<^sup>* (abstraction c) (abstraction c')"
  by (induction rule: rtranclp_induct) (auto intro: keeps simulates rtranclp.rtrancl_into_rtrancl)

lemma kept:
  assumes "cstep\<^sup>*\<^sup>* c c'" "inv c" "P (abstraction c)" "\<And>a a'. astep a a' \<Longrightarrow> P a \<Longrightarrow> P a'"
  shows "P (abstraction c')"
proof -
  have "astep\<^sup>*\<^sup>* (abstraction c) (abstraction c')" using runs assms(1,2) by blast
  then show ?thesis
    using assms(3,4) by (induction rule: rtranclp_induct) blast+
qed

end

lemma txn_escrow: "txn s s' \<Longrightarrow> saga_ok s \<Longrightarrow> escrow_step (escrow_of s) (escrow_of s')"
proof (induction rule: txn.induct)
  case (txn_debit dbnow wall now tid u req key s d s')
  then show ?case using debit_escrow by (auto simp: unit_of_work_Inr_iff)
next
  case (txn_submit dbnow wall now tid pc s st s')
  then show ?case using mark_submitted_escrow [of s] idle by (auto simp: unit_of_work_Inr_iff)
next
  case (txn_outcome dbnow wall now vd tid r s st s')
  then show ?case using apply_partner_outcome_escrow by (auto simp: unit_of_work_Inr_iff)
next
  case (txn_claim policy now busy n s ids s')
  then show ?case using claim_due_escrow [of policy now busy n s] idle by (auto simp: unit_of_work_Inr_iff)
next
  case (txn_interrupted dbnow wall tid s x s')
  then show ?case using reverse_interrupted_escrow by (auto simp: unit_of_work_Inr_iff)
next
  case (txn_verify policy dbnow wall now tid pr s x s')
  then show ?case using apply_status_escrow by (auto simp: unit_of_work_Inr_iff)
qed

lemma reachable_runs: "reachable s s' \<longleftrightarrow> txn\<^sup>*\<^sup>* s s'"
proof
  show "reachable s s' \<Longrightarrow> txn\<^sup>*\<^sup>* s s'"
    by (induction rule: reachable.induct) auto
  show "txn\<^sup>*\<^sup>* s s' \<Longrightarrow> reachable s s'"
    by (induction rule: rtranclp_induct) (auto intro: reachable.intros)
qed

interpretation engine: simulation txn escrow_step escrow_of saga_ok
proof
  show "txn s s' \<Longrightarrow> saga_ok s \<Longrightarrow> saga_ok s'" for s s'
    using txn_keeps by (simp add: saga_step_def)
qed (rule txn_escrow)

section \<open>Account statements\<close>

text \<open>What a deal has taken from an account so far: what was given and not returned, less what was paid in.\<close>

fun taken :: "int \<Rightarrow> deal \<times> phase \<Rightarrow> int" where
  "taken i (d, ph) = (if dl_from d = i \<and> ph \<noteq> RETURNED then dl_give d else 0) - (if dl_to d = i \<and> ph = PAID then dl_get d else 0)"

definition taken_total :: "int \<Rightarrow> (string \<rightharpoonup> deal \<times> phase) \<Rightarrow> int" where
  "taken_total i ds = (\<Sum>k\<in>dom ds. taken i (the (ds k)))"

lemma taken_total_update:
  assumes "finite (dom ds)"
  shows "taken_total i (ds(k \<mapsto> x)) = taken_total i ds + taken i x - (case ds k of None \<Rightarrow> 0 | Some y \<Rightarrow> taken i y)"
proof -
  have "(\<Sum>k'\<in>dom ds - {k}. taken i (the ((ds(k \<mapsto> x)) k'))) = (\<Sum>k'\<in>dom ds - {k}. taken i (the (ds k')))"
    by (intro sum.cong) auto
  then have "taken_total i (ds(k \<mapsto> x)) = taken i x + (\<Sum>k'\<in>dom ds - {k}. taken i (the (ds k')))"
    using assms by (simp add: taken_total_def sum.insert_remove)
  moreover have "(\<Sum>k'\<in>dom ds - {k}. taken i (the (ds k'))) = taken_total i ds - (case ds k of None \<Rightarrow> 0 | Some y \<Rightarrow> taken i y)"
    using assms by (auto simp: taken_total_def sum_diff1 split: option.splits)
  ultimately show ?thesis by linarith
qed

lemma escrow_statement:
  assumes "escrow_step e e'" "finite (dom (es_deals e))"
  shows "finite (dom (es_deals e')) \<and> map_option (\<lambda>v. v + taken_total i (es_deals e')) (es_balance e' i)
    = map_option (\<lambda>v. v + taken_total i (es_deals e)) (es_balance e i)"
  using assms
  by (induction rule: escrow_step.induct)
    (auto simp: taken_total_update adjust_def option.map_comp comp_def intro!: option.map_cong)

lemma taken_total_deals:
  assumes "distinct (map tr_id ts)"
  shows "taken_total i (deals ts) =
    sum_list (map tr_source_points (filter (\<lambda>t. tr_source_account_id t = i \<and> tr_status t \<noteq> REVERSED) ts))
    - sum_list (map tr_destination_points (filter (\<lambda>t. tr_destination_account_id t = i \<and> tr_status t = COMPLETED) ts))"
  using assms
proof (induction ts rule: rev_induct)
  case Nil
  show ?case by (simp add: deals_def taken_total_def)
next
  case (snoc t ts)
  then have fresh: "tr_id t \<notin> tr_id ` set ts" "deals ts (tr_id t) = None"
    by (auto simp: deals_def map_of_eq_None_iff image_image)
  have "finite (dom (deals ts))"
    by (simp add: deals_def finite_dom_map_of)
  from taken_total_update [OF this, of i "tr_id t" "(deal_of t, phase_of (tr_status t))"]
  have "taken_total i (deals (ts @ [t])) = taken_total i (deals ts) + taken i (deal_of t, phase_of (tr_status t))"
    unfolding deals_snoc [OF fresh(1)] fresh(2) by simp
  then show ?case
    using snoc by (cases "tr_status t") (simp_all add: deal_of_def)
qed

section \<open>Properties\<close>

text \<open>
  C4: the engine is an escrow. Whatever interleaving of requests and reconciliation workers runs, with whatever
  answers of the partners, the user balances and the phases of the transfers follow a run of the escrow, and
  every further transaction is one of its moves or none: points are held only if the account has them, and
  held points are paid out or returned once, in full, to the account of the deal.
\<close>

theorem engine_refines_escrow:
  assumes "saga_ok s0" "reachable s0 s"
  shows "escrow_step\<^sup>*\<^sup>* (escrow_of s0) (escrow_of s) \<and> (\<forall>s'. txn s s' \<longrightarrow> escrow_step (escrow_of s) (escrow_of s'))"
  using engine.runs [of s0 s] engine.simulates [of s] assms by (auto simp: reachable_runs)

theorem engine_refines_escrow_witness:
  "escrow_step\<^sup>*\<^sup>* (escrow_of sample_db) (escrow_of submitted_db)
    \<and> es_deals (escrow_of submitted_db) sample_id = Some (deal_of (sample_row PARTNER_SUBMITTED 10), HELD)"
  using engine_refines_escrow [OF sample_db_saga_ok submitted_reachable]
  by (simp add: escrow_of_def deals_def)

text \<open>
  C5: account statements add up. Between any two databases of an interleaving, the balance of a user account
  changes by exactly what its transfers account for: the destination points of the completed transfers into it
  less the source points of the transfers out of it that were not reversed.
\<close>

theorem account_statements_add_up:
  assumes "saga_ok s0" "reachable s0 s" "a0 \<in> set (db_accounts s0)" "acc_owner_type a0 = USER"
    and "a \<in> set (db_accounts s)" "acc_id a = acc_id a0"
  shows "acc_balance a - acc_balance a0 =
      (sum_list (map tr_destination_points (filter (\<lambda>t. tr_destination_account_id t = acc_id a \<and> tr_status t = COMPLETED) (db_transfers s)))
       - sum_list (map tr_source_points (filter (\<lambda>t. tr_source_account_id t = acc_id a \<and> tr_status t \<noteq> REVERSED) (db_transfers s))))
    - (sum_list (map tr_destination_points (filter (\<lambda>t. tr_destination_account_id t = acc_id a \<and> tr_status t = COMPLETED) (db_transfers s0)))
       - sum_list (map tr_source_points (filter (\<lambda>t. tr_source_account_id t = acc_id a \<and> tr_status t \<noteq> REVERSED) (db_transfers s0))))"
proof -
  let ?i = "acc_id a" and ?e = "escrow_of s0"
  have ok: "saga_ok s"
    using engine.runs [of s0 s] assms(1,2) by (simp add: reachable_runs)
  have led: "ledger_ok s0" "ledger_ok s" and ids: "distinct (map tr_id (db_transfers s0))" "distinct (map tr_id (db_transfers s))"
    using assms(1) ok by (simp_all add: saga_inv_def)
  have bal0: "es_balance ?e ?i = Some (acc_balance a0)"
    using user_balances_row [OF led(1) assms(3,4)] assms(6) by (simp add: escrow_of_def)
  have "finite (dom (es_deals (escrow_of s))) \<and> map_option (\<lambda>v. v + taken_total ?i (es_deals (escrow_of s))) (es_balance (escrow_of s) ?i)
      = map_option (\<lambda>v. v + taken_total ?i (es_deals ?e)) (es_balance ?e ?i)"
    by (rule engine.kept [of s0 s "\<lambda>e. finite (dom (es_deals e)) \<and> map_option (\<lambda>v. v + taken_total ?i (es_deals e)) (es_balance e ?i)
        = map_option (\<lambda>v. v + taken_total ?i (es_deals ?e)) (es_balance ?e ?i)"])
      (use assms(1,2) escrow_statement in \<open>auto simp: reachable_runs escrow_of_def deals_def finite_dom_map_of\<close>)
  then obtain b where b: "user_balances (db_accounts s) ?i = Some b"
      "b + taken_total ?i (deals (db_transfers s)) = acc_balance a0 + taken_total ?i (deals (db_transfers s0))"
    using bal0 by (auto simp: escrow_of_def)
  have "acc_owner_type a = USER"
    using b(1) assms(5) account_ids_inj [OF led(2), of a] by (fastforce simp: user_balances_def dest!: map_of_SomeD)
  then have "b = acc_balance a"
    using user_balances_row [OF led(2) assms(5)] b(1) by simp
  then show ?thesis
    using b(2) taken_total_deals [OF ids(1)] taken_total_deals [OF ids(2)] by simp
qed

theorem account_statements_add_up_witness:
  "\<exists>a \<in> set (db_accounts submitted_db). \<exists>a0 \<in> set (db_accounts sample_db).
     acc_id a = tr_source_account_id (sample_row PARTNER_SUBMITTED 10) \<and> acc_balance a - acc_balance a0 = - 900"
proof -
  let ?before = "hd (filter (\<lambda>a. acc_owner_type a = USER) (db_accounts sample_db))"
  let ?after = "hd (filter (\<lambda>a. acc_owner_type a = USER) (db_accounts submitted_db))"
  have 1: "?before \<in> set (db_accounts sample_db)" "acc_owner_type ?before = USER" "?after \<in> set (db_accounts submitted_db)"
    "acc_id ?after = acc_id ?before" "acc_id ?after = tr_source_account_id (sample_row PARTNER_SUBMITTED 10)"
    "tr_destination_account_id (sample_row PARTNER_SUBMITTED 10) \<noteq> tr_source_account_id (sample_row PARTNER_SUBMITTED 10)"
    "tr_source_points (sample_row PARTNER_SUBMITTED 10) = 900" "db_transfers sample_db = []"
    by code_simp+
  show ?thesis
    using account_statements_add_up [OF sample_db_saga_ok submitted_reachable 1(1-4)] 1
    by (intro bexI [of _ ?after] bexI [of _ ?before]) simp_all
qed

end
