(* ===== verification/Verification_Loop.thy ===== *)
theory Verification_Loop
  imports Outcomes "HOL-Library.Multiset"
begin

text \<open>
  What the reconciler does with a transfer whose outcome is unknown: the two answers of the partner that
  decide it, the checks that do not, how often those are repeated and how they end, and which transfers a
  worker may claim. The statements are about \<open>apply_status\<close>, \<open>claim_due\<close>, \<open>backoff\<close> and \<open>reconcile\<close>.
\<close>

section \<open>The text of a counter\<close>

lemma length_show_int4: "in_int4 i \<Longrightarrow> 0 \<le> i \<Longrightarrow> length (show_int i) \<le> 10"
  using length_show_nat [of "nat i" 10] by (simp add: show_int_def in_int4_def)

section \<open>Flushing several events\<close>

lemma flush_events_succeed:
  assumes "list_ex (\<lambda>r. tr_id r = tid) (db_transfers s)"
    and "\<forall>e \<in> set es. pe_transfer_id e = tid \<and> length (pe_reason e) \<le> 200"
  shows "\<exists>evs. flush_events dbnow s es =
    Inr (s\<lparr>db_events := db_events s @ evs, db_next_event_id := db_next_event_id s + int (length es)\<rparr>)"
  using assms
proof (induction es arbitrary: s)
  case (Cons e es)
  let ?s1 = "s\<lparr>db_events := db_events s @ [added_event dbnow s e], db_next_event_id := db_next_event_id s + 1\<rparr>"
  have "flush_event dbnow s e = Inr ?s1"
    using Cons.prems by (simp add: flush_event_Inr_iff)
  moreover obtain evs where "flush_events dbnow ?s1 es =
      Inr (?s1\<lparr>db_events := db_events ?s1 @ evs, db_next_event_id := db_next_event_id ?s1 + int (length es)\<rparr>)"
    using Cons.IH [of ?s1] Cons.prems by auto
  ultimately show ?case
    by (intro exI [of _ "added_event dbnow s e # evs"]) (simp add: add.assoc)
qed (auto intro: exI [of _ "[]"])

lemma flush_changes_list:
  assumes "list_all fst (transfer_ranges t1 @ transfer_checks t1)" "tr_id t1 = tr_id t" "t \<in> set (db_transfers s)" "t1 \<noteq> t"
    and "\<forall>e \<in> set es. pe_transfer_id e = tr_id t \<and> length (pe_reason e) \<le> 200"
  shows "\<exists>t' evs. (t' = t1 \<or> t' = t1\<lparr>tr_updated_at := dbnow\<rparr>) \<and> flush_changes dbnow s t t1 es =
    Inr (s\<lparr>db_transfers := update_where (\<lambda>r. tr_id r = tr_id t) (\<lambda>_. t') (db_transfers s),
      db_events := db_events s @ evs, db_next_event_id := db_next_event_id s + int (length es)\<rparr>)"
proof -
  define t' where "t' = touch_updated_at dbnow t t1"
  have t': "t' = t1 \<or> t' = t1\<lparr>tr_updated_at := dbnow\<rparr>"
    by (simp add: t'_def touch_updated_at_def)
  then have checks: "\<forall>c \<in> set (transfer_ranges t'). fst c" "\<forall>c \<in> set (transfer_checks t'). fst c"
    using assms(1) by (auto simp: list_all_iff transfer_ranges_def transfer_checks_def)
  let ?s1 = "s\<lparr>db_transfers := update_where (\<lambda>r. tr_id r = tr_id t) (\<lambda>_. t') (db_transfers s)\<rparr>"
  have "flush_transfer dbnow s t t1 = Inr ?s1"
    using checks assms(4) checked_Inr_iff [of "transfer_checks t'"] ranged_Inr_iff [of "transfer_ranges t'"]
    by (simp add: flush_transfer_def t'_def [symmetric])
  moreover have "list_ex (\<lambda>r. tr_id r = tr_id t) (db_transfers ?s1)"
  proof -
    have "t' \<in> set (db_transfers ?s1)" "tr_id t' = tr_id t"
      using assms(2,3) t' by (force simp: set_update_where)+
    then show ?thesis unfolding list_ex_iff by blast
  qed
  ultimately show ?thesis
    using t' flush_events_succeed [of "tr_id t" ?s1 es dbnow] assms(5)
    by (auto simp: flush_changes_def)
qed

section \<open>The answers that decide a transfer\<close>

text \<open>The default policy of \<^verbatim>\<open>app/config.py\<close>, in microseconds.\<close>

definition sample_policy :: reconciliation_policy where
  "sample_policy = \<lparr>po_lease = 60000000, po_stuck_after = 60000000, po_not_found_grace = 60000000, po_max_attempts = 5,
     po_backoff_base = 10000000, po_backoff_max = 600000000\<rparr>"

lemma verifiable: "set VERIFIABLE_STATUSES = {PARTNER_SUBMITTED, PENDING_VERIFICATION}"
  by (auto simp: VERIFIABLE_STATUSES_def)

text \<open>
  C11: a decisive answer resolves the transfer. If the partner has the credit, the check commits the
  settlement: COMPLETED with the partner's confirmation, the same balance changes as a confirmed credit. If
  the partner has no such credit and the grace period since the transfer's creation is over, it commits the
  reversal: REVERSED with the code PARTNER_NOT_RECEIVED and the points returned in full.
\<close>

theorem verification_resolves:
  assumes "saga_ok s" "t \<in> set (db_transfers s)" "tr_status t \<in> set VERIFIABLE_STATUSES" "systems_present s" "headroom s t"
  shows "(st_status r = STATUS_COMPLETED \<and> st_confirmation_id r = Some c \<and> c \<noteq> [] \<and> length c \<le> 128 \<longrightarrow>
      (\<exists>s' t'. unit_of_work (apply_status policy dbnow wall now (tr_id t) r) s = (Inr R_COMPLETED, s')
        \<and> balances_change s (settle_delta t) s' \<and> t' \<in> set (db_transfers s') \<and> same_identity t t'
        \<and> tr_status t' = COMPLETED \<and> tr_partner_confirmation_id t' = Some c))
   \<and> (st_status r = STATUS_NOT_FOUND \<and> tr_created_at t + po_not_found_grace policy \<le> now \<longrightarrow>
      (\<exists>s' t'. unit_of_work (apply_status policy dbnow wall now (tr_id t) r) s = (Inr R_REVERSED, s')
        \<and> balances_change s (reverse_delta t) s' \<and> t' \<in> set (db_transfers s') \<and> same_identity t t'
        \<and> tr_status t' = REVERSED \<and> tr_failure_code t' = Some PARTNER_NOT_RECEIVED))"
proof (intro conjI impI; (elim conjE)?)
  assume r: "st_status r = STATUS_COMPLETED" "st_confirmation_id r = Some c" "c \<noteq> []" "length c \<le> 128"
  have "apply_status policy dbnow wall now (tr_id t) r s = bindE (bindE (settle_transfer wall dbnow s t c
      ''reconciled_partner_has_credit'' (status_metadata r t)) (commit_step dbnow t)) (\<lambda>(st, s'). Inr (R_COMPLETED, s'))"
    using lock_transfer_eq [OF assms(1,2)] assms(3) r by (simp add: apply_status_def nonempty_def bindE_assoc)
  then show "\<exists>s' t'. unit_of_work (apply_status policy dbnow wall now (tr_id t) r) s = (Inr R_COMPLETED, s')
        \<and> balances_change s (settle_delta t) s' \<and> t' \<in> set (db_transfers s') \<and> same_identity t t'
        \<and> tr_status t' = COMPLETED \<and> tr_partner_confirmation_id t' = Some c"
    using settle_unit [OF assms(1,2,4,5) assms(3) [unfolded verifiable] r(3,4),
        of "''reconciled_partner_has_credit''" wall dbnow "status_metadata r t"] verify_txn.commits [OF assms(1)]
    by fastforce
next
  assume r: "st_status r = STATUS_NOT_FOUND" "tr_created_at t + po_not_found_grace policy \<le> now"
  have st: "tr_status t \<in> {SOURCE_DEBITED, PARTNER_SUBMITTED, PENDING_VERIFICATION}"
    using assms(3) by (auto simp: verifiable)
  let ?msg = "''The partner never received the credit. Points were returned.''"
  have "apply_status policy dbnow wall now (tr_id t) r s = bindE (bindE (reverse_transfer wall dbnow s t PARTNER_NOT_RECEIVED
      ?msg ''reconciled_partner_has_no_credit'' (status_metadata r t)) (commit_step dbnow t)) (\<lambda>(st, s'). Inr (R_REVERSED, s'))"
    using lock_transfer_eq [OF assms(1,2)] assms(3) r by (simp add: apply_status_def bindE_assoc)
  then show "\<exists>s' t'. unit_of_work (apply_status policy dbnow wall now (tr_id t) r) s = (Inr R_REVERSED, s')
        \<and> balances_change s (reverse_delta t) s' \<and> t' \<in> set (db_transfers s') \<and> same_identity t t'
        \<and> tr_status t' = REVERSED \<and> tr_failure_code t' = Some PARTNER_NOT_RECEIVED"
    using reverse_unit [OF assms(1,2,4,5) st, of ?msg "''reconciled_partner_has_no_credit''" wall dbnow PARTNER_NOT_RECEIVED
        "status_metadata r t"] verify_txn.commits [OF assms(1)]
    by fastforce
qed

theorem verification_resolves_witness:
  "(\<exists>s'. unit_of_work (apply_status sample_policy 12 12 12 sample_id
      (mk_status STATUS_COMPLETED ''credit_found'' False (Some ''AIR_B-1'') (Some 200))) submitted_db = (Inr R_COMPLETED, s')
    \<and> balances_change submitted_db (settle_delta (sample_row PARTNER_SUBMITTED 10)) s')
   \<and> (\<exists>s'. unit_of_work (apply_status sample_policy 12 12 60000009 sample_id
      (mk_status STATUS_NOT_FOUND ''credit_not_found'' False None (Some 404))) submitted_db = (Inr R_REVERSED, s')
    \<and> balances_change submitted_db (reverse_delta (sample_row PARTNER_SUBMITTED 10)) s')"
proof -
  have st: "tr_status (sample_row PARTNER_SUBMITTED 10) \<in> set VERIFIABLE_STATUSES"
    by (simp add: VERIFIABLE_STATUSES_def)
  have created: "tr_created_at (sample_row PARTNER_SUBMITTED 10) = 9"
    by (simp add: sample_row_def)
  have row: "sample_row PARTNER_SUBMITTED 10 \<in> set (db_transfers submitted_db)"
    by simp
  show ?thesis
    using verification_resolves [OF submitted_ok row st submitted_facts,
        of "mk_status STATUS_COMPLETED ''credit_found'' False (Some ''AIR_B-1'') (Some 200)" "''AIR_B-1''" sample_policy 12 12 12]
      verification_resolves [OF submitted_ok row st submitted_facts,
        of "mk_status STATUS_NOT_FOUND ''credit_not_found'' False None (Some 404)" "[]" sample_policy 12 12 60000009] created
    by (auto simp: sample_policy_def)
qed

section \<open>No other answer moves points\<close>

lemma flush_changes_ledger:
  assumes "flush_changes dbnow s t t1 es = Inr s'"
  shows "db_accounts s' = db_accounts s \<and> db_journals s' = db_journals s \<and> db_entries s' = db_entries s"
proof -
  from assms obtain s1 where s1: "flush_transfer dbnow s t t1 = Inr s1" "flush_events dbnow s1 es = Inr s'"
    by (auto simp: flush_changes_def result_simps)
  with flush_transfer_Inr [OF s1(1)] flush_events_Inr [OF s1(2)] show ?thesis
    by (auto split: if_splits)
qed

text \<open>
  C12: the reconciler never guesses. Whatever the partner answers and whenever, a status check leaves
  accounts, journals and entries as they are, unless it settles, for which the partner confirmed the credit,
  or reverses, for which the partner has no such credit and the grace period since the transfer's creation is
  over. A transfer that is not open to verification is left unchanged and reported as already resolved.
\<close>

theorem verification_never_guesses:
  assumes "unit_of_work (apply_status policy dbnow wall now tid r) s = (out, s')" "lock_transfer s tid = Inr t"
  shows "(db_accounts s' = db_accounts s \<and> db_journals s' = db_journals s \<and> db_entries s' = db_entries s
      \<and> out \<notin> {Inr R_COMPLETED, Inr R_REVERSED})
    \<or> (out = Inr R_COMPLETED \<and> tr_status t \<in> set VERIFIABLE_STATUSES \<and> st_status r = STATUS_COMPLETED
        \<and> (\<exists>c. st_confirmation_id r = Some c \<and> c \<noteq> []))
    \<or> (out = Inr R_REVERSED \<and> tr_status t \<in> set VERIFIABLE_STATUSES \<and> st_status r = STATUS_NOT_FOUND
        \<and> tr_created_at t + po_not_found_grace policy \<le> now)"
  (is "?same \<or> ?settled \<or> ?reversed")
proof (cases out)
  case (Inl e)
  then show ?thesis using assms(1) unit_of_work_Inl [of _ s e s'] by auto
next
  case (Inr x)
  then have run: "apply_status policy dbnow wall now tid r s = Inr (x, s')"
    using assms(1) by (simp add: unit_of_work_Inr_iff)
  have recheck: "x = R_RETRY_SCHEDULED" if "recheck_after_grace policy wall now d t md = Inr (x, t1, es)" for d md t1 es
    using that by (auto simp: recheck_after_grace_def result_simps)
  have retry: "x \<in> {R_RETRY_SCHEDULED, R_MANUAL_REVIEW}" if "retry_or_escalate policy wall now t md = Inr (x, t1, es)" for md t1 es
    using that by (auto simp: retry_or_escalate_def result_simps Let_def split: if_splits)
  show ?thesis
    using run assms(2) Inr flush_changes_ledger [of dbnow s t] recheck retry
    by (auto simp: apply_status_def commit_changes_def nonempty_def Let_def result_simps
        split: if_splits option.splits dest!: recheck retry)
qed

theorem verification_never_guesses_witness:
  "db_accounts (snd (unit_of_work (apply_status sample_policy 12 12 12 sample_id
      (mk_status STATUS_NOT_FOUND ''credit_not_found'' False None (Some 404))) submitted_db)) = db_accounts submitted_db"
proof -
  obtain out s' where run: "unit_of_work (apply_status sample_policy 12 12 12 sample_id
      (mk_status STATUS_NOT_FOUND ''credit_not_found'' False None (Some 404))) submitted_db = (out, s')"
    by (rule prod.exhaust)
  have lock: "lock_transfer submitted_db sample_id = Inr (sample_row PARTNER_SUBMITTED 10)"
    by (simp add: lock_transfer_def)
  show ?thesis
    using verification_never_guesses [OF run lock] run by (auto simp: sample_policy_def sample_row_def)
qed

section \<open>Inconclusive checks\<close>

text \<open>An answer that decides nothing: unknown, or a credit reported without a confirmation.\<close>

definition inconclusive :: "status_result \<Rightarrow> bool" where
  "inconclusive r = (st_status r = STATUS_UNKNOWN \<or> st_status r = STATUS_COMPLETED \<and> nonempty (st_confirmation_id r) = None)"

lemma inconclusive_apply:
  assumes "lock_transfer s tid = Inr t" "tr_status t \<in> set VERIFIABLE_STATUSES" "inconclusive r"
  shows "apply_status policy dbnow wall now tid r s =
    bindE (retry_or_escalate policy wall now t (status_metadata r t)) (commit_changes dbnow s t)"
  using assms by (auto simp: apply_status_def inconclusive_def)

lemma retry_or_escalate_run:
  assumes "transfer_linked False s t" "tr_status t \<in> {PARTNER_SUBMITTED, PENDING_VERIFICATION}"
    and "in_int4 (tr_verification_attempts t + 1)"
    and "backoff policy (tr_verification_attempts t + 1) = Inr d \<or> po_max_attempts policy \<le> tr_verification_attempts t + 1"
  shows "\<exists>out t1 es. retry_or_escalate policy wall now t md = Inr (out, t1, es)
    \<and> list_all fst (transfer_ranges t1 @ transfer_checks t1)
    \<and> (\<forall>e \<in> set es. pe_transfer_id e = tr_id t \<and> length (pe_reason e) \<le> 200)
    \<and> (po_max_attempts policy \<le> tr_verification_attempts t + 1 \<longrightarrow> tr_failure_code t1 = Some VERIFICATION_EXHAUSTED)"
proof -
  have att: "0 \<le> tr_verification_attempts t"
    using assms(1) by (simp add: transfer_linked_def transfer_checks_def)
  then have len: "length (show_int (tr_verification_attempts t + 1)) \<le> 10"
    using length_show_int4 [OF assms(3)] by simp
  obtain t0 es0 where v: "start_verifying wall t md = Inr (t0, es0)" "tr_status t0 = PENDING_VERIFICATION"
    "\<forall>e \<in> set es0. pe_transfer_id e = tr_id t \<and> length (pe_reason e) \<le> 200"
    "\<exists>u. t0 = t\<lparr>tr_status := PENDING_VERIFICATION, tr_updated_at := u\<rparr>"
  proof (cases "tr_status t = PARTNER_SUBMITTED")
    case True
    then have "start_verifying wall t md = Inr (t\<lparr>tr_status := PENDING_VERIFICATION, tr_updated_at := wall\<rparr>,
        [\<lparr>pe_transfer_id = tr_id t, pe_from_status = Some PARTNER_SUBMITTED, pe_to_status = PENDING_VERIFICATION,
          pe_reason = ''reconciler_verifying'', pe_metadata = md\<rparr>])"
      by (simp add: start_verifying_def transition_def can_transition_def FINAL_STATUSES_def Let_def)
    then show ?thesis by (rule that) auto
  next
    case False
    then have "tr_status t = PENDING_VERIFICATION" using assms(2) by simp
    then show ?thesis
      by (intro that [of t "[]"]) (auto simp: start_verifying_def intro!: exI [of _ "tr_updated_at t"])
  qed
  obtain u where t0: "t0 = t\<lparr>tr_status := PENDING_VERIFICATION, tr_updated_at := u\<rparr>"
    using v(4) by blast
  have row: "list_all fst (transfer_ranges (t0\<lparr>tr_verification_attempts := tr_verification_attempts t + 1,
      tr_next_verification_at := m\<rparr>) @ transfer_checks (t0\<lparr>tr_verification_attempts := tr_verification_attempts t + 1,
      tr_next_verification_at := m\<rparr>))" for m
    using assms(1-3) att unfolding t0 by (auto simp: transfer_linked_def transfer_ranges_def transfer_checks_def)
  show ?thesis
  proof (cases "po_max_attempts policy \<le> tr_verification_attempts t + 1")
    case True
    define msg where "msg = ''Partner outcome still unknown after '' @ show_int (tr_verification_attempts t + 1)
      @ '' verification attempts. '' @ ''Points are held in clearing until an operator resolves the transfer.''"
    let ?t3 = "t0\<lparr>tr_verification_attempts := tr_verification_attempts t + 1, tr_failure_code := Some VERIFICATION_EXHAUSTED,
      tr_failure_message := Some msg, tr_next_verification_at := None, tr_status := MANUAL_REVIEW, tr_updated_at := wall\<rparr>"
    define e where "e = \<lparr>pe_transfer_id = tr_id t, pe_from_status = Some PENDING_VERIFICATION, pe_to_status = MANUAL_REVIEW,
      pe_reason = ''verification_exhausted'', pe_metadata = dict_set ''verification_attempts'' (JInt (tr_verification_attempts t + 1)) md\<rparr>"
    have "length msg \<le> 500" using len by (simp add: msg_def)
    then have "list_all fst (transfer_ranges ?t3 @ transfer_checks ?t3)"
      using row [of None] unfolding t0 by (auto simp: transfer_ranges_def transfer_checks_def fits_def)
    moreover have "retry_or_escalate policy wall now t md = Inr (R_MANUAL_REVIEW, ?t3, es0 @ [e])"
      using True v(1) unfolding t0
      by (simp add: retry_or_escalate_def transition_def can_transition_def FINAL_STATUSES_def Let_def msg_def e_def)
    moreover have "\<forall>x \<in> set (es0 @ [e]). pe_transfer_id x = tr_id t \<and> length (pe_reason x) \<le> 200"
      using v(3) by (auto simp: e_def)
    moreover have "tr_failure_code ?t3 = Some VERIFICATION_EXHAUSTED" by simp
    ultimately show ?thesis by blast
  next
    case False
    then have "retry_or_escalate policy wall now t md = Inr (R_RETRY_SCHEDULED,
        t0\<lparr>tr_verification_attempts := tr_verification_attempts t + 1, tr_next_verification_at := Some (now + d)\<rparr>, es0)"
      using v(1) assms(4) unfolding t0 by (simp add: retry_or_escalate_def)
    with row v(3) False show ?thesis by blast
  qed
qed

text \<open>
  An inconclusive check counts. It commits without touching balances or journals, adds one to the
  attempts, and schedules the next check at the exponential delay capped by the policy; when the attempts
  reach the maximum, the transfer goes to MANUAL_REVIEW with the code VERIFICATION_EXHAUSTED and no next
  check. The delay must be representable and the counter must fit its column.
\<close>

lemma inconclusive_check_counts:
  assumes "saga_ok s" "t \<in> set (db_transfers s)" "tr_status t \<in> set VERIFIABLE_STATUSES" "inconclusive r"
    and "n = tr_verification_attempts t + 1" "in_int4 n"
    and "n < po_max_attempts policy \<longrightarrow> po_backoff_base policy * 2 ^ nat (n - 1) \<le> TIMEDELTA_MAX"
  shows "\<exists>s' t'. unit_of_work (apply_status policy dbnow wall now (tr_id t) r) s =
      (Inr (if n < po_max_attempts policy then R_RETRY_SCHEDULED else R_MANUAL_REVIEW), s')
    \<and> db_accounts s' = db_accounts s \<and> db_journals s' = db_journals s \<and> db_entries s' = db_entries s
    \<and> t' \<in> set (db_transfers s') \<and> same_identity t t' \<and> tr_verification_attempts t' = n
    \<and> (if n < po_max_attempts policy
       then tr_status t' = PENDING_VERIFICATION
         \<and> tr_next_verification_at t' = Some (now + min (po_backoff_max policy) (po_backoff_base policy * 2 ^ nat (n - 1)))
       else tr_status t' = MANUAL_REVIEW \<and> tr_failure_code t' = Some VERIFICATION_EXHAUSTED \<and> tr_next_verification_at t' = None)"
proof -
  let ?d = "min (po_backoff_max policy) (po_backoff_base policy * 2 ^ nat (n - 1))"
  have st: "tr_status t \<in> {PARTNER_SUBMITTED, PENDING_VERIFICATION}"
    using assms(3) by (simp add: verifiable)
  have d: "backoff policy n = Inr ?d" if "n < po_max_attempts policy"
    using that assms(7) by (simp add: backoff_def)
  obtain out t1 es where run: "retry_or_escalate policy wall now t (status_metadata r t) = Inr (out, t1, es)"
    and ok1: "list_all fst (transfer_ranges t1 @ transfer_checks t1)"
      "\<forall>e \<in> set es. pe_transfer_id e = tr_id t \<and> length (pe_reason e) \<le> 200"
    and code: "po_max_attempts policy \<le> n \<longrightarrow> tr_failure_code t1 = Some VERIFICATION_EXHAUSTED"
    using retry_or_escalate_run [OF saga_transferD(1) [OF assms(1,2)] st, of policy ?d wall now "status_metadata r t"] assms(5,6) d
    by fastforce
  note R = retry_or_escalate_Inr [OF run st]
  have "t1 \<noteq> t" using R(4) by auto
  then obtain t' evs where t': "t' = t1 \<or> t' = t1\<lparr>tr_updated_at := dbnow\<rparr>"
    and flush: "flush_changes dbnow s t t1 es =
      Inr (s\<lparr>db_transfers := update_where (\<lambda>r. tr_id r = tr_id t) (\<lambda>_. t') (db_transfers s),
        db_events := db_events s @ evs, db_next_event_id := db_next_event_id s + int (length es)\<rparr>)" (is "_ = Inr ?s'")
    using flush_changes_list [OF ok1(1) _ assms(2) _ ok1(2), of dbnow] R(1) by (auto simp: same_identity_def)
  have "apply_status policy dbnow wall now (tr_id t) r s = Inr (out, ?s')"
    using inconclusive_apply [OF lock_transfer_eq [OF assms(1,2)] assms(3,4)] run flush by (simp add: commit_changes_def)
  then have "unit_of_work (apply_status policy dbnow wall now (tr_id t) r) s = (Inr out, ?s')"
    using verify_txn.commits [OF assms(1)] by blast
  moreover have "t' \<in> set (db_transfers ?s')"
    using assms(2) by (force simp: set_update_where)
  moreover have "same_identity t t'" "tr_verification_attempts t' = n"
    "out = (if n < po_max_attempts policy then R_RETRY_SCHEDULED else R_MANUAL_REVIEW)"
    "if n < po_max_attempts policy
       then tr_status t' = PENDING_VERIFICATION \<and> tr_next_verification_at t' = Some (now + ?d)
       else tr_status t' = MANUAL_REVIEW \<and> tr_failure_code t' = Some VERIFICATION_EXHAUSTED \<and> tr_next_verification_at t' = None"
    using t' R d code assms(5) by (auto simp: same_identity_def)
  ultimately show ?thesis by (intro exI [of _ ?s'] exI [of _ t']) simp
qed

text \<open>A sequence of checks: the moments of each and the partner's answer. The results are listed.\<close>

fun run_checks ::
  "reconciliation_policy \<Rightarrow> string \<Rightarrow> (moment \<times> moment \<times> moment \<times> status_result) list \<Rightarrow> db
    \<Rightarrow> reconcile_result result list \<times> db" where
  "run_checks policy tid [] s = ([], s)"
| "run_checks policy tid ((dbnow, wall, now, r) # checks) s =
     (let (out, s1) = unit_of_work (apply_status policy dbnow wall now tid r) s; (outs, s2) = run_checks policy tid checks s1
      in (out # outs, s2))"

lemma backoff_delay_fits:
  assumes "0 \<le> po_backoff_base policy" "po_backoff_base policy * 2 ^ nat (po_max_attempts policy - 2) \<le> TIMEDELTA_MAX"
    and "1 \<le> n" "n < po_max_attempts policy"
  shows "po_backoff_base policy * 2 ^ nat (n - 1) \<le> TIMEDELTA_MAX"
proof -
  have "(2::int) ^ nat (n - 1) \<le> 2 ^ nat (po_max_attempts policy - 2)"
    using assms(3,4) by (intro power_increasing) auto
  then have "po_backoff_base policy * 2 ^ nat (n - 1) \<le> po_backoff_base policy * 2 ^ nat (po_max_attempts policy - 2)"
    using assms(1) by (rule mult_left_mono)
  with assms(2) show ?thesis by simp
qed

text \<open>
  C13: verification ends. If the partner stays inconclusive, the checks of a transfer are scheduled again until
  the attempts reach the maximum, and the check that reaches it hands the transfer to an operator: after as
  many checks as attempts were left it is in MANUAL_REVIEW, every check committed, and no points have moved.
  The policy's longest delay must be representable and its maximum must fit the column.
\<close>

theorem verification_terminates:
  assumes "saga_ok s" "t \<in> set (db_transfers s)" "tr_status t \<in> set VERIFIABLE_STATUSES"
    and "tr_verification_attempts t < po_max_attempts policy" "in_int4 (po_max_attempts policy)"
    and "0 \<le> po_backoff_base policy" "po_backoff_base policy * 2 ^ nat (po_max_attempts policy - 2) \<le> TIMEDELTA_MAX"
    and "length checks = nat (po_max_attempts policy - tr_verification_attempts t)" "list_all (\<lambda>(_, _, _, r). inconclusive r) checks"
  shows "\<exists>s' t'. run_checks policy (tr_id t) checks s =
      (replicate (length checks - 1) (Inr R_RETRY_SCHEDULED) @ [Inr R_MANUAL_REVIEW], s')
    \<and> db_accounts s' = db_accounts s \<and> db_journals s' = db_journals s
    \<and> t' \<in> set (db_transfers s') \<and> same_identity t t' \<and> tr_status t' = MANUAL_REVIEW
    \<and> tr_verification_attempts t' = po_max_attempts policy"
  using assms(1-4,8,9)
proof (induction checks arbitrary: s t)
  case (Cons x checks)
  obtain dbnow wall now r where x: "x = (dbnow, wall, now, r)" by (cases x)
  let ?n = "tr_verification_attempts t + 1"
  have n0: "0 \<le> tr_verification_attempts t"
    using saga_transferD(1) [OF Cons.prems(1,2)] by (simp add: transfer_linked_def transfer_checks_def)
  have delay: "?n < po_max_attempts policy \<longrightarrow> po_backoff_base policy * 2 ^ nat (?n - 1) \<le> TIMEDELTA_MAX"
    using backoff_delay_fits [OF assms(6,7), of ?n] n0 by simp
  have "in_int4 ?n" "inconclusive r"
    using assms(5) Cons.prems(4,6) n0 by (auto simp: in_int4_def x)
  from inconclusive_check_counts [OF Cons.prems(1-3) this(2) refl this(1) delay, of dbnow wall now]
  obtain s1 t1 where step: "unit_of_work (apply_status policy dbnow wall now (tr_id t) r) s =
      (Inr (if ?n < po_max_attempts policy then R_RETRY_SCHEDULED else R_MANUAL_REVIEW), s1)"
    and s1: "db_accounts s1 = db_accounts s" "db_journals s1 = db_journals s" "t1 \<in> set (db_transfers s1)" "same_identity t t1"
      "tr_verification_attempts t1 = ?n"
    and st1: "tr_status t1 = (if ?n < po_max_attempts policy then PENDING_VERIFICATION else MANUAL_REVIEW)"
    by (auto split: if_splits)
  have ok1: "saga_ok s1"
    using verify_txn.unit_keeps [OF Cons.prems(1), of policy dbnow wall now "tr_id t" r] step by (simp add: saga_step_def)
  have id: "tr_id t1 = tr_id t" using s1(4) by (simp add: same_identity_def)
  show ?case
  proof (cases "?n < po_max_attempts policy")
    case True
    have len: "length checks = nat (po_max_attempts policy - tr_verification_attempts t1)" "checks \<noteq> []"
      using Cons.prems(5) True s1(5) by auto
    from Cons.IH [OF ok1 s1(3) _ _ len(1)] st1 True s1(5) Cons.prems(6) obtain s' t' where
      IH: "run_checks policy (tr_id t) checks s1 = (replicate (length checks - 1) (Inr R_RETRY_SCHEDULED) @ [Inr R_MANUAL_REVIEW], s')"
        "db_accounts s' = db_accounts s1" "db_journals s' = db_journals s1" "t' \<in> set (db_transfers s')" "same_identity t1 t'"
        "tr_status t' = MANUAL_REVIEW" "tr_verification_attempts t' = po_max_attempts policy"
      by (auto simp: verifiable id)
    have "replicate (length checks) z = z # replicate (length checks - 1) z" for z :: "reconcile_result result"
      using len(2) by (cases checks) auto
    then show ?thesis
      using step True IH s1 by (auto simp: x same_identity_def)
  next
    case False
    then have "po_max_attempts policy - tr_verification_attempts t = 1" using Cons.prems(4) by linarith
    then have "checks = []" using Cons.prems(5) by simp
    with step False s1 st1 Cons.prems(4) show ?thesis by (auto simp: x)
  qed
qed simp

theorem verification_terminates_witness:
  "\<exists>s'. run_checks sample_policy sample_id (replicate 5 (12, 12, 12, mk_status STATUS_UNKNOWN ''circuit_open'' False None None)) submitted_db
    = (replicate 4 (Inr R_RETRY_SCHEDULED) @ [Inr R_MANUAL_REVIEW], s') \<and> db_accounts s' = db_accounts submitted_db"
proof -
  have row: "sample_row PARTNER_SUBMITTED 10 \<in> set (db_transfers submitted_db)"
    "tr_status (sample_row PARTNER_SUBMITTED 10) \<in> set VERIFIABLE_STATUSES"
    "tr_verification_attempts (sample_row PARTNER_SUBMITTED 10) = 0"
    by (simp_all add: VERIFIABLE_STATUSES_def sample_row_def sample_transfer_def)
  show ?thesis
    using verification_terminates [OF submitted_ok row(1,2), of sample_policy
        "replicate 5 (12, 12, 12, mk_status STATUS_UNKNOWN ''circuit_open'' False None None)"] row(3)
    by (auto simp: sample_policy_def in_int4_def TIMEDELTA_MAX_def inconclusive_def mk_status_def list_all_iff)
qed

section \<open>A delay that cannot be represented\<close>

text \<open>
  C39: the exponential delay is computed before it is capped. Once the doubled base no longer fits a
  \<^verbatim>\<open>timedelta\<close> while attempts are left, every inconclusive check of the transfer raises OverflowError and
  rolls back, at every later moment: the attempts do not advance, and the transfer never reaches manual review.
\<close>

theorem backoff_overflow_strands:
  assumes "lock_transfer s tid = Inr t" "tr_status t \<in> set VERIFIABLE_STATUSES" "inconclusive r"
    and "0 \<le> tr_verification_attempts t" "tr_verification_attempts t + 1 < po_max_attempts policy"
    and "TIMEDELTA_MAX < po_backoff_base policy * 2 ^ nat (tr_verification_attempts t)"
  shows "unit_of_work (apply_status policy dbnow wall now tid r) s = (Inl OverflowError, s)"
proof -
  obtain t0 es where v: "start_verifying wall t (status_metadata r t) = Inr (t0, es)" "tr_verification_attempts t0 = tr_verification_attempts t"
    using assms(2) by (auto simp: start_verifying_def transition_def can_transition_def verifiable Let_def FINAL_STATUSES_def)
  have "backoff policy (tr_verification_attempts t + 1) = Inl OverflowError"
    using assms(6) by (simp add: backoff_def)
  then have "retry_or_escalate policy wall now t (status_metadata r t) = Inl OverflowError"
    using v assms(5) by (simp add: retry_or_escalate_def Let_def)
  then show ?thesis
    using inconclusive_apply [OF assms(1-3)] by (simp add: unit_of_work_def)
qed

theorem backoff_overflow_strands_witness:
  "unit_of_work (apply_status (sample_policy\<lparr>po_max_attempts := 100\<rparr>) 12 12 12 sample_id
      (mk_status STATUS_UNKNOWN ''circuit_open'' False None None))
      (submitted_db\<lparr>db_transfers := [(sample_row PENDING_VERIFICATION 10)\<lparr>tr_verification_attempts := 43\<rparr>]\<rparr>)
    = (Inl OverflowError, submitted_db\<lparr>db_transfers := [(sample_row PENDING_VERIFICATION 10)\<lparr>tr_verification_attempts := 43\<rparr>]\<rparr>)"
  by (rule backoff_overflow_strands [of _ _ "(sample_row PENDING_VERIFICATION 10)\<lparr>tr_verification_attempts := 43\<rparr>"])
    (simp_all add: lock_transfer_def VERIFIABLE_STATUSES_def inconclusive_def mk_status_def sample_policy_def TIMEDELTA_MAX_def)

section \<open>Claims\<close>

lemma mset_verification_order: "mset (verification_order ts) = mset ts"
  using multiset_partition [of "mset ts" "\<lambda>t. tr_next_verification_at t = None"]
  by (simp add: verification_order_def Let_def del: not_None_eq)

lemma set_verification_order [simp]: "set (verification_order ts) = set ts"
  using mset_verification_order by (rule mset_eq_setD)

lemma length_verification_order [simp]: "length (verification_order ts) = length ts"
  using mset_verification_order by (rule mset_eq_length)

lemma distinct_verification_order: "distinct (map tr_id ts) \<Longrightarrow> distinct (map tr_id (verification_order ts))"
  using mset_verification_order [of ts] by (metis mset_map mset_eq_imp_distinct_iff)

lemma leased_not_due:
  assumes "tr_next_verification_at t = Some m" "now < m"
  shows "\<not> due policy now t"
  using assms by (simp add: due_def)

lemma claimed_due:
  assumes "claim_due policy now busy n s = Inr (ids, s')" "tid \<in> set ids"
  shows "\<exists>t \<in> set (db_transfers s). tr_id t = tid \<and> due policy now t \<and> \<not> busy tid"
proof -
  let ?free = "filter (\<lambda>t. due policy now t \<and> \<not> busy (tr_id t)) (db_transfers s)"
  have "set ids \<subseteq> tr_id ` set ?free"
    using set_take_subset [of n "verification_order ?free"] unfolding claim_due_Inr(1) [OF assms(1)] by auto
  with assms(2) show ?thesis by auto
qed

lemma leased_unclaimed:
  assumes t: "saga_ok s" "t \<in> set (db_transfers s)" "tr_next_verification_at t = Some m" "now < m"
    and claim: "claim_due policy now busy n s = Inr (ids, s')"
  shows "tr_id t \<notin> set ids \<and> t \<in> set (db_transfers s')"
proof -
  have "distinct (map tr_id (db_transfers s))"
    using t(1) by (simp add: saga_inv_def)
  then have "t' = t" if "t' \<in> set (db_transfers s)" "tr_id t' = tr_id t" for t'
    using that t(2) by (simp add: distinct_map inj_on_def)
  then have "tr_id t \<notin> set ids"
    using claimed_due [OF claim, of "tr_id t"] leased_not_due [OF t(3,4)] by blast
  then show ?thesis
    using claim_due_Inr(2) [OF claim] t(2) by force
qed

lemma claim_due_total: "\<exists>ids s1. claim_due policy now busy n s = Inr (ids, s1)"
  by (simp add: claim_due_def Let_def)

text \<open>
  C16: a claim is a lease. A worker claims each transfer once, at most a batch, only transfers that are due and
  that no other transaction has locked; it leaves such a transfer unclaimed only if the batch is full; it
  defers the next verification of what it claimed to the end of the lease. In any later database in which a
  claimed transfer still carries that time, a claim made before the lease is over does not return it and
  leaves its row as it is. (A check that finishes earlier sets its own next verification, which ends the lease.)
\<close>

theorem claims_are_leases:
  assumes "saga_ok s" "unit_of_work (claim_due policy now busy n) s = (Inr ids, s1)"
  shows "distinct ids \<and> length ids \<le> n
    \<and> (\<forall>tid \<in> set ids. \<exists>t \<in> set (db_transfers s). tr_id t = tid \<and> due policy now t \<and> \<not> busy tid)
    \<and> (\<forall>t \<in> set (db_transfers s). due policy now t \<and> \<not> busy (tr_id t) \<and> tr_id t \<notin> set ids \<longrightarrow> length ids = n)
    \<and> (\<forall>t \<in> set (db_transfers s1). tr_id t \<in> set ids \<longrightarrow> tr_next_verification_at t = Some (now + po_lease policy))
    \<and> (\<forall>t \<in> set (db_transfers later). saga_ok later \<and> tr_id t \<in> set ids
        \<and> tr_next_verification_at t = Some (now + po_lease policy)
        \<and> now2 < now + po_lease policy \<and> unit_of_work (claim_due policy now2 busy2 n2) later = (Inr ids2, s2) \<longrightarrow>
        tr_id t \<notin> set ids2 \<and> t \<in> set (db_transfers s2))"
proof -
  let ?free = "filter (\<lambda>t. due policy now t \<and> \<not> busy (tr_id t)) (db_transfers s)"
  have claim: "claim_due policy now busy n s = Inr (ids, s1)"
    using assms(2) by (simp add: unit_of_work_Inr_iff)
  have ids: "ids = map tr_id (take n (verification_order ?free))"
    and s1: "s1 = s\<lparr>db_transfers := map (\<lambda>t. if tr_id t \<in> set ids
      then t\<lparr>tr_next_verification_at := Some (now + po_lease policy)\<rparr> else t) (db_transfers s)\<rparr>"
    using claim_due_Inr [OF claim] by simp_all
  have "distinct (map tr_id ?free)"
    using assms(1) by (simp add: saga_inv_def distinct_map_filter)
  then have 1: "distinct ids"
    using distinct_verification_order unfolding ids take_map [symmetric] by (blast intro: distinct_take)
  have 0: "length ids \<le> n" by (simp add: ids)
  have 3: "length ids = n" if "t \<in> set ?free" "tr_id t \<notin> set ids" for t
  proof (rule ccontr)
    assume "length ids \<noteq> n"
    then have "take n (verification_order ?free) = verification_order ?free"
      unfolding ids by (simp add: min_def split: if_splits)
    then have "set ids = tr_id ` set ?free" by (simp add: ids)
    with that show False by auto
  qed
  have 5: "tr_next_verification_at t = Some (now + po_lease policy)" if "t \<in> set (db_transfers s1)" "tr_id t \<in> set ids" for t
    using that by (auto simp: s1 split: if_splits)
  show ?thesis
    using 0 1 3 5 claimed_due [OF claim] leased_unclaimed [of later _ "now + po_lease policy" now2 policy busy2 n2 ids2 s2]
    by (intro conjI ballI impI) (auto simp: unit_of_work_Inr_iff)
qed

text \<open>A sample: one overdue transfer, claimed by a first worker and then invisible to a second.\<close>

theorem claims_are_leases_witness:
  "\<exists>s1. unit_of_work (claim_due sample_policy 70000000 (\<lambda>_. False) 50) submitted_db = (Inr [sample_id], s1)
    \<and> (\<exists>s2. unit_of_work (claim_due sample_policy 80000000 (\<lambda>_. False) 50) s1 = (Inr [], s2))"
proof -
  obtain ids s1 where 1: "unit_of_work (claim_due sample_policy 70000000 (\<lambda>_. False) 50) submitted_db = (Inr ids, s1)"
    "claim_due sample_policy 70000000 (\<lambda>_. False) 50 submitted_db = Inr (ids, s1)"
    using claim_txn.commits [OF submitted_ok] claim_due_total [of sample_policy 70000000 "\<lambda>_. False" 50 submitted_db] by blast
  have ids: "ids = [sample_id]"
    using claim_due_Inr(1) [OF 1(2)]
    by (simp add: due_def sample_policy_def sample_row_def sample_transfer_def STUCK_STATUSES_def verification_order_def)
  have ok: "saga_ok s1"
    using claim_txn.unit_keeps [OF submitted_ok, of sample_policy 70000000 "\<lambda>_. False" 50] 1(1) by (simp add: saga_step_def)
  obtain ids2 s2 where 2: "unit_of_work (claim_due sample_policy 80000000 (\<lambda>_. False) 50) s1 = (Inr ids2, s2)"
    "claim_due sample_policy 80000000 (\<lambda>_. False) 50 s1 = Inr (ids2, s2)"
    using claim_txn.commits [OF ok] claim_due_total [of sample_policy 80000000 "\<lambda>_. False" 50 s1] by blast
  have "set ids2 \<subseteq> tr_id ` set (db_transfers s1)"
    using claimed_due [OF 2(2)] by blast
  then have sub: "set ids2 \<subseteq> {sample_id}"
    using claim_due_Inr(2) [OF 1(2)] ids by simp
  have row: "\<exists>t \<in> set (db_transfers s1). tr_id t = sample_id"
    using claim_due_Inr(2) [OF 1(2)] ids by simp
  have "sample_id \<notin> set ids2"
    using claims_are_leases [OF submitted_ok 1(1), of s1 80000000 "\<lambda>_. False" 50 ids2 s2] 2(1) ids ok row
    by (auto simp: sample_policy_def)
  with sub have "ids2 = []" by (cases ids2) auto
  then show ?thesis using 1(1) 2(1) ids by blast
qed

end
