(* ===== verification/Rate_Admin.thy ===== *)
theory Rate_Admin
  imports Rate_Repository "HOL-Library.List_Lexorder" "HOL-Library.Multiset"
begin

text \<open>
  Rate administration, \<^verbatim>\<open>app/services/rate_admin.py\<close>: versioned rates and time-bound bonuses, with the
  constraints of the tables \<^verbatim>\<open>conversion_rates\<close> and \<^verbatim>\<open>transfer_bonuses\<close>. The invariant \<open>rate_book_ok\<close> says that
  the versions of a route follow each other without overlap; changing a rate keeps it, and it makes the query
  for the rate in effect unambiguous.
\<close>

section \<open>Requests and views\<close>

record new_rate =
  nr_source_program :: string
  nr_destination_program :: string
  nr_numerator :: int
  nr_denominator :: int
  nr_min_source_points :: int
  nr_source_increment :: int
  nr_max_source_points :: "int option"

record new_bonus =
  nb_source_program :: string
  nb_destination_program :: string
  nb_bonus_bps :: int
  nb_starts_at :: moment
  nb_ends_at :: moment

record rate_version =
  rv_id :: int
  rv_source_program :: string
  rv_destination_program :: string
  rv_numerator :: int
  rv_denominator :: int
  rv_min_source_points :: int
  rv_source_increment :: int
  rv_max_source_points :: "int option"
  rv_version :: int
  rv_effective_from :: moment
  rv_effective_to :: "moment option"
  rv_active :: bool

definition is_current :: "rate_version \<Rightarrow> bool" where
  "is_current v = (rv_active v \<and> rv_effective_to v = None)"

record bonus_view =
  bv_id :: int
  bv_source_program :: string
  bv_destination_program :: string
  bv_bonus_bps :: int
  bv_starts_at :: moment
  bv_ends_at :: moment

definition to_rate_version :: "conversion_rate \<Rightarrow> string \<Rightarrow> string \<Rightarrow> rate_version" where
  "to_rate_version row source_code destination_code =
     \<lparr>rv_id = cr_id row, rv_source_program = source_code, rv_destination_program = destination_code,
      rv_numerator = cr_numerator row, rv_denominator = cr_denominator row,
      rv_min_source_points = cr_min_source_points row, rv_source_increment = cr_source_increment row,
      rv_max_source_points = cr_max_source_points row, rv_version = cr_version row,
      rv_effective_from = cr_effective_from row, rv_effective_to = cr_effective_to row, rv_active = cr_active row\<rparr>"

text \<open>The bounds that the request models of \<^verbatim>\<open>app/api/schemas.py\<close> put on the numbers.\<close>

definition rate_request_ok :: "new_rate \<Rightarrow> bool" where
  "rate_request_ok n =
     (rate_term_field_ok (nr_numerator n) \<and> rate_term_field_ok (nr_denominator n)
      \<and> points_field_ok (nr_min_source_points n) \<and> points_field_ok (nr_source_increment n)
      \<and> (case nr_max_source_points n of None \<Rightarrow> True | Some m \<Rightarrow> points_field_ok m))"

text \<open>Python's \<^verbatim>\<open>%\<close> raises on a zero divisor; otherwise it is HOL's \<open>mod\<close> on \<open>int\<close>.\<close>

definition validate_rate :: "new_rate \<Rightarrow> unit result" where
  "validate_rate n =
     bindE (ensure_different_programs (nr_source_program n) (nr_destination_program n)) (\<lambda>_.
     bindE (raise_if (case nr_max_source_points n of None \<Rightarrow> False | Some m \<Rightarrow> m < nr_min_source_points n)
       (mk_domain_error INVALID_RATE ''max_source_points must be >= min_source_points.'' [])) (\<lambda>_.
     bindE (raise_if (nr_source_increment n = 0) (OtherError ''ZeroDivisionError'')) (\<lambda>_.
     raise_if (nr_min_source_points n mod nr_source_increment n \<noteq> 0)
       (mk_domain_error INVALID_RATE ''min_source_points must be a multiple of source_increment.'' []))))"

section \<open>The tables\<close>

definition rate_ranges :: "conversion_rate \<Rightarrow> (bool \<times> string) list" where
  "rate_ranges r =
     [(in_bigint (cr_numerator r), ''numerator''),
      (in_bigint (cr_denominator r), ''denominator''),
      (in_bigint (cr_min_source_points r), ''min_source_points''),
      (in_bigint (cr_source_increment r), ''source_increment''),
      (case cr_max_source_points r of None \<Rightarrow> True | Some m \<Rightarrow> in_bigint m, ''max_source_points''),
      (in_int4 (cr_version r), ''version'')]"

definition rate_checks :: "conversion_rate \<Rightarrow> (bool \<times> string) list" where
  "rate_checks r =
     [(0 < cr_denominator r, ''ck_conversion_rates_denominator_positive''),
      (cr_source_program_id r \<noteq> cr_destination_program_id r, ''ck_conversion_rates_distinct_programs''),
      (case cr_effective_to r of None \<Rightarrow> True | Some e \<Rightarrow> cr_effective_from r < e,
        ''ck_conversion_rates_effective_window_valid''),
      (case cr_max_source_points r of None \<Rightarrow> True | Some m \<Rightarrow> cr_min_source_points r \<le> m,
        ''ck_conversion_rates_max_not_below_min''),
      (1 \<le> cr_min_source_points r, ''ck_conversion_rates_min_source_points_positive''),
      (0 < cr_numerator r, ''ck_conversion_rates_numerator_positive''),
      (1 \<le> cr_source_increment r, ''ck_conversion_rates_source_increment_positive''),
      (1 \<le> cr_version r, ''ck_conversion_rates_version_positive'')]"

abbreviation same_route :: "conversion_rate \<Rightarrow> conversion_rate \<Rightarrow> bool" where
  "same_route r q \<equiv> cr_source_program_id r = cr_source_program_id q \<and> cr_destination_program_id r = cr_destination_program_id q"

definition is_open :: "conversion_rate \<Rightarrow> bool" where
  "is_open r = (cr_effective_to r = None \<and> cr_active r)"

definition rate_uniques :: "db \<Rightarrow> conversion_rate \<Rightarrow> (bool \<times> string) list" where
  "rate_uniques s r =
     [(\<not> list_ex (\<lambda>q. cr_id q = cr_id r) (db_rates s), ''pk_conversion_rates''),
      (\<not> list_ex (\<lambda>q. same_route q r \<and> cr_version q = cr_version r) (db_rates s), ''uq_conversion_rates_route_version''),
      (\<not> list_ex (\<lambda>q. same_route q r \<and> is_open q \<and> is_open r) (db_rates s), ''uq_conversion_rates_route_open_version'')]"

definition rate_references :: "db \<Rightarrow> conversion_rate \<Rightarrow> (bool \<times> string) list" where
  "rate_references s r =
     [(list_ex (\<lambda>p. prg_id p = cr_destination_program_id r) (db_programs s),
        ''fk_conversion_rates_destination_program_id_programs''),
      (list_ex (\<lambda>p. prg_id p = cr_source_program_id r) (db_programs s),
        ''fk_conversion_rates_source_program_id_programs'')]"

definition insert_rate :: "db \<Rightarrow> conversion_rate \<Rightarrow> (conversion_rate \<times> db) result" where
  "insert_rate s r0 =
     (let r = r0\<lparr>cr_id := db_next_rate_id s\<rparr> in
      bindE (ranged (rate_ranges r)) (\<lambda>_.
      bindE (checked (rate_checks r @ rate_uniques s r @ rate_references s r)) (\<lambda>_.
      Inr (r, s\<lparr>db_rates := db_rates s @ [r], db_next_rate_id := db_next_rate_id s + 1\<rparr>))))"

text \<open>The flush that sets \<^verbatim>\<open>effective_to\<close> of one version.\<close>

definition close_rate :: "moment \<Rightarrow> conversion_rate \<Rightarrow> db \<Rightarrow> db result" where
  "close_rate changed_at r s =
     (let r' = r\<lparr>cr_effective_to := Some changed_at\<rparr> in
      bindE (checked (rate_checks r')) (\<lambda>_.
      Inr (s\<lparr>db_rates := update_where (\<lambda>q. cr_id q = cr_id r) (\<lambda>_. r') (db_rates s)\<rparr>)))"

definition bonus_checks :: "transfer_bonus \<Rightarrow> (bool \<times> string) list" where
  "bonus_checks b =
     [(0 < tb_bonus_bps b \<and> tb_bonus_bps b \<le> 10000, ''ck_transfer_bonuses_bonus_bps_range''),
      (tb_source_program_id b \<noteq> tb_destination_program_id b, ''ck_transfer_bonuses_distinct_programs''),
      (tb_starts_at b < tb_ends_at b, ''ck_transfer_bonuses_window_valid'')]"

definition bonuses_overlap :: "transfer_bonus \<Rightarrow> transfer_bonus \<Rightarrow> bool" where
  "bonuses_overlap b c =
     (tb_source_program_id b = tb_source_program_id c \<and> tb_destination_program_id b = tb_destination_program_id c
      \<and> tb_starts_at b < tb_ends_at c \<and> tb_starts_at c < tb_ends_at b)"

definition insert_bonus :: "db \<Rightarrow> transfer_bonus \<Rightarrow> (transfer_bonus \<times> db) result" where
  "insert_bonus s b0 =
     (let b = b0\<lparr>tb_id := db_next_bonus_id s\<rparr> in
      bindE (ranged [(in_int4 (tb_bonus_bps b), ''bonus_bps'')]) (\<lambda>_.
      bindE (checked (bonus_checks b @
        [(\<not> list_ex (\<lambda>c. tb_id c = tb_id b) (db_bonuses s), ''pk_transfer_bonuses''),
         (\<not> list_ex (bonuses_overlap b) (db_bonuses s), ''ex_transfer_bonuses_no_overlap''),
         (list_ex (\<lambda>p. prg_id p = tb_destination_program_id b) (db_programs s),
           ''fk_transfer_bonuses_destination_program_id_programs''),
         (list_ex (\<lambda>p. prg_id p = tb_source_program_id b) (db_programs s),
           ''fk_transfer_bonuses_source_program_id_programs'')])) (\<lambda>_.
      Inr (b, s\<lparr>db_bonuses := db_bonuses s @ [b], db_next_bonus_id := db_next_bonus_id s + 1\<rparr>))))"

section \<open>Operations\<close>

text \<open>\<^verbatim>\<open>coalesce(max(version), 0)\<close> over the versions of a route.\<close>

definition latest_version :: "db \<Rightarrow> int \<Rightarrow> int \<Rightarrow> int" where
  "latest_version s src dst =
     (case map cr_version (filter (on_route src dst) (db_rates s)) of [] \<Rightarrow> 0 | v # vs \<Rightarrow> fold max vs v)"

definition open_rate :: "db \<Rightarrow> int \<Rightarrow> int \<Rightarrow> conversion_rate option" where
  "open_rate s src dst = find (\<lambda>r. on_route src dst r \<and> is_open r) (db_rates s)"

text \<open>
  The transaction of \<^verbatim>\<open>create_rate_version\<close>: \<open>dbnow\<close> is \<^verbatim>\<open>now()\<close>, \<open>clock\<close> what \<^verbatim>\<open>clock_timestamp()\<close> returned
  once the advisory lock was held (the lock serialises the changes of a route; its two keys are cast to 32 bits).
\<close>

definition add_rate_version :: "moment \<Rightarrow> moment option \<Rightarrow> new_rate \<Rightarrow> db \<Rightarrow> (conversion_rate \<times> db) result" where
  "add_rate_version dbnow clock n s =
     bindE (load_programs s [nr_source_program n, nr_destination_program n]) (\<lambda>programs.
     bindE (of_option (OtherError ''KeyError'') (map_of programs (nr_source_program n))) (\<lambda>source.
     bindE (of_option (OtherError ''KeyError'') (map_of programs (nr_destination_program n))) (\<lambda>destination.
     bindE (ranged [(in_int4 (pr_id source), ''integer''), (in_int4 (pr_id destination), ''integer'')]) (\<lambda>_.
     bindE (of_option (RuntimeError ''clock_timestamp() returned NULL'') clock) (\<lambda>changed_at.
     let latest = latest_version s (pr_id source) (pr_id destination) in
     bindE (case open_rate s (pr_id source) (pr_id destination) of
              None \<Rightarrow> Inr s | Some current \<Rightarrow> close_rate changed_at current s) (\<lambda>s1.
     insert_rate s1 \<lparr>cr_id = 0, cr_source_program_id = pr_id source, cr_destination_program_id = pr_id destination,
       cr_numerator = nr_numerator n, cr_denominator = nr_denominator n, cr_min_source_points = nr_min_source_points n,
       cr_source_increment = nr_source_increment n, cr_max_source_points = nr_max_source_points n,
       cr_version = latest + 1, cr_effective_from = changed_at, cr_effective_to = None, cr_active = True,
       cr_created_at = dbnow\<rparr>))))))"

text \<open>The cache invalidator is an argument; it acts on the world \<open>w\<close> and never raises.\<close>

definition create_rate_version ::
  "(string \<Rightarrow> string \<Rightarrow> 'w \<Rightarrow> 'w) \<Rightarrow> moment \<Rightarrow> moment option \<Rightarrow> new_rate \<Rightarrow> db \<Rightarrow> 'w \<Rightarrow> rate_version result \<times> db \<times> 'w" where
  "create_rate_version invalidate dbnow clock n s w =
     (case validate_rate n of
        Inl e \<Rightarrow> (Inl e, s, w)
      | Inr _ \<Rightarrow>
          (case unit_of_work (add_rate_version dbnow clock n) s of
             (Inl e, s') \<Rightarrow> (Inl e, s', w)
           | (Inr created, s') \<Rightarrow>
               (Inr (to_rate_version created (nr_source_program n) (nr_destination_program n)), s',
                invalidate (nr_source_program n) (nr_destination_program n) w)))"

definition on_bonus_error :: "exc \<Rightarrow> exc" where
  "on_bonus_error e =
     (if e = IntegrityError ''ex_transfer_bonuses_no_overlap''
      then mk_domain_error BONUS_OVERLAP ''Another bonus on this route overlaps the requested period.'' [] else e)"

definition add_bonus :: "moment \<Rightarrow> new_bonus \<Rightarrow> db \<Rightarrow> (transfer_bonus \<times> db) result" where
  "add_bonus dbnow n s =
     bindE (load_programs s [nb_source_program n, nb_destination_program n]) (\<lambda>programs.
     bindE (of_option (OtherError ''KeyError'') (map_of programs (nb_source_program n))) (\<lambda>source.
     bindE (of_option (OtherError ''KeyError'') (map_of programs (nb_destination_program n))) (\<lambda>destination.
     bindE (raise_if (open_rate s (pr_id source) (pr_id destination) = None)
       (mk_domain_error ROUTE_NOT_SUPPORTED ''A bonus needs a supported route; create a rate for it first.'' [])) (\<lambda>_.
     catchE (insert_bonus s \<lparr>tb_id = 0, tb_source_program_id = pr_id source, tb_destination_program_id = pr_id destination,
       tb_bonus_bps = nb_bonus_bps n, tb_starts_at = nb_starts_at n, tb_ends_at = nb_ends_at n,
       tb_created_at = dbnow\<rparr>) on_bonus_error))))"

definition create_bonus ::
  "(string \<Rightarrow> string \<Rightarrow> 'w \<Rightarrow> 'w) \<Rightarrow> moment \<Rightarrow> new_bonus \<Rightarrow> moment \<Rightarrow> db \<Rightarrow> 'w \<Rightarrow> bonus_view result \<times> db \<times> 'w" where
  "create_bonus invalidate dbnow n now s w =
     (case bindE (ensure_different_programs (nb_source_program n) (nb_destination_program n)) (\<lambda>_.
           bindE (raise_if (nb_ends_at n \<le> nb_starts_at n)
             (mk_domain_error INVALID_BONUS ''ends_at must be after starts_at.'' [])) (\<lambda>_.
           raise_if (nb_ends_at n \<le> now) (mk_domain_error INVALID_BONUS ''ends_at must be in the future.'' []))) of
        Inl e \<Rightarrow> (Inl e, s, w)
      | Inr _ \<Rightarrow>
          (case unit_of_work (add_bonus dbnow n) s of
             (Inl e, s') \<Rightarrow> (Inl e, s', w)
           | (Inr b, s') \<Rightarrow>
               (Inr \<lparr>bv_id = tb_id b, bv_source_program = nb_source_program n,
                     bv_destination_program = nb_destination_program n, bv_bonus_bps = tb_bonus_bps b,
                     bv_starts_at = tb_starts_at b, bv_ends_at = tb_ends_at b\<rparr>, s',
                invalidate (nb_source_program n) (nb_destination_program n) w)))"

text \<open>
  The listing. \<open>collate\<close> is the sort key of a text under the database's collation. A filter that is
  absent or empty selects everything.
\<close>

definition selects :: "string option \<Rightarrow> string \<Rightarrow> bool" where
  "selects wanted code = (case wanted of None \<Rightarrow> True | Some c \<Rightarrow> c = [] \<or> code = c)"

definition list_rates :: "(string \<Rightarrow> nat list) \<Rightarrow> string option \<Rightarrow> string option \<Rightarrow> db \<Rightarrow> rate_version list" where
  "list_rates collate source_program destination_program s =
     (let rows = [(r, prg_code p, prg_code q). r \<leftarrow> db_rates s, p \<leftarrow> db_programs s, prg_id p = cr_source_program_id r,
                    q \<leftarrow> db_programs s, prg_id q = cr_destination_program_id r];
          wanted = filter (\<lambda>(r, src, dst). selects source_program src \<and> selects destination_program dst) rows;
          sorted = sort_key (\<lambda>(r, src, dst). collate src) (sort_key (\<lambda>(r, src, dst). collate dst)
                     (sort_key (\<lambda>(r, src, dst). - cr_version r) wanted))
      in map (\<lambda>(r, src, dst). to_rate_version r src dst) sorted)"

section \<open>The rate book\<close>

text \<open>\<open>precedes r q\<close>: version \<open>r\<close> has ended when \<open>q\<close> takes effect.\<close>

definition precedes :: "conversion_rate \<Rightarrow> conversion_rate \<Rightarrow> bool" where
  "precedes r q = (case cr_effective_to r of None \<Rightarrow> False | Some e \<Rightarrow> e \<le> cr_effective_from q)"

definition rate_book_ok :: "db \<Rightarrow> moment \<Rightarrow> bool" where
  "rate_book_ok s now \<longleftrightarrow>
     (\<forall>r \<in> set (db_rates s). list_all fst (rate_checks r) \<and> cr_effective_from r \<le> now
        \<and> (case cr_effective_to r of None \<Rightarrow> True | Some e \<Rightarrow> e \<le> now) \<and> cr_id r < db_next_rate_id s)
     \<and> distinct (map cr_id (db_rates s))
     \<and> (\<forall>r \<in> set (db_rates s). \<forall>q \<in> set (db_rates s). same_route r q \<and> cr_active r \<and> cr_active q
          \<longrightarrow> r = q \<or> precedes r q \<or> precedes q r)"

text \<open>With the rate book in order the query for the rate in effect has at most one answer.\<close>

lemma precedes_exclusive:
  "precedes r q \<Longrightarrow> in_effect t r \<Longrightarrow> \<not> in_effect t q"
  by (auto simp: precedes_def in_effect_def split: option.splits)

lemma in_effect_unique:
  assumes "rate_book_ok s now" "r \<in> set (db_rates s)" "q \<in> set (db_rates s)" "on_route src dst r" "on_route src dst q"
    and "in_effect t r" "in_effect t q"
  shows "q = r"
proof -
  have "cr_active r" "cr_active q" using assms(6,7) by (simp_all add: in_effect_def)
  then have "r = q \<or> precedes r q \<or> precedes q r"
    using assms(1-5) by (auto simp: rate_book_ok_def on_route_def)
  then show ?thesis using assms(6,7) precedes_exclusive by blast
qed

lemma current_rate_iff:
  assumes "rate_book_ok s now"
  shows "current_rate s src dst t = Some r \<longleftrightarrow> r \<in> set (db_rates s) \<and> on_route src dst r \<and> in_effect t r"
proof
  assume r: "r \<in> set (db_rates s) \<and> on_route src dst r \<and> in_effect t r"
  then have "r \<in> set (sort_key (\<lambda>r. - cr_effective_from r) (filter (\<lambda>r. on_route src dst r \<and> in_effect t r) (db_rates s)))"
    by simp
  then have "current_rate s src dst t \<noteq> None"
    unfolding current_rate_def first_row_None by force
  then obtain q where q: "current_rate s src dst t = Some q" by auto
  with current_rate_Some [OF q] in_effect_unique [OF assms, of r q] r show "current_rate s src dst t = Some r" by auto
qed (use current_rate_Some in blast)

lemma load_programs_known:
  assumes "distinct (map prg_code (db_programs s))" "p \<in> set (db_programs s)" "q \<in> set (db_programs s)"
  shows "\<exists>programs. load_programs s [prg_code p, prg_code q] = Inr programs
    \<and> map_of programs (prg_code p) = Some \<lparr>pr_id = prg_id p, pr_code = prg_code p, pr_active = prg_active p\<rparr>
    \<and> map_of programs (prg_code q) = Some \<lparr>pr_id = prg_id q, pr_code = prg_code q, pr_active = prg_active q\<rparr>"
proof -
  let ?rows = "map (\<lambda>p. (prg_code p, \<lparr>pr_id = prg_id p, pr_code = prg_code p, pr_active = prg_active p\<rparr>))
    (filter (\<lambda>r. prg_code r \<in> set [prg_code p, prg_code q]) (db_programs s))"
  have "distinct (map fst ?rows)"
    using assms(1) by (simp add: comp_def distinct_map_filter)
  then have look: "map_of ?rows (prg_code r) = Some \<lparr>pr_id = prg_id r, pr_code = prg_code r, pr_active = prg_active r\<rparr>"
    if "r \<in> {p, q}" for r
    using that assms(2,3) by (intro map_of_is_SomeI) auto
  then have "load_programs s [prg_code p, prg_code q] = Inr ?rows"
    by (simp add: load_programs_def Let_def)
  with look show ?thesis by blast
qed

definition closed_at :: "moment \<Rightarrow> int \<Rightarrow> int \<Rightarrow> conversion_rate \<Rightarrow> conversion_rate" where
  "closed_at m src dst r = (if on_route src dst r \<and> is_open r then r\<lparr>cr_effective_to := Some m\<rparr> else r)"

definition rate_row :: "moment \<Rightarrow> moment \<Rightarrow> new_rate \<Rightarrow> int \<Rightarrow> int \<Rightarrow> db \<Rightarrow> conversion_rate" where
  "rate_row dbnow m n src dst s =
     \<lparr>cr_id = db_next_rate_id s, cr_source_program_id = src, cr_destination_program_id = dst,
      cr_numerator = nr_numerator n, cr_denominator = nr_denominator n, cr_min_source_points = nr_min_source_points n,
      cr_source_increment = nr_source_increment n, cr_max_source_points = nr_max_source_points n,
      cr_version = latest_version s src dst + 1, cr_effective_from = m, cr_effective_to = None, cr_active = True,
      cr_created_at = dbnow\<rparr>"

text \<open>The version of a route that is open is the only one, and closing it is \<open>closed_at\<close> on the whole table.\<close>

lemma open_rate_unique:
  assumes "rate_book_ok s now" "r \<in> set (db_rates s)" "q \<in> set (db_rates s)" "same_route r q" "is_open r" "is_open q"
  shows "q = r"
proof -
  have "r = q \<or> precedes r q \<or> precedes q r"
    using assms unfolding rate_book_ok_def is_open_def by blast
  then show ?thesis using assms(5,6) by (auto simp: precedes_def is_open_def)
qed

lemma close_open_rate:
  assumes "rate_book_ok s now" "now < m"
  shows "(case open_rate s src dst of None \<Rightarrow> Inr s | Some current \<Rightarrow> close_rate m current s)
    = Inr (s\<lparr>db_rates := map (closed_at m src dst) (db_rates s)\<rparr>)"
proof (cases "open_rate s src dst")
  case None
  then have "map (closed_at m src dst) (db_rates s) = db_rates s"
    by (intro map_idI) (auto simp: open_rate_def find_None_iff closed_at_def)
  with None show ?thesis by simp
next
  case (Some r)
  then have r: "r \<in> set (db_rates s)" "on_route src dst r" "is_open r"
    by (auto simp: open_rate_def dest!: find_SomeD)
  have "update_where (\<lambda>q. cr_id q = cr_id r) (\<lambda>_. r\<lparr>cr_effective_to := Some m\<rparr>) (db_rates s)
      = map (closed_at m src dst) (db_rates s)"
    unfolding update_where_def
  proof (rule map_cong [OF refl])
    fix q assume q: "q \<in> set (db_rates s)"
    have "cr_id q = cr_id r \<longleftrightarrow> q = r"
      using assms(1) q r(1) by (auto simp: rate_book_ok_def distinct_map inj_on_def)
    moreover have "on_route src dst q \<and> is_open q \<longleftrightarrow> q = r"
      using open_rate_unique [OF assms(1) r(1) q] r by (auto simp: on_route_def)
    ultimately show "(if cr_id q = cr_id r then r\<lparr>cr_effective_to := Some m\<rparr> else q) = closed_at m src dst q"
      by (auto simp: closed_at_def)
  qed
  moreover have "checked (rate_checks (r\<lparr>cr_effective_to := Some m\<rparr>)) = Inr ()"
  proof -
    have "list_all fst (rate_checks r)" "cr_effective_from r < m"
      using assms r(1) by (auto simp: rate_book_ok_def)
    then show ?thesis by (auto simp: checked_Inr_iff rate_checks_def split: option.splits)
  qed
  ultimately show ?thesis
    using Some by (simp add: close_rate_def Let_def)
qed

lemma latest_version_bound:
  assumes "r \<in> set (db_rates s)" "on_route src dst r"
  shows "cr_version r \<le> latest_version s src dst"
proof -
  have grow: "v \<le> fold max vs v \<and> (\<forall>u \<in> set vs. u \<le> fold max vs v)" for vs and v :: int
  proof (induction vs arbitrary: v)
    case (Cons a vs)
    from Cons.IH [of "max a v"] show ?case by auto
  qed simp
  from assms have "cr_version r \<in> set (map cr_version (filter (on_route src dst) (db_rates s)))" by simp
  then show ?thesis
    unfolding latest_version_def using grow by (cases "map cr_version (filter (on_route src dst) (db_rates s))") auto
qed

lemma latest_version_nonneg:
  assumes "rate_book_ok s now"
  shows "0 \<le> latest_version s src dst"
proof (cases "filter (on_route src dst) (db_rates s)")
  case (Cons r rs)
  then have "r \<in> set (filter (on_route src dst) (db_rates s))" by simp
  then have r: "r \<in> set (db_rates s)" "on_route src dst r" by simp_all
  moreover have "1 \<le> cr_version r" using assms r(1) by (auto simp: rate_book_ok_def rate_checks_def)
  ultimately show ?thesis using latest_version_bound [OF r] by simp
qed (simp add: latest_version_def)

text \<open>The whole transaction, run on a rate book in order.\<close>

lemma add_rate_version_run:
  assumes "rate_book_ok s now" "now < m" "validate_rate n = Inr ()" "rate_request_ok n"
    and programs: "distinct (map prg_code (db_programs s))" "distinct (map prg_id (db_programs s))"
      "p \<in> set (db_programs s)" "q \<in> set (db_programs s)"
      "prg_code p = nr_source_program n" "prg_code q = nr_destination_program n" "in_int4 (prg_id p)" "in_int4 (prg_id q)"
    and version: "in_int4 (latest_version s (prg_id p) (prg_id q) + 1)"
  shows "unit_of_work (add_rate_version dbnow (Some m) n) s =
    (Inr (rate_row dbnow m n (prg_id p) (prg_id q) s),
     s\<lparr>db_rates := map (closed_at m (prg_id p) (prg_id q)) (db_rates s) @ [rate_row dbnow m n (prg_id p) (prg_id q) s],
       db_next_rate_id := db_next_rate_id s + 1\<rparr>)"
proof -
  let ?row = "rate_row dbnow m n (prg_id p) (prg_id q) s"
  let ?s1 = "s\<lparr>db_rates := map (closed_at m (prg_id p) (prg_id q)) (db_rates s)\<rparr>"
  have "p \<noteq> q" using assms(3) programs(5,6) by (auto simp: validate_rate_def ensure_different_programs_def result_simps)
  then have "prg_id p \<noteq> prg_id q"
    using programs(2-4) by (auto simp: distinct_map inj_on_def)
  then have checks: "list_all fst (rate_checks ?row)" and ranges: "list_all fst (rate_ranges ?row)"
    using assms(3,4) version latest_version_nonneg [OF assms(1), of "prg_id p" "prg_id q"]
    by (auto simp: rate_checks_def rate_ranges_def rate_row_def validate_rate_def result_simps rate_request_ok_def
        rate_term_field_ok_def points_field_ok_def MAX_POINTS_def MAX_RATE_TERM_def in_bigint_def split: option.splits)
  have uniques: "list_all fst (rate_uniques ?s1 ?row)"
    using assms(1) latest_version_bound [of _ s "prg_id p" "prg_id q"]
    by (fastforce simp: rate_uniques_def rate_row_def list_ex_iff rate_book_ok_def closed_at_def on_route_def is_open_def split: if_splits)
  have refs: "list_all fst (rate_references ?s1 ?row)"
    using programs(3,4) by (auto simp: rate_references_def rate_row_def list_ex_iff)
  have "insert_rate ?s1 (?row\<lparr>cr_id := 0\<rparr>) = Inr (?row, ?s1\<lparr>db_rates := db_rates ?s1 @ [?row], db_next_rate_id := db_next_rate_id s + 1\<rparr>)"
  proof -
    have id: "?row\<lparr>cr_id := db_next_rate_id s\<rparr> = ?row" by (simp add: rate_row_def)
    have "ranged (rate_ranges ?row) = Inr ()" "checked (rate_checks ?row @ rate_uniques ?s1 ?row @ rate_references ?s1 ?row) = Inr ()"
      using checks ranges uniques refs by (auto simp: checked_Inr_iff ranged_Inr_iff list_all_iff)
    with id show ?thesis by (simp add: insert_rate_def Let_def)
  qed
  then show ?thesis
    using load_programs_known [OF programs(1,3,4)] programs(5-8) close_open_rate [OF assms(1,2)]
    by (auto simp: unit_of_work_def add_rate_version_def Let_def rate_row_def commit_checks_def ranged_def)
qed

text \<open>How the change acts on the rate book and on the rate in effect, seen through the set of rows.\<close>

lemma closed_at_simps [simp]:
  "cr_id (closed_at m src dst r) = cr_id r" "cr_active (closed_at m src dst r) = cr_active r"
  "cr_effective_from (closed_at m src dst r) = cr_effective_from r"
  "cr_source_program_id (closed_at m src dst r) = cr_source_program_id r"
  "cr_destination_program_id (closed_at m src dst r) = cr_destination_program_id r"
  "on_route a b (closed_at m src dst r) = on_route a b r"
  by (simp_all add: closed_at_def on_route_def)

lemma closed_at_other: "\<not> on_route src dst r \<Longrightarrow> closed_at m src dst r = r"
  by (simp add: closed_at_def)

lemma closed_at_in_effect:
  "in_effect t (closed_at m src dst r) \<longleftrightarrow> in_effect t r \<and> (on_route src dst r \<and> is_open r \<longrightarrow> t < m)"
  by (auto simp: closed_at_def in_effect_def is_open_def)

lemma closed_at_precedes: "precedes r q \<Longrightarrow> precedes (closed_at m src dst r) (closed_at m src dst q)"
  by (auto simp: closed_at_def precedes_def is_open_def split: option.splits)

lemma rate_book_extended:
  assumes "rate_book_ok s now" "now < m" "list_all fst (rate_checks row)"
    and row: "cr_id row = db_next_rate_id s" "on_route src dst row" "cr_effective_from row = m" "is_open row"
  shows "rate_book_ok (s\<lparr>db_rates := map (closed_at m src dst) (db_rates s) @ [row], db_next_rate_id := db_next_rate_id s + 1\<rparr>) m"
proof -
  let ?c = "closed_at m src dst"
  have each: "list_all fst (rate_checks r)" "cr_effective_from r \<le> now" "\<forall>e. cr_effective_to r = Some e \<longrightarrow> e \<le> now" "cr_id r < db_next_rate_id s"
    if "r \<in> set (db_rates s)" for r
    using assms(1) that by (auto simp: rate_book_ok_def split: option.splits)
  have checks: "list_all fst (rate_checks (?c r))" if "r \<in> set (db_rates s)" for r
    using each(1,2) [OF that] assms(2) by (auto simp: closed_at_def rate_checks_def split: option.splits)
  have ends: "\<forall>e. cr_effective_to (?c r) = Some e \<longrightarrow> e \<le> m" if "r \<in> set (db_rates s)" for r
    using each(3) [OF that] assms(2) by (auto simp: closed_at_def)
  have pair: "?c r = ?c q \<or> precedes (?c r) (?c q) \<or> precedes (?c q) (?c r)"
    if "r \<in> set (db_rates s)" "q \<in> set (db_rates s)" "same_route r q" "cr_active r" "cr_active q" for r q
    using assms(1) that closed_at_precedes unfolding rate_book_ok_def by blast
  have last: "precedes (?c r) row" if "r \<in> set (db_rates s)" "same_route r row" "cr_active r" for r
    using that row each(3) [OF that(1)] assms(2)
    by (auto simp: precedes_def closed_at_def on_route_def is_open_def split: option.splits)
  have ids: "distinct (map cr_id (map ?c (db_rates s) @ [row]))"
    using assms(1) row(1) each(4) by (fastforce simp: rate_book_ok_def comp_def)
  show ?thesis
    using checks ends pair last ids assms(2,3) row each(2,4)
    by (fastforce simp: rate_book_ok_def is_open_def split: option.splits)
qed

lemma current_rate_extended:
  assumes "rate_book_ok s now" "now < m" "list_all fst (rate_checks row)"
    and row: "cr_id row = db_next_rate_id s" "on_route src dst row" "cr_effective_from row = m" "is_open row"
    and s': "s' = s\<lparr>db_rates := map (closed_at m src dst) (db_rates s) @ [row], db_next_rate_id := db_next_rate_id s + 1\<rparr>"
  shows "m \<le> t \<Longrightarrow> current_rate s' src dst t = Some row"
    and "t < m \<Longrightarrow> current_rate s' src dst t = map_option (closed_at m src dst) (current_rate s src dst t)"
    and "(a, b) \<noteq> (src, dst) \<Longrightarrow> current_rate s' a b t = current_rate s a b t"
proof -
  have book: "rate_book_ok s' m" using rate_book_extended [OF assms(1-3) row] s' by simp
  have rows: "set (db_rates s') = insert row (closed_at m src dst ` set (db_rates s))" using s' by auto
  note iff = current_rate_iff [OF book] and iff0 = current_rate_iff [OF assms(1)]
  show "current_rate s' src dst t = Some row" if "m \<le> t"
    using that row rows by (simp add: iff) (auto simp: in_effect_def is_open_def)
  have none: "\<not> in_effect t row" if "t < m" for t using that row(3) by (simp add: in_effect_def)
  show "current_rate s' src dst t = map_option (closed_at m src dst) (current_rate s src dst t)" if "t < m"
  proof (cases "current_rate s src dst t")
    case None
    then have "\<not> (r \<in> set (db_rates s) \<and> on_route src dst r \<and> in_effect t r)" for r using iff0 [of src dst t r] by simp
    then have "current_rate s' src dst t \<noteq> Some r" for r
      using none [OF that] by (auto simp: iff rows closed_at_in_effect)
    with None show ?thesis by (cases "current_rate s' src dst t") auto
  next
    case (Some r)
    with iff0 [of src dst t r] that show ?thesis by (simp add: iff rows closed_at_in_effect)
  qed
  show "current_rate s' a b t = current_rate s a b t" if "(a, b) \<noteq> (src, dst)"
  proof -
    have "r \<in> set (db_rates s') \<and> on_route a b r \<longleftrightarrow> r \<in> set (db_rates s) \<and> on_route a b r" for r
      using that row(2) closed_at_other [of src dst _ m] by (force simp: rows on_route_def)
    then have "current_rate s' a b t = Some r \<longleftrightarrow> current_rate s a b t = Some r" for r
      unfolding iff iff0 by blast
    then show ?thesis by (metis not_Some_eq)
  qed
qed

text \<open>
  C22: rate versions are contiguous. On a rate book in order, a valid change of a route at a later moment commits
  and leaves the book in order. From that moment on the new version, numbered one above the latest, is the rate in
  effect; at every earlier moment the lookup finds the version it found before, in which only the end has been set,
  so the transfers that refer to it keep their terms; no other route changes. The route's cache entry is
  invalidated after the commit.
\<close>

theorem rate_versions_contiguous:
  assumes "rate_book_ok s now" "now < m" "validate_rate n = Inr ()" "rate_request_ok n"
    and "distinct (map prg_code (db_programs s))" "distinct (map prg_id (db_programs s))"
    and "p \<in> set (db_programs s)" "q \<in> set (db_programs s)"
    and "prg_code p = nr_source_program n" "prg_code q = nr_destination_program n" "in_int4 (prg_id p)" "in_int4 (prg_id q)"
    and "in_int4 (latest_version s (prg_id p) (prg_id q) + 1)"
  shows "\<exists>row s'. create_rate_version invalidate dbnow (Some m) n s w =
      (Inr (to_rate_version row (nr_source_program n) (nr_destination_program n)), s',
       invalidate (nr_source_program n) (nr_destination_program n) w)
    \<and> rate_book_ok s' m \<and> is_current (to_rate_version row (nr_source_program n) (nr_destination_program n))
    \<and> cr_version row = latest_version s (prg_id p) (prg_id q) + 1
    \<and> (cr_numerator row, cr_denominator row, cr_min_source_points row, cr_source_increment row, cr_max_source_points row) =
        (nr_numerator n, nr_denominator n, nr_min_source_points n, nr_source_increment n, nr_max_source_points n)
    \<and> (\<forall>t. current_rate s' (prg_id p) (prg_id q) t =
          (if m \<le> t then Some row
           else map_option (closed_at m (prg_id p) (prg_id q)) (current_rate s (prg_id p) (prg_id q) t)))
    \<and> (\<forall>a b t. (a, b) \<noteq> (prg_id p, prg_id q) \<longrightarrow> current_rate s' a b t = current_rate s a b t)
    \<and> (\<forall>r \<in> set (db_rates s). closed_at m (prg_id p) (prg_id q) r \<in> set (db_rates s'))"
proof -
  let ?row = "rate_row dbnow m n (prg_id p) (prg_id q) s"
  let ?s' = "s\<lparr>db_rates := map (closed_at m (prg_id p) (prg_id q)) (db_rates s) @ [?row], db_next_rate_id := db_next_rate_id s + 1\<rparr>"
  note run = add_rate_version_run [OF assms, of dbnow]
  have checks: "list_all fst (rate_checks ?row)"
    using run by (auto simp: unit_of_work_Inr_iff add_rate_version_def insert_rate_def Let_def result_simps list_all_iff)
  have row: "cr_id ?row = db_next_rate_id s" "on_route (prg_id p) (prg_id q) ?row" "cr_effective_from ?row = m" "is_open ?row"
    by (simp_all add: rate_row_def on_route_def is_open_def)
  have "create_rate_version invalidate dbnow (Some m) n s w =
      (Inr (to_rate_version ?row (nr_source_program n) (nr_destination_program n)), ?s',
       invalidate (nr_source_program n) (nr_destination_program n) w)"
    using run assms(3) by (simp add: create_rate_version_def)
  moreover note rate_book_extended [OF assms(1,2) checks row] current_rate_extended [OF assms(1,2) checks row refl]
  ultimately show ?thesis
    by (intro exI [of _ ?row] exI [of _ ?s']) (auto simp: is_current_def to_rate_version_def rate_row_def)
qed

definition sample_new_rate :: new_rate where
  "sample_new_rate = \<lparr>nr_source_program = ''CARD_A'', nr_destination_program = ''AIR_B'', nr_numerator = 1, nr_denominator = 2,
     nr_min_source_points = 100, nr_source_increment = 50, nr_max_source_points = None\<rparr>"

theorem rate_versions_contiguous_witness:
  "\<exists>row s'. create_rate_version (\<lambda>_ _ w. w) 9 (Some 10) sample_new_rate sample_db () =
      (Inr (to_rate_version row ''CARD_A'' ''AIR_B''), s', ())
    \<and> cr_version row = 2 \<and> current_rate s' 1 2 10 = Some row
    \<and> current_rate s' 1 2 9 = map_option (closed_at 10 1 2) (current_rate sample_db 1 2 9) \<and> rate_book_ok s' 10"
proof -
  let ?p = "sample_program 1 ''CARD_A'' CARD" and ?q = "sample_program 2 ''AIR_B'' LOYALTY"
  have "rate_book_ok sample_db 0" "validate_rate sample_new_rate = Inr ()" "rate_request_ok sample_new_rate"
    "distinct (map prg_code (db_programs sample_db))" "distinct (map prg_id (db_programs sample_db))"
    "latest_version sample_db 1 2 = 1"
    by code_simp+
  moreover have "?p \<in> set (db_programs sample_db)" "?q \<in> set (db_programs sample_db)"
    "prg_code ?p = nr_source_program sample_new_rate" "prg_code ?q = nr_destination_program sample_new_rate"
    "prg_id ?p = 1" "prg_id ?q = 2"
    by (simp_all add: sample_db_def empty_db_def sample_program_def sample_new_rate_def)
  ultimately obtain row s' where "create_rate_version (\<lambda>_ _ w. w) 9 (Some 10) sample_new_rate sample_db () =
      (Inr (to_rate_version row ''CARD_A'' ''AIR_B''), s', ())"
    and "rate_book_ok s' 10" "cr_version row = 2"
    and "\<forall>t. current_rate s' 1 2 t = (if 10 \<le> t then Some row else map_option (closed_at 10 1 2) (current_rate sample_db 1 2 t))"
    using rate_versions_contiguous [of sample_db 0 10 sample_new_rate ?p ?q "\<lambda>_ _ w. w" 9 "()"]
    by (auto simp: in_int4_def sample_new_rate_def)
  then show ?thesis by (intro exI [of _ row] exI [of _ s']) simp
qed

section \<open>Bonuses\<close>

lemma insert_bonus_verdict:
  assumes "tb_id b = db_next_bonus_id s" "\<forall>c \<in> set (db_bonuses s). tb_id c < db_next_bonus_id s"
    and "list_all fst (bonus_checks b)" "tb_source_program_id b \<in> prg_id ` set (db_programs s)"
    and "tb_destination_program_id b \<in> prg_id ` set (db_programs s)"
  shows "insert_bonus s (b\<lparr>tb_id := x\<rparr>) =
    (if \<exists>c \<in> set (db_bonuses s). bonuses_overlap b c then Inl (IntegrityError ''ex_transfer_bonuses_no_overlap'')
     else Inr (b, s\<lparr>db_bonuses := db_bonuses s @ [b], db_next_bonus_id := db_next_bonus_id s + 1\<rparr>))"
proof -
  have "b\<lparr>tb_id := db_next_bonus_id s\<rparr> = b" using assms(1) by (metis transfer_bonus.surjective transfer_bonus.update_convs(1))
  moreover have "\<not> list_ex (\<lambda>c. tb_id c = tb_id b) (db_bonuses s)" using assms(1,2) by (fastforce simp: list_ex_iff)
  moreover have "in_int4 (tb_bonus_bps b)" using assms(3) by (simp add: bonus_checks_def in_int4_def)
  moreover have "list_ex (\<lambda>r. prg_id r = tb_destination_program_id b) (db_programs s)"
    "list_ex (\<lambda>r. prg_id r = tb_source_program_id b) (db_programs s)"
    using assms(4,5) by (auto simp: list_ex_iff)
  ultimately show ?thesis
    using assms(3) by (auto simp: insert_bonus_def Let_def checked_def ranged_def bonus_checks_def list_ex_iff)
qed

text \<open>
  C23: the verdict on a bonus. For a request with a valid percentage on a known route: a window that is empty or
  over is INVALID_BONUS, a route without a current rate is ROUTE_NOT_SUPPORTED, a window that overlaps another bonus
  of the route is BONUS_OVERLAP, and in these cases nothing changes. Every other request adds exactly its bonus,
  invalidates the cache entry, and bonus windows stay disjoint.
\<close>

theorem bonus_verdict:
  assumes "bonuses_disjoint s" "\<forall>c \<in> set (db_bonuses s). tb_id c < db_next_bonus_id s"
    and "distinct (map prg_code (db_programs s))" "distinct (map prg_id (db_programs s))"
    and "p \<in> set (db_programs s)" "q \<in> set (db_programs s)" "p \<noteq> q"
    and "prg_code p = nb_source_program n" "prg_code q = nb_destination_program n"
    and "0 < nb_bonus_bps n" "nb_bonus_bps n \<le> 10000"
    and b: "b = \<lparr>tb_id = db_next_bonus_id s, tb_source_program_id = prg_id p, tb_destination_program_id = prg_id q,
      tb_bonus_bps = nb_bonus_bps n, tb_starts_at = nb_starts_at n, tb_ends_at = nb_ends_at n, tb_created_at = dbnow\<rparr>"
    and run: "create_bonus invalidate dbnow n now s w = (res, s', w')"
  shows "if nb_ends_at n \<le> nb_starts_at n \<or> nb_ends_at n \<le> now then
      (\<exists>e. res = Inl e \<and> code_of e = Some INVALID_BONUS) \<and> s' = s \<and> w' = w
    else if open_rate s (prg_id p) (prg_id q) = None then
      (\<exists>e. res = Inl e \<and> code_of e = Some ROUTE_NOT_SUPPORTED) \<and> s' = s \<and> w' = w
    else if \<exists>c \<in> set (db_bonuses s). bonuses_overlap b c then
      (\<exists>e. res = Inl e \<and> code_of e = Some BONUS_OVERLAP) \<and> s' = s \<and> w' = w
    else (\<exists>v. res = Inr v \<and> bv_id v = tb_id b \<and> bv_bonus_bps v = nb_bonus_bps n)
      \<and> s' = s\<lparr>db_bonuses := db_bonuses s @ [b], db_next_bonus_id := db_next_bonus_id s + 1\<rparr>
      \<and> bonuses_disjoint s' \<and> w' = invalidate (nb_source_program n) (nb_destination_program n) w"
proof -
  have neq: "prg_code p \<noteq> prg_code q" "prg_id p \<noteq> prg_id q"
    using assms(3-7) by (auto simp: distinct_map inj_on_def)
  from load_programs_known [OF assms(3,5,6)] obtain programs where
    look: "load_programs s [prg_code p, prg_code q] = Inr programs"
      "map_of programs (prg_code p) = Some \<lparr>pr_id = prg_id p, pr_code = prg_code p, pr_active = prg_active p\<rparr>"
      "map_of programs (prg_code q) = Some \<lparr>pr_id = prg_id q, pr_code = prg_code q, pr_active = prg_active q\<rparr>"
    by blast
  have ins: "insert_bonus s (b\<lparr>tb_id := 0\<rparr>) =
      (if \<exists>c \<in> set (db_bonuses s). bonuses_overlap b c then Inl (IntegrityError ''ex_transfer_bonuses_no_overlap'')
       else Inr (b, s\<lparr>db_bonuses := db_bonuses s @ [b], db_next_bonus_id := db_next_bonus_id s + 1\<rparr>))"
    if "nb_starts_at n < nb_ends_at n"
    using that neq assms(2,5,6,10,11) by (intro insert_bonus_verdict) (auto simp: b bonus_checks_def)
  have add: "add_bonus dbnow n s =
      (if open_rate s (prg_id p) (prg_id q) = None
       then Inl (mk_domain_error ROUTE_NOT_SUPPORTED ''A bonus needs a supported route; create a rate for it first.'' [])
       else catchE (insert_bonus s (b\<lparr>tb_id := 0\<rparr>)) on_bonus_error)"
    using look assms(8,9) by (auto simp: add_bonus_def b)
  have kept: "bonuses_disjoint (s\<lparr>db_bonuses := db_bonuses s @ [b], db_next_bonus_id := db_next_bonus_id s + 1\<rparr>)"
    if "\<not> (\<exists>c \<in> set (db_bonuses s). bonuses_overlap b c)"
    using that assms(1) unfolding bonuses_disjoint_def bonuses_overlap_def by auto
  show ?thesis
    using run ins add kept neq assms(8,9)
    by (auto simp: create_bonus_def ensure_different_programs_def unit_of_work_def on_bonus_error_def commit_checks_def b
        raise_if_def split: if_splits)
qed

definition bonus_db :: db where
  "bonus_db = sample_db\<lparr>db_bonuses := [\<lparr>tb_id = 1, tb_source_program_id = 1, tb_destination_program_id = 2,
     tb_bonus_bps = 2500, tb_starts_at = 50, tb_ends_at = 90, tb_created_at = 0\<rparr>], db_next_bonus_id := 2\<rparr>"

definition sample_new_bonus :: "moment \<Rightarrow> new_bonus" where
  "sample_new_bonus starts = \<lparr>nb_source_program = ''CARD_A'', nb_destination_program = ''AIR_B'', nb_bonus_bps = 1000,
     nb_starts_at = starts, nb_ends_at = 120\<rparr>"

theorem bonus_verdict_witness:
  "(\<exists>e. create_bonus (\<lambda>_ _ w. w) 9 (sample_new_bonus 80) 10 bonus_db () = (Inl e, bonus_db, ()) \<and> code_of e = Some BONUS_OVERLAP)
    \<and> (\<exists>v s'. create_bonus (\<lambda>_ _ w. w) 9 (sample_new_bonus 90) 10 bonus_db () = (Inr v, s', ()) \<and> bv_id v = 2 \<and> bonuses_disjoint s')"
proof -
  let ?p = "sample_program 1 ''CARD_A'' CARD" and ?q = "sample_program 2 ''AIR_B'' LOYALTY"
  let ?b = "\<lambda>m. \<lparr>tb_id = 2, tb_source_program_id = 1, tb_destination_program_id = 2, tb_bonus_bps = 1000,
    tb_starts_at = m, tb_ends_at = 120, tb_created_at = 9\<rparr>"
  have db: "bonuses_disjoint bonus_db" "\<forall>c \<in> set (db_bonuses bonus_db). tb_id c < db_next_bonus_id bonus_db"
    "distinct (map prg_code (db_programs bonus_db))" "distinct (map prg_id (db_programs bonus_db))"
    "open_rate bonus_db 1 2 \<noteq> None" "db_next_bonus_id bonus_db = 2"
    "list_ex (bonuses_overlap (?b 80)) (db_bonuses bonus_db)" "\<not> list_ex (bonuses_overlap (?b 90)) (db_bonuses bonus_db)"
    by code_simp+
  have pq: "?p \<in> set (db_programs bonus_db)" "?q \<in> set (db_programs bonus_db)" "?p \<noteq> ?q" "prg_id ?p = 1" "prg_id ?q = 2"
    "prg_code ?p = nb_source_program (sample_new_bonus m)" "prg_code ?q = nb_destination_program (sample_new_bonus m)" for m
    by (simp_all add: bonus_db_def sample_db_def empty_db_def sample_program_def sample_new_bonus_def)
  note verdict = bonus_verdict [OF db(1-4) pq(1-3,6-7), of _ "?b _" 9 "\<lambda>_ _ w. w" 10 "()"]
  obtain r1 s1 w1 r2 s2 w2 where runs: "create_bonus (\<lambda>_ _ w. w) 9 (sample_new_bonus 80) 10 bonus_db () = (r1, s1, w1)"
    "create_bonus (\<lambda>_ _ w. w) 9 (sample_new_bonus 90) 10 bonus_db () = (r2, s2, w2)"
    by (metis prod_cases3)
  have "(\<exists>e. r1 = Inl e \<and> code_of e = Some BONUS_OVERLAP) \<and> s1 = bonus_db"
    using verdict [OF _ _ _ runs(1), of 80] db(5-7) pq(4,5) by (simp add: sample_new_bonus_def list_ex_iff)
  moreover have "(\<exists>v. r2 = Inr v \<and> bv_id v = 2) \<and> bonuses_disjoint s2"
    using verdict [OF _ _ _ runs(2), of 90] db(5,6,8) pq(4,5) by (auto simp: sample_new_bonus_def list_ex_iff)
  ultimately show ?thesis using runs by auto
qed

text \<open>The listing shows every version of every route exactly once when the foreign keys hold.\<close>

lemma list_rates_complete:
  assumes "distinct (map prg_id (db_programs s))"
    and "\<forall>r \<in> set (db_rates s). {cr_source_program_id r, cr_destination_program_id r} \<subseteq> prg_id ` set (db_programs s)"
  shows "mset (map rv_id (list_rates collate None None s)) = mset (map cr_id (db_rates s))"
proof -
  let ?row = "\<lambda>r. concat (map (\<lambda>p. if prg_id p = cr_source_program_id r then
      concat (map (\<lambda>q. if prg_id q = cr_destination_program_id r then [(r, prg_code p, prg_code q)] else []) (db_programs s)) else [])
    (db_programs s))"
  have row: "map (\<lambda>(r, _, _). cr_id r) (?row r) = [cr_id r]" if r: "r \<in> set (db_rates s)" for r
  proof -
    from assms(2) r obtain p q where pq: "p \<in> set (db_programs s)" "q \<in> set (db_programs s)"
      "prg_id p = cr_source_program_id r" "prg_id q = cr_destination_program_id r"
      by (auto simp: image_iff)
    show ?thesis
      using join_unique [OF assms(1) pq(1,3), of "\<lambda>p. concat (map (\<lambda>q. if prg_id q = cr_destination_program_id r then [(r, prg_code p, prg_code q)] else []) (db_programs s))"]
        join_unique [OF assms(1) pq(2,4), of "\<lambda>q. [(r, prg_code p, prg_code q)]"] by simp
  qed
  have "map (\<lambda>(r, _, _). cr_id r) (concat (map ?row rs)) = map cr_id rs" if "set rs \<subseteq> set (db_rates s)" for rs
    using that row by (induction rs) auto
  then have ids: "map (\<lambda>(r, _, _). cr_id r) (concat (map ?row (db_rates s))) = map cr_id (db_rates s)" by blast
  have view: "map rv_id (map (\<lambda>(r, src, dst). to_rate_version r src dst) xs) = map (\<lambda>(r, _, _). cr_id r) xs" for xs
    by (auto simp: to_rate_version_def)
  have sorts: "mset (map (\<lambda>(r, _, _). cr_id r) (sort_key f xs)) = mset (map (\<lambda>(r, _, _). cr_id r) xs)"
    for f :: "_ \<Rightarrow> 'k :: linorder" and xs
    by simp
  show ?thesis
    unfolding list_rates_def Let_def view sorts by (simp only: selects_def option.case simp_thms case_prod_conv filter_True ids) (simp add: ids)
qed

end
