(* ===== verification/Seed.thy ===== *)
theory Seed
  imports Resolution Rate_Admin
begin

text \<open>
  The seed script, \<^verbatim>\<open>scripts/seed.py\<close>: the programs, rates, bonuses, users and opening balances that a new
  installation starts with. Every statement inserts only what is missing, and opening balances are posted
  through the ledger. The seed establishes the invariant that the engine keeps, and a second run changes no
  table.
\<close>

section \<open>Seed data\<close>

record program_seed =
  pd_code :: string
  pd_name :: string
  pd_type :: program_type
  pd_partner_code :: string

record rate_seed =
  rd_source :: string
  rd_destination :: string
  rd_numerator :: int
  rd_denominator :: int
  rd_min_source_points :: int
  rd_source_increment :: int
  rd_max_source_points :: "int option"

record bonus_seed =
  bd_source :: string
  bd_destination :: string
  bd_bonus_bps :: int
  bd_duration :: duration

record user_seed =
  ud_user_id :: string
  ud_accounts :: "(string \<times> int \<times> string) list"

definition PROGRAMS :: "program_seed list" where
  "PROGRAMS =
     [\<lparr>pd_code = ''NOVA_REWARDS'', pd_name = ''Nova Rewards'', pd_type = program_type.CARD, pd_partner_code = ''NOVA''\<rparr>,
      \<lparr>pd_code = ''ZENITH_POINTS'', pd_name = ''Zenith Points'', pd_type = program_type.CARD, pd_partner_code = ''ZENITH''\<rparr>,
      \<lparr>pd_code = ''SKYWARD_MILES'', pd_name = ''Skyward Miles'', pd_type = LOYALTY, pd_partner_code = ''SKYWARD''\<rparr>,
      \<lparr>pd_code = ''STAYWELL_POINTS'', pd_name = ''Staywell Points'', pd_type = LOYALTY, pd_partner_code = ''STAYWELL''\<rparr>,
      \<lparr>pd_code = ''HARBOR_CRUISE_POINTS'', pd_name = ''Harbor Cruise Points'', pd_type = LOYALTY,
       pd_partner_code = ''HARBOR''\<rparr>]"

definition RATES :: "rate_seed list" where
  "RATES =
     [\<lparr>rd_source = ''NOVA_REWARDS'', rd_destination = ''SKYWARD_MILES'', rd_numerator = 1, rd_denominator = 1,
       rd_min_source_points = 1000, rd_source_increment = 1000, rd_max_source_points = Some 500000\<rparr>,
      \<lparr>rd_source = ''NOVA_REWARDS'', rd_destination = ''STAYWELL_POINTS'', rd_numerator = 2, rd_denominator = 1,
       rd_min_source_points = 1000, rd_source_increment = 1000, rd_max_source_points = Some 500000\<rparr>,
      \<lparr>rd_source = ''ZENITH_POINTS'', rd_destination = ''SKYWARD_MILES'', rd_numerator = 1, rd_denominator = 1,
       rd_min_source_points = 1000, rd_source_increment = 1000, rd_max_source_points = Some 500000\<rparr>,
      \<lparr>rd_source = ''ZENITH_POINTS'', rd_destination = ''HARBOR_CRUISE_POINTS'', rd_numerator = 2, rd_denominator = 3,
       rd_min_source_points = 5000, rd_source_increment = 1000, rd_max_source_points = Some 300000\<rparr>,
      \<lparr>rd_source = ''SKYWARD_MILES'', rd_destination = ''NOVA_REWARDS'', rd_numerator = 1, rd_denominator = 3,
       rd_min_source_points = 3000, rd_source_increment = 3000, rd_max_source_points = Some 300000\<rparr>,
      \<lparr>rd_source = ''STAYWELL_POINTS'', rd_destination = ''NOVA_REWARDS'', rd_numerator = 1, rd_denominator = 5,
       rd_min_source_points = 5000, rd_source_increment = 5000, rd_max_source_points = Some 500000\<rparr>]"

text \<open>\<^verbatim>\<open>timedelta(days=30)\<close> in microseconds.\<close>

definition BONUSES :: "bonus_seed list" where
  "BONUSES = [\<lparr>bd_source = ''NOVA_REWARDS'', bd_destination = ''SKYWARD_MILES'', bd_bonus_bps = 2500,
     bd_duration = 30 * 86400 * 1000000\<rparr>]"

definition USERS :: "user_seed list" where
  "USERS =
     [\<lparr>ud_user_id = ''user_alice'', ud_accounts =
        [(''NOVA_REWARDS'', 250000, ''NOVA-4410-7730-0001''), (''ZENITH_POINTS'', 120000, ''ZEN-5521-0001''),
         (''SKYWARD_MILES'', 45000, ''SKY100200301''), (''STAYWELL_POINTS'', 80000, ''SW-8812-0001''),
         (''HARBOR_CRUISE_POINTS'', 20000, ''HCP-3001-0001'')]\<rparr>,
      \<lparr>ud_user_id = ''user_bob'', ud_accounts =
        [(''NOVA_REWARDS'', 50000, ''NOVA-4410-7730-0002''), (''ZENITH_POINTS'', 300000, ''ZEN-5521-0002''),
         (''SKYWARD_MILES'', 150000, ''SKY100200302''), (''STAYWELL_POINTS'', 10000, ''SW-8812-0002''),
         (''HARBOR_CRUISE_POINTS'', 60000, ''HCP-3001-0002'')]\<rparr>]"

text \<open>The counters of the report, a dictionary in the order of its keys, and its summary line.\<close>

type_synonym seed_report = "(string \<times> int) list"

definition new_seed_report :: seed_report where
  "new_seed_report = map (\<lambda>k. (k, 0)) [''programs'', ''system_accounts'', ''rates'', ''bonuses'', ''users'', ''user_accounts'']"

fun join_text :: "string \<Rightarrow> string list \<Rightarrow> string" where
  "join_text sep [] = []"
| "join_text sep [x] = x"
| "join_text sep (x # y # xs) = x @ sep @ join_text sep (y # xs)"

definition seed_summary :: "seed_report \<Rightarrow> string" where
  "seed_summary created =
     ''seed complete, created: '' @ join_text '', '' (map (\<lambda>(name, count). name @ ''='' @ show_int count) created)"

section \<open>Inserts that do nothing on a conflict\<close>

text \<open>
  \<^verbatim>\<open>INSERT ... ON CONFLICT (...) DO NOTHING RETURNING id\<close>. A row that conflicts on the named index is skipped, and
  nothing is returned; a conflict on another index raises. The identity value is drawn before the conflict is
  found, so it advances either way.
\<close>

definition insert_program :: "moment \<Rightarrow> program_seed \<Rightarrow> db \<Rightarrow> (int option \<times> db) result" where
  "insert_program dbnow p s =
     (let row = \<lparr>prg_id = db_next_program_id s, prg_code = pd_code p, prg_name = pd_name p, prg_type = pd_type p,
            prg_partner_code = pd_partner_code p, prg_active = True, prg_created_at = dbnow\<rparr>;
          s1 = s\<lparr>db_next_program_id := db_next_program_id s + 1\<rparr>
      in bindE (ranged [(length (pd_code p) \<le> 50, ''code''), (length (pd_name p) \<le> 200, ''name''),
           (length (pd_partner_code p) \<le> 50, ''partner_code'')]) (\<lambda>_.
         bindE (checked [(program_code_format (pd_code p), ''ck_programs_code_format'')]) (\<lambda>_.
         if list_ex (\<lambda>q. prg_code q = pd_code p) (db_programs s) then Inr (None, s1)
         else bindE (checked [(\<not> list_ex (\<lambda>q. prg_id q = prg_id row) (db_programs s), ''pk_programs'')]) (\<lambda>_.
           Inr (Some (prg_id row), s1\<lparr>db_programs := db_programs s @ [row]\<rparr>)))))"

definition insert_user :: "moment \<Rightarrow> string \<Rightarrow> db \<Rightarrow> (string option \<times> db) result" where
  "insert_user dbnow user_id s =
     bindE (ranged [(length user_id \<le> 64, ''id'')]) (\<lambda>_.
     bindE (checked [(user_id_format user_id, ''ck_users_id_format'')]) (\<lambda>_.
     if list_ex (\<lambda>u. usr_id u = user_id) (db_users s) then Inr (None, s)
     else Inr (Some user_id, s\<lparr>db_users := db_users s @ [\<lparr>usr_id = user_id, usr_created_at = dbnow\<rparr>]\<rparr>)))"

text \<open>The two unique indexes that an insert into \<^verbatim>\<open>accounts\<close> names.\<close>

definition same_system_account :: "account \<Rightarrow> account \<Rightarrow> bool" where
  "same_system_account a b =
     (acc_owner_type a = SYSTEM \<and> acc_owner_type b = SYSTEM \<and> acc_program_id a = acc_program_id b
      \<and> acc_account_type a = acc_account_type b)"

definition same_user_program :: "account \<Rightarrow> account \<Rightarrow> bool" where
  "same_user_program a b =
     (acc_user_id a \<noteq> None \<and> acc_user_id a = acc_user_id b \<and> acc_program_id a = acc_program_id b)"

definition account_uniques :: "db \<Rightarrow> account \<Rightarrow> (bool \<times> string) list" where
  "account_uniques s a =
     [(\<not> list_ex (\<lambda>b. acc_id b = acc_id a) (db_accounts s), ''pk_accounts''),
      (\<not> list_ex (\<lambda>b. acc_external_member_id a \<noteq> None \<and> acc_external_member_id b = acc_external_member_id a
          \<and> acc_program_id b = acc_program_id a) (db_accounts s), ''uq_accounts_program_external_member''),
      (\<not> list_ex (same_user_program a) (db_accounts s), ''uq_accounts_user_program''),
      (\<not> list_ex (same_system_account a) (db_accounts s), ''uq_accounts_system_program_type'')]"

definition account_references :: "db \<Rightarrow> account \<Rightarrow> (bool \<times> string) list" where
  "account_references s a =
     [(list_ex (\<lambda>p. prg_id p = acc_program_id a) (db_programs s), ''fk_accounts_program_id_programs''),
      (case acc_user_id a of None \<Rightarrow> True | Some u \<Rightarrow> list_ex (\<lambda>r. usr_id r = u) (db_users s), ''fk_accounts_user_id_users'')]"

definition insert_account :: "(account \<Rightarrow> account \<Rightarrow> bool) \<Rightarrow> account \<Rightarrow> db \<Rightarrow> (int option \<times> db) result" where
  "insert_account conflict a0 s =
     (let a = a0\<lparr>acc_id := db_next_account_id s\<rparr>; s1 = s\<lparr>db_next_account_id := db_next_account_id s + 1\<rparr>
      in bindE (ranged [(fits 100 (acc_external_member_id a), ''external_member_id'')]) (\<lambda>_.
         bindE (checked (account_checks a)) (\<lambda>_.
         if list_ex (conflict a) (db_accounts s) then Inr (None, s1)
         else bindE (checked (account_uniques s a @ account_references s a)) (\<lambda>_.
           Inr (Some (acc_id a), s1\<lparr>db_accounts := db_accounts s @ [a]\<rparr>)))))"

section \<open>The steps\<close>

fun foldE :: "('x \<Rightarrow> 's \<Rightarrow> 'e + 's) \<Rightarrow> 'x list \<Rightarrow> 's \<Rightarrow> 'e + 's" where
  "foldE f [] st = Inr st"
| "foldE f (x # xs) st = bindE (f x st) (foldE f xs)"

definition count_if :: "string \<Rightarrow> 'a option \<Rightarrow> seed_report \<Rightarrow> seed_report" where
  "count_if k r report = (case r of None \<Rightarrow> report | Some _ \<Rightarrow> dict_add k 1 report)"

definition seed_program :: "moment \<Rightarrow> program_seed \<Rightarrow> db \<times> seed_report \<Rightarrow> (db \<times> seed_report) result" where
  "seed_program dbnow p st =
     bindE (insert_program dbnow p (fst st)) (\<lambda>(r, s'). Inr (s', count_if ''programs'' r (snd st)))"

text \<open>The rows of a \<^verbatim>\<open>SELECT\<close> as a dictionary; program codes are unique, so no key repeats.\<close>

definition program_codes :: "db \<Rightarrow> (string \<times> int) list" where
  "program_codes s = map (\<lambda>p. (prg_code p, prg_id p)) (db_programs s)"

definition seed_programs :: "moment \<Rightarrow> db \<times> seed_report \<Rightarrow> ((string \<times> int) list \<times> db \<times> seed_report) result" where
  "seed_programs dbnow st =
     bindE (foldE (seed_program dbnow) PROGRAMS st) (\<lambda>st'. Inr (program_codes (fst st'), st'))"

definition seed_system_account :: "moment \<Rightarrow> int \<times> account_type \<Rightarrow> db \<times> seed_report \<Rightarrow> (db \<times> seed_report) result" where
  "seed_system_account dbnow row st =
     bindE (insert_account same_system_account
       \<lparr>acc_id = 0, acc_owner_type = SYSTEM, acc_user_id = None, acc_program_id = fst row, acc_account_type = snd row,
        acc_external_member_id = None, acc_balance = 0, acc_created_at = dbnow, acc_updated_at = dbnow\<rparr> (fst st))
       (\<lambda>(r, s'). Inr (s', count_if ''system_accounts'' r (snd st)))"

definition settlement_accounts :: "db \<Rightarrow> (int \<times> int) list" where
  "settlement_accounts s =
     map (\<lambda>a. (acc_program_id a, acc_id a)) (filter (\<lambda>a. acc_account_type a = PARTNER_SETTLEMENT) (db_accounts s))"

fun settlement_ids :: "(int \<times> int) list \<Rightarrow> (string \<times> int) list \<Rightarrow> (string \<times> int) list result" where
  "settlement_ids accounts [] = Inr []"
| "settlement_ids accounts ((code, pid) # ids) =
     bindE (of_option (OtherError ''KeyError'') (map_of accounts pid)) (\<lambda>aid.
     bindE (settlement_ids accounts ids) (\<lambda>rest. Inr ((code, aid) # rest)))"

definition seed_system_accounts ::
  "moment \<Rightarrow> (string \<times> int) list \<Rightarrow> db \<times> seed_report \<Rightarrow> ((string \<times> int) list \<times> db \<times> seed_report) result" where
  "seed_system_accounts dbnow program_ids st =
     bindE (foldE (seed_system_account dbnow)
       (concat (map (\<lambda>(code, pid). [(pid, TRANSFER_CLEARING), (pid, PARTNER_SETTLEMENT)]) program_ids)) st) (\<lambda>st'.
     bindE (settlement_ids (settlement_accounts (fst st')) program_ids) (\<lambda>ids. Inr (ids, st')))"

text \<open>
  \<^verbatim>\<open>session.add\<close> collects the rows and \<^verbatim>\<open>flush\<close> inserts them in this order; a missing program code raises before
  anything is inserted.
\<close>

definition route_ids :: "(string \<times> int) list \<Rightarrow> string \<Rightarrow> string \<Rightarrow> (int \<times> int) result" where
  "route_ids program_ids source destination =
     bindE (of_option (OtherError ''KeyError'') (map_of program_ids source)) (\<lambda>i.
     bindE (of_option (OtherError ''KeyError'') (map_of program_ids destination)) (\<lambda>j. Inr (i, j)))"

fun new_rates :: "(string \<times> int) list \<Rightarrow> (int \<times> int) list \<Rightarrow> moment \<Rightarrow> moment \<Rightarrow> rate_seed list \<Rightarrow> conversion_rate list result" where
  "new_rates program_ids existing dbnow now [] = Inr []"
| "new_rates program_ids existing dbnow now (r # rs) =
     bindE (route_ids program_ids (rd_source r) (rd_destination r)) (\<lambda>route.
     bindE (new_rates program_ids existing dbnow now rs) (\<lambda>rows.
     Inr (if route \<in> set existing then rows
          else \<lparr>cr_id = 0, cr_source_program_id = fst route, cr_destination_program_id = snd route,
            cr_numerator = rd_numerator r, cr_denominator = rd_denominator r,
            cr_min_source_points = rd_min_source_points r, cr_source_increment = rd_source_increment r,
            cr_max_source_points = rd_max_source_points r, cr_version = 1, cr_effective_from = now,
            cr_effective_to = None, cr_active = True, cr_created_at = dbnow\<rparr> # rows)))"

definition rate_routes :: "db \<Rightarrow> (int \<times> int) list" where
  "rate_routes s = map (\<lambda>r. (cr_source_program_id r, cr_destination_program_id r)) (db_rates s)"

definition count_all :: "string \<Rightarrow> 'a list \<Rightarrow> seed_report \<Rightarrow> seed_report" where
  "count_all k rows report = foldl (\<lambda>rep _. dict_add k 1 rep) report rows"

definition seed_rates ::
  "moment \<Rightarrow> (string \<times> int) list \<Rightarrow> moment \<Rightarrow> db \<times> seed_report \<Rightarrow> (db \<times> seed_report) result" where
  "seed_rates dbnow program_ids now st =
     bindE (new_rates program_ids (rate_routes (fst st)) dbnow now RATES) (\<lambda>rows.
     bindE (foldE (\<lambda>r s. bindE (insert_rate s r) (\<lambda>(_, s'). Inr s')) rows (fst st)) (\<lambda>s'.
     Inr (s', count_all ''rates'' rows (snd st))))"

fun new_bonuses :: "(string \<times> int) list \<Rightarrow> (int \<times> int) list \<Rightarrow> moment \<Rightarrow> moment \<Rightarrow> bonus_seed list \<Rightarrow> transfer_bonus list result" where
  "new_bonuses program_ids existing dbnow now [] = Inr []"
| "new_bonuses program_ids existing dbnow now (b # bs) =
     bindE (route_ids program_ids (bd_source b) (bd_destination b)) (\<lambda>route.
     bindE (new_bonuses program_ids existing dbnow now bs) (\<lambda>rows.
     Inr (if route \<in> set existing then rows
          else \<lparr>tb_id = 0, tb_source_program_id = fst route, tb_destination_program_id = snd route,
            tb_bonus_bps = bd_bonus_bps b, tb_starts_at = now, tb_ends_at = now + bd_duration b,
            tb_created_at = dbnow\<rparr> # rows)))"

definition bonus_routes :: "db \<Rightarrow> (int \<times> int) list" where
  "bonus_routes s = map (\<lambda>b. (tb_source_program_id b, tb_destination_program_id b)) (db_bonuses s)"

definition seed_bonuses ::
  "moment \<Rightarrow> (string \<times> int) list \<Rightarrow> moment \<Rightarrow> db \<times> seed_report \<Rightarrow> (db \<times> seed_report) result" where
  "seed_bonuses dbnow program_ids now st =
     bindE (new_bonuses program_ids (bonus_routes (fst st)) dbnow now BONUSES) (\<lambda>rows.
     bindE (foldE (\<lambda>b s. bindE (insert_bonus s b) (\<lambda>(_, s'). Inr s')) rows (fst st)) (\<lambda>s'.
     Inr (s', count_all ''bonuses'' rows (snd st))))"

definition post_opening_balance :: "moment \<Rightarrow> int \<Rightarrow> int \<Rightarrow> int \<Rightarrow> int \<Rightarrow> db \<Rightarrow> db result" where
  "post_opening_balance dbnow program_id user_account_id settlement_account_id amount s =
     bindE (post_journal dbnow s SEED
       [\<lparr>po_account_id = user_account_id, po_program_id = program_id, po_direction = CREDIT, po_amount = amount\<rparr>,
        \<lparr>po_account_id = settlement_account_id, po_program_id = program_id, po_direction = DEBIT, po_amount = amount\<rparr>]
       None) (\<lambda>(_, s'). Inr s')"

definition seed_user_account ::
  "moment \<Rightarrow> (string \<times> int) list \<Rightarrow> (string \<times> int) list \<Rightarrow> string \<Rightarrow> string \<times> int \<times> string \<Rightarrow> db \<times> seed_report
    \<Rightarrow> (db \<times> seed_report) result" where
  "seed_user_account dbnow program_ids settlements user_id row st =
     (case row of (program_code, opening_balance, member_id) \<Rightarrow>
     bindE (of_option (OtherError ''KeyError'') (map_of program_ids program_code)) (\<lambda>program_id.
     bindE (insert_account same_user_program
       \<lparr>acc_id = 0, acc_owner_type = USER, acc_user_id = Some user_id, acc_program_id = program_id,
        acc_account_type = USER_BALANCE, acc_external_member_id = Some member_id, acc_balance = 0,
        acc_created_at = dbnow, acc_updated_at = dbnow\<rparr> (fst st)) (\<lambda>(r, s1).
     case r of None \<Rightarrow> Inr (s1, snd st)
     | Some account_id \<Rightarrow>
         bindE (of_option (OtherError ''KeyError'') (map_of settlements program_code)) (\<lambda>settlement_id.
         bindE (post_opening_balance dbnow program_id account_id settlement_id opening_balance s1) (\<lambda>s2.
         Inr (s2, dict_add ''user_accounts'' 1 (snd st)))))))"

definition seed_user ::
  "moment \<Rightarrow> (string \<times> int) list \<Rightarrow> (string \<times> int) list \<Rightarrow> user_seed \<Rightarrow> db \<times> seed_report \<Rightarrow> (db \<times> seed_report) result" where
  "seed_user dbnow program_ids settlements u st =
     bindE (insert_user dbnow (ud_user_id u) (fst st)) (\<lambda>(r, s').
     foldE (seed_user_account dbnow program_ids settlements (ud_user_id u)) (ud_accounts u)
       (s', count_if ''users'' r (snd st)))"

text \<open>
  \<^verbatim>\<open>seed\<close>, in the caller's transaction; \<open>wall\<close> is \<^verbatim>\<open>datetime.now(UTC)\<close>. The advisory lock serialises
  concurrent runs and is released at commit.
\<close>

definition seed :: "moment \<Rightarrow> moment \<Rightarrow> moment option \<Rightarrow> db \<Rightarrow> (seed_report \<times> db) result" where
  "seed dbnow wall now s =
     (let started = (case now of None \<Rightarrow> wall | Some m \<Rightarrow> m) in
      bindE (seed_programs dbnow (s, new_seed_report)) (\<lambda>(program_ids, st1).
      bindE (seed_system_accounts dbnow program_ids st1) (\<lambda>(settlements, st2).
      bindE (seed_rates dbnow program_ids started st2) (\<lambda>st3.
      bindE (seed_bonuses dbnow program_ids started st3) (\<lambda>st4.
      bindE (foldE (seed_user dbnow program_ids settlements) USERS st4) (\<lambda>st5.
      Inr (snd st5, fst st5)))))))"

definition seed_main :: "moment \<Rightarrow> moment \<Rightarrow> db \<Rightarrow> string result \<times> db" where
  "seed_main dbnow wall s =
     (case unit_of_work (seed dbnow wall None) s of
        (Inl e, s') \<Rightarrow> (Inl e, s') | (Inr report, s') \<Rightarrow> (Inr (seed_summary report), s'))"

section \<open>The seed keeps the invariant of the engine\<close>

lemma foldE_keeps:
  assumes "foldE f xs st = Inr st'" "P st" "\<And>x st st'. x \<in> set xs \<Longrightarrow> P st \<Longrightarrow> f x st = Inr st' \<Longrightarrow> P st'"
  shows "P st'"
  using assms
proof (induction xs arbitrary: st)
  case (Cons x xs)
  from Cons.prems(1) obtain st1 where st1: "f x st = Inr st1" "foldE f xs st1 = Inr st'"
    by (auto simp: bindE_Inr_iff)
  show ?case
  proof (rule Cons.IH [OF st1(2)])
    show "P st1" by (rule Cons.prems(3) [OF _ Cons.prems(2) st1(1)]) simp
  qed (use Cons.prems(3) in auto)
qed simp

text \<open>Every transfer has the clearing account of its source program, so a new clearing account is empty.\<close>

definition clearing_present :: "db \<Rightarrow> bool" where
  "clearing_present s =
     (\<forall>t \<in> set (db_transfers s). \<exists>a \<in> set (db_accounts s).
        acc_account_type a = TRANSFER_CLEARING \<and> acc_program_id a = tr_source_program_id t)"

definition seed_inv :: "db \<Rightarrow> bool" where
  "seed_inv s = (saga_ok s \<and> clearing_present s)"

text \<open>What the seed never does: remove a row, or change which account a row is.\<close>

definition account_key :: "account \<Rightarrow> int \<times> owner_type \<times> string option \<times> int \<times> account_type" where
  "account_key a = (acc_id a, acc_owner_type a, acc_user_id a, acc_program_id a, acc_account_type a)"

definition grows :: "db \<Rightarrow> db \<Rightarrow> bool" where
  "grows s s' =
     (set (db_programs s) \<subseteq> set (db_programs s') \<and> set (db_users s) \<subseteq> set (db_users s')
      \<and> set (db_rates s) \<subseteq> set (db_rates s') \<and> set (db_bonuses s) \<subseteq> set (db_bonuses s')
      \<and> account_key ` set (db_accounts s) \<subseteq> account_key ` set (db_accounts s'))"

lemma grows_refl [simp]: "grows s s"
  by (simp add: grows_def)

lemma grows_trans: "grows a b \<Longrightarrow> grows b c \<Longrightarrow> grows a c"
  unfolding grows_def by (elim conjE, intro conjI; erule (1) subset_trans)

lemma saga_frame:
  assumes ok: "saga_inv pend s" and led: "ledger_ok s'"
    and same: "db_accounts s' = db_accounts s" "db_journals s' = db_journals s" "db_entries s' = db_entries s"
      "db_transfers s' = db_transfers s" "db_events s' = db_events s"
  shows "saga_inv pend s'"
proof -
  have "books_ok s'"
    using saga_books [OF ok] same by (simp add: books_ok_def balances_match_def journals_balanced_def ledger_balance_def)
  then show ?thesis
    using ok led find_violations_empty_iff [OF led] same
    by (simp add: saga_inv_def system_unique_def transfer_linked_def events_of_def journals_of_def owns_def clearing_ok_def
        split: option.splits)
qed

lemma insert_program_Inr:
  assumes "insert_program dbnow p s = Inr (r, s')"
  shows "(\<exists>q \<in> set (db_programs s). prg_code q = pd_code p) \<and> s' = s\<lparr>db_next_program_id := db_next_program_id s + 1\<rparr>
    \<or> (\<exists>row. prg_code row = pd_code p \<and> prg_id row \<notin> prg_id ` set (db_programs s)
        \<and> prg_code row \<notin> prg_code ` set (db_programs s)
        \<and> s' = s\<lparr>db_next_program_id := db_next_program_id s + 1, db_programs := db_programs s @ [row]\<rparr>)"
proof (cases "list_ex (\<lambda>q. prg_code q = pd_code p) (db_programs s)")
  case True
  then show ?thesis
    using assms by (auto simp: insert_program_def Let_def bindE_Inr_iff list_ex_iff)
next
  case False
  then show ?thesis
    using assms
    by (intro disjI2 exI [of _ "\<lparr>prg_id = db_next_program_id s, prg_code = pd_code p, prg_name = pd_name p, prg_type = pd_type p,
        prg_partner_code = pd_partner_code p, prg_active = True, prg_created_at = dbnow\<rparr>"])
      (auto simp: insert_program_def Let_def bindE_Inr_iff checked_Inr_iff list_ex_iff)
qed

lemma insert_program_keeps:
  assumes "insert_program dbnow p s = Inr (r, s')" "seed_inv s"
  shows "seed_inv s' \<and> grows s s' \<and> pd_code p \<in> prg_code ` set (db_programs s')"
proof -
  have ok: "saga_ok s" "ledger_ok s" "clearing_present s"
    using assms(2) by (simp_all add: seed_inv_def saga_inv_def)
  have frame: "saga_ok s1" if "s1 = s\<lparr>db_next_program_id := n, db_programs := ps\<rparr>" "set (db_programs s) \<subseteq> set ps"
    "distinct (map prg_id ps)" "distinct (map prg_code ps)" for s1 n ps
  proof -
    have "\<forall>a \<in> set (db_accounts s). acc_program_id a \<in> prg_id ` set ps"
      using ok(2) that(2) by (meson image_mono ledger_ok_def subsetD)
    then have "ledger_ok s1"
      using ok(2) that(3,4) by (auto simp: ledger_ok_def accounts_ok_def account_in_program_def that(1))
    then show ?thesis
      by (rule saga_frame [OF ok(1)]) (simp_all add: that(1))
  qed
  have "distinct (map prg_id (db_programs s))" "distinct (map prg_code (db_programs s))"
    using ok(2) by (simp_all add: ledger_ok_def)
  then have "saga_ok s'"
    using insert_program_Inr [OF assms(1)] frame [of s' "db_programs s'" "db_next_program_id s + 1"]
    by (auto simp: subset_insertI)
  then show ?thesis
    using insert_program_Inr [OF assms(1)] ok(3)
    by (auto simp: seed_inv_def clearing_present_def grows_def intro: rev_image_eqI)
qed

lemma insert_user_keeps:
  assumes "insert_user dbnow u s = Inr (r, s')" "seed_inv s"
  shows "seed_inv s' \<and> grows s s' \<and> u \<in> usr_id ` set (db_users s') \<and> db_programs s' = db_programs s"
proof -
  have ok: "saga_ok s" "ledger_ok s" "clearing_present s"
    using assms(2) by (simp_all add: seed_inv_def saga_inv_def)
  have s': "s' = s \<and> u \<in> usr_id ` set (db_users s)
      \<or> s' = s\<lparr>db_users := db_users s @ [\<lparr>usr_id = u, usr_created_at = dbnow\<rparr>]\<rparr>"
    using assms(1)
    by (fastforce simp: insert_user_def bindE_Inr_iff checked_Inr_iff ranged_Inr_iff list_ex_iff split: if_splits)
  then have "saga_ok s'"
    using ok(1,2) ledger_ok_cong [of s' s] by (intro saga_frame [OF ok(1)]) auto
  then show ?thesis
    using s' ok(3) by (auto simp: seed_inv_def clearing_present_def grows_def)
qed

lemma insert_rate_keeps:
  assumes "insert_rate s r0 = Inr (r, s')" "seed_inv s"
  shows "seed_inv s' \<and> grows s s' \<and> r \<in> set (db_rates s') \<and> same_route r r0 \<and> db_programs s' = db_programs s"
proof -
  have ok: "saga_ok s" "ledger_ok s" "clearing_present s"
    using assms(2) by (simp_all add: seed_inv_def saga_inv_def)
  have s': "r = r0\<lparr>cr_id := db_next_rate_id s\<rparr> \<and> s' = s\<lparr>db_rates := db_rates s @ [r], db_next_rate_id := db_next_rate_id s + 1\<rparr>"
    using assms(1) by (auto simp: insert_rate_def Let_def bindE_Inr_iff)
  then have "saga_ok s'"
    using ok(2) ledger_ok_cong [of s' s] by (intro saga_frame [OF ok(1)]) simp_all
  then show ?thesis
    using s' ok(3) by (auto simp: seed_inv_def clearing_present_def grows_def)
qed

lemma insert_bonus_keeps:
  assumes "insert_bonus s b0 = Inr (b, s')" "seed_inv s"
  shows "seed_inv s' \<and> grows s s' \<and> b \<in> set (db_bonuses s') \<and> tb_source_program_id b = tb_source_program_id b0
    \<and> tb_destination_program_id b = tb_destination_program_id b0 \<and> db_programs s' = db_programs s"
proof -
  have ok: "saga_ok s" "ledger_ok s" "clearing_present s"
    using assms(2) by (simp_all add: seed_inv_def saga_inv_def)
  have s': "b = b0\<lparr>tb_id := db_next_bonus_id s\<rparr> \<and> s' = s\<lparr>db_bonuses := db_bonuses s @ [b], db_next_bonus_id := db_next_bonus_id s + 1\<rparr>"
    using assms(1) by (auto simp: insert_bonus_def Let_def bindE_Inr_iff)
  then have "saga_ok s'"
    using ok(2) ledger_ok_cong [of s' s] by (intro saga_frame [OF ok(1)]) simp_all
  then show ?thesis
    using s' ok(3) by (auto simp: seed_inv_def clearing_present_def grows_def)
qed

text \<open>A new account is empty, as the entries say, and no transfer is waiting for it.\<close>

lemma new_account_keeps:
  assumes inv: "seed_inv s" and a: "list_all fst (account_checks a)" "acc_balance a = 0"
      "list_all fst (account_uniques s a @ account_references s a)"
    and s': "s' = s\<lparr>db_next_account_id := n, db_accounts := db_accounts s @ [a]\<rparr>"
  shows "seed_inv s'"
proof -
  have ok: "saga_ok s" "ledger_ok s" "clearing_present s" and books: "books_ok s"
    using inv saga_books by (auto simp: seed_inv_def)
  have new: "acc_id a \<notin> acc_id ` set (db_accounts s)" "owner_consistent a" "\<forall>b \<in> set (db_accounts s). \<not> same_system_account a b"
    using a by (auto simp: account_uniques_def account_checks_def list_ex_iff)
  have prog: "acc_program_id a \<in> prg_id ` set (db_programs s)"
    using a(3) by (force simp: account_references_def list_ex_iff)
  have led: "ledger_ok s'"
    using ok(2) new prog a(2) by (auto simp: ledger_ok_def accounts_ok_def account_in_program_def list_ex_iff s')
  have "ledger_balance s (acc_id a) = 0"
  proof -
    have "en_account_id e \<in> acc_id ` set (db_accounts s)" if "e \<in> set (db_entries s)" for e
    proof -
      have "account_in_program s (en_account_id e) (en_program_id e)"
        using ok(2) that by (simp add: ledger_ok_def)
      then show ?thesis by (auto simp: account_in_program_def list_ex_iff intro: rev_image_eqI)
    qed
    then have "filter (\<lambda>e. en_account_id e = acc_id a) (db_entries s) = []"
      using new(1) by (metis (mono_tags, lifting) filter_False)
    then show ?thesis by (simp add: ledger_balance_def)
  qed
  then have "books_ok s'"
    using books a(2) by (auto simp: books_ok_def balances_match_def journals_balanced_def ledger_balance_def s')
  moreover have "system_unique s'"
    using ok(1) new(3) by (auto simp: saga_inv_def system_unique_def same_system_account_def s')
  moreover have "\<forall>t \<in> set (db_transfers s'). transfer_linked False s' t"
    using ok(1) by (auto simp: saga_inv_def transfer_linked_def events_of_def journals_of_def owns_def s')
  moreover have "clearing_ok s'"
  proof -
    have "in_flight_points (db_transfers s) (acc_program_id a) = 0" if ty: "acc_account_type a = TRANSFER_CLEARING"
    proof -
      have "tr_source_program_id t \<noteq> acc_program_id a" if t: "t \<in> set (db_transfers s)" for t
      proof
        assume p: "tr_source_program_id t = acc_program_id a"
        with ok(3) t obtain b where b: "b \<in> set (db_accounts s)" "acc_account_type b = TRANSFER_CLEARING"
          "acc_program_id b = acc_program_id a"
          by (auto simp: clearing_present_def)
        then have "acc_owner_type b = SYSTEM" "acc_owner_type a = SYSTEM"
          using ok(2) new(2) ty by (auto simp: ledger_ok_def accounts_ok_def owner_consistent_def)
        then show False
          using new(3) b ty by (auto simp: same_system_account_def)
      qed
      then show ?thesis
        by (simp add: in_flight_points_def filter_False)
    qed
    then show ?thesis
      using ok(1) a(2) by (auto simp: saga_inv_def clearing_ok_def s')
  qed
  ultimately have "saga_ok s'"
    using ok(1) led find_violations_empty_iff [OF led] by (simp add: saga_inv_def s' split: option.splits)
  then show ?thesis
    using ok(3) by (auto simp: seed_inv_def clearing_present_def s')
qed

lemma insert_account_keeps:
  assumes "insert_account conflict a0 s = Inr (r, s')" "seed_inv s" "acc_balance a0 = 0"
  shows "seed_inv s' \<and> grows s s' \<and> db_programs s' = db_programs s"
    and "r = None \<Longrightarrow> \<exists>b \<in> set (db_accounts s'). conflict (a0\<lparr>acc_id := db_next_account_id s\<rparr>) b"
    and "r = Some i \<Longrightarrow> a0\<lparr>acc_id := i\<rparr> \<in> set (db_accounts s')"
proof -
  let ?a = "a0\<lparr>acc_id := db_next_account_id s\<rparr>"
  have "list_ex (conflict ?a) (db_accounts s) \<and> r = None \<and> s' = s\<lparr>db_next_account_id := db_next_account_id s + 1\<rparr>
    \<or> list_all fst (account_checks ?a) \<and> list_all fst (account_uniques s ?a @ account_references s ?a)
      \<and> r = Some (db_next_account_id s)
      \<and> s' = s\<lparr>db_next_account_id := db_next_account_id s + 1, db_accounts := db_accounts s @ [?a]\<rparr>"
    using assms(1)
    by (auto simp: insert_account_def Let_def bindE_Inr_iff checked_Inr_iff ranged_Inr_iff list_all_iff split: if_splits)
  then consider (conflict) "list_ex (conflict ?a) (db_accounts s)" "r = None" "s' = s\<lparr>db_next_account_id := db_next_account_id s + 1\<rparr>"
    | (new) "list_all fst (account_checks ?a)" "list_all fst (account_uniques s ?a @ account_references s ?a)"
      "r = Some (db_next_account_id s)"
      "s' = s\<lparr>db_next_account_id := db_next_account_id s + 1, db_accounts := db_accounts s @ [?a]\<rparr>"
    by blast
  then have all: "seed_inv s' \<and> grows s s' \<and> db_programs s' = db_programs s
    \<and> (r = None \<longrightarrow> (\<exists>b \<in> set (db_accounts s'). conflict ?a b)) \<and> (\<forall>i. r = Some i \<longrightarrow> a0\<lparr>acc_id := i\<rparr> \<in> set (db_accounts s'))"
  proof cases
    case conflict
    have ok: "saga_ok s" "ledger_ok s"
      using assms(2) by (simp_all add: seed_inv_def saga_inv_def)
    have "ledger_ok s'"
      using ok(2) ledger_ok_cong(1) [of s' s] by (simp add: conflict(3))
    then have "saga_ok s'"
      by (rule saga_frame [OF ok(1)]) (simp_all add: conflict(3))
    then show ?thesis
      using conflict assms(2) by (auto simp: seed_inv_def clearing_present_def grows_def list_ex_iff)
  next
    case new
    have "seed_inv s'"
      using new_account_keeps [OF assms(2) new(1) _ new(2,4)] assms(3) by simp
    then show ?thesis
      using new(3,4) by (auto simp: grows_def)
  qed
  then show "seed_inv s' \<and> grows s s' \<and> db_programs s' = db_programs s"
    "r = None \<Longrightarrow> \<exists>b \<in> set (db_accounts s'). conflict ?a b" "r = Some i \<Longrightarrow> a0\<lparr>acc_id := i\<rparr> \<in> set (db_accounts s')"
    by auto
qed

text \<open>Opening balances are posted between the user's account and the program's settlement account.\<close>

definition settled :: "(string \<times> int) list \<Rightarrow> db \<Rightarrow> bool" where
  "settled settlements s =
     (\<forall>i \<in> snd ` set settlements. \<exists>a \<in> set (db_accounts s). acc_id a = i \<and> acc_account_type a = PARTNER_SETTLEMENT)"

lemma grows_account:
  assumes "grows s s'" "a \<in> set (db_accounts s)"
  shows "\<exists>b \<in> set (db_accounts s'). account_key b = account_key a"
proof -
  have "account_key a \<in> account_key ` set (db_accounts s')"
    using assms unfolding grows_def by blast
  then show ?thesis by auto
qed

lemma settled_grows:
  assumes "settled settlements s" "grows s s'"
  shows "settled settlements s'"
  unfolding settled_def
proof
  fix i assume "i \<in> snd ` set settlements"
  with assms(1) obtain a where a: "a \<in> set (db_accounts s)" "acc_id a = i" "acc_account_type a = PARTNER_SETTLEMENT"
    by (auto simp: settled_def)
  from grows_account [OF assms(2) a(1)] a(2,3)
  show "\<exists>a \<in> set (db_accounts s'). acc_id a = i \<and> acc_account_type a = PARTNER_SETTLEMENT"
    by (auto simp: account_key_def)
qed

lemma opening_balance_keeps:
  assumes post: "post_opening_balance dbnow pid uid sid n s = Inr s'" and inv: "seed_inv s"
    and u: "a \<in> set (db_accounts s)" "acc_id a = uid" "acc_account_type a = USER_BALANCE"
    and p: "b \<in> set (db_accounts s)" "acc_id b = sid" "acc_account_type b = PARTNER_SETTLEMENT"
  shows "seed_inv s' \<and> grows s s' \<and> db_programs s' = db_programs s"
proof -
  let ?ps = "[\<lparr>po_account_id = uid, po_program_id = pid, po_direction = CREDIT, po_amount = n\<rparr>,
    \<lparr>po_account_id = sid, po_program_id = pid, po_direction = DEBIT, po_amount = n\<rparr>]"
  from post obtain j where run: "post_journal dbnow s SEED ?ps None = Inr (j, s')"
    by (auto simp: post_opening_balance_def bindE_Inr_iff)
  have ok: "saga_ok s" "ledger_ok s" "clearing_present s"
    using inv by (simp_all add: seed_inv_def saga_inv_def)
  note s' = post_journal_Inr(3) [OF run]
  have acc: "db_accounts s' = map (\<lambda>a. moved dbnow (account_net ?ps (acc_id a)) a) (db_accounts s)"
    by (simp add: s')
  have led: "ledger_ok s'" and books: "books_ok s'"
    using post_journal_keeps [OF run ok(2)] saga_books [OF ok(1)] by auto
  have net: "account_net ?ps (acc_id c) = 0" if "c \<in> set (db_accounts s)" "acc_account_type c = TRANSFER_CLEARING" for c
    using account_ids_inj [OF ok(2) that(1) u(1)] account_ids_inj [OF ok(2) that(1) p(1)] that u p by auto
  have "\<forall>t \<in> set (db_transfers s'). transfer_linked False s' t"
    using ok(1) owns_moved [OF acc]
    by (auto simp: saga_inv_def transfer_linked_def events_of_def journals_of_def s')
  moreover have "clearing_ok s'"
    using ok(1) net by (auto simp: saga_inv_def clearing_ok_def acc) (simp_all add: s')
  moreover have "system_unique s'"
    using system_unique_moved [OF acc] ok(1) by (simp add: saga_inv_def)
  ultimately have "saga_ok s'"
    using ok(1) led books find_violations_empty_iff [OF led] by (simp add: saga_inv_def s' split: option.splits)
  moreover have "account_key ` set (db_accounts s') = account_key ` set (db_accounts s)"
    by (simp add: acc image_image account_key_def)
  moreover have "clearing_present s'"
    using ok(3) by (auto simp: clearing_present_def acc) (simp add: s')
  ultimately show ?thesis
    by (simp add: seed_inv_def grows_def s')
qed

section \<open>What is there after a run\<close>

definition program_seeded :: "program_seed \<Rightarrow> db \<Rightarrow> bool" where
  "program_seeded p s = (pd_code p \<in> prg_code ` set (db_programs s))"

definition system_seeded :: "int \<times> account_type \<Rightarrow> db \<Rightarrow> bool" where
  "system_seeded row s =
     (\<exists>a \<in> set (db_accounts s). acc_owner_type a = SYSTEM \<and> acc_program_id a = fst row \<and> acc_account_type a = snd row)"

definition rate_seeded :: "(string \<times> int) list \<Rightarrow> rate_seed \<Rightarrow> db \<Rightarrow> bool" where
  "rate_seeded program_ids r s =
     (\<exists>route. route_ids program_ids (rd_source r) (rd_destination r) = Inr route \<and> route \<in> set (rate_routes s))"

definition bonus_seeded :: "(string \<times> int) list \<Rightarrow> bonus_seed \<Rightarrow> db \<Rightarrow> bool" where
  "bonus_seeded program_ids b s =
     (\<exists>route. route_ids program_ids (bd_source b) (bd_destination b) = Inr route \<and> route \<in> set (bonus_routes s))"

definition account_seeded :: "(string \<times> int) list \<Rightarrow> string \<Rightarrow> string \<Rightarrow> db \<Rightarrow> bool" where
  "account_seeded program_ids user_id code s =
     (\<exists>pid. map_of program_ids code = Some pid
        \<and> (\<exists>a \<in> set (db_accounts s). acc_user_id a = Some user_id \<and> acc_program_id a = pid))"

definition user_seeded :: "(string \<times> int) list \<Rightarrow> user_seed \<Rightarrow> db \<Rightarrow> bool" where
  "user_seeded program_ids u s =
     (ud_user_id u \<in> usr_id ` set (db_users s)
      \<and> (\<forall>row \<in> set (ud_accounts u). account_seeded program_ids (ud_user_id u) (fst row) s))"

lemma seeded_grows:
  assumes "grows s s'"
  shows "program_seeded p s \<Longrightarrow> program_seeded p s'" "system_seeded row s \<Longrightarrow> system_seeded row s'"
    "rate_seeded ids r s \<Longrightarrow> rate_seeded ids r s'" "bonus_seeded ids b s \<Longrightarrow> bonus_seeded ids b s'"
    "account_seeded ids u c s \<Longrightarrow> account_seeded ids u c s'" "user_seeded ids us s \<Longrightarrow> user_seeded ids us s'"
proof -
  show "program_seeded p s \<Longrightarrow> program_seeded p s'" "rate_seeded ids r s \<Longrightarrow> rate_seeded ids r s'"
    "bonus_seeded ids b s \<Longrightarrow> bonus_seeded ids b s'"
    using assms by (auto simp: grows_def program_seeded_def rate_seeded_def bonus_seeded_def rate_routes_def bonus_routes_def)
  show "system_seeded row s \<Longrightarrow> system_seeded row s'"
    using grows_account [OF assms] by (fastforce simp: system_seeded_def account_key_def)
  show acc: "account_seeded ids u c s \<Longrightarrow> account_seeded ids u c s'" for ids u c
    using grows_account [OF assms] by (fastforce simp: account_seeded_def account_key_def)
  show "user_seeded ids us s \<Longrightarrow> user_seeded ids us s'"
    using assms acc by (auto simp: user_seeded_def grows_def)
qed

text \<open>A loop whose step marks its element, and never unmarks one.\<close>

lemma foldE_marks:
  assumes "foldE f xs st = Inr st'" "P st"
    and step: "\<And>x st st'. x \<in> set xs \<Longrightarrow> P st \<Longrightarrow> f x st = Inr st' \<Longrightarrow> P st' \<and> Q x st' \<and> (\<forall>y. Q y st \<longrightarrow> Q y st')"
  shows "P st' \<and> (\<forall>x \<in> set xs. Q x st') \<and> (\<forall>y. Q y st \<longrightarrow> Q y st')"
  using assms
proof (induction xs arbitrary: st)
  case (Cons x xs)
  from Cons.prems(1) obtain st1 where st1: "f x st = Inr st1" "foldE f xs st1 = Inr st'"
    by (auto simp: bindE_Inr_iff)
  have 1: "P st1 \<and> Q x st1 \<and> (\<forall>y. Q y st \<longrightarrow> Q y st1)"
    by (rule Cons.prems(3) [OF _ Cons.prems(2) st1(1)]) simp
  have "P st' \<and> (\<forall>x \<in> set xs. Q x st') \<and> (\<forall>y. Q y st1 \<longrightarrow> Q y st')"
    using 1 Cons.prems(3) by (intro Cons.IH [OF st1(2)]) auto
  with 1 show ?case by auto
qed simp

text \<open>The state after some steps from \<open>s0\<close>: invariant, nothing lost, and (after the first step) the same programs.\<close>

definition seeding :: "db \<Rightarrow> db \<Rightarrow> bool" where
  "seeding s0 s = (seed_inv s \<and> grows s0 s \<and> db_programs s = db_programs s0)"

lemma seeding_refl: "seed_inv s \<Longrightarrow> seeding s s"
  by (simp add: seeding_def)

lemma seeding_step:
  "seeding s0 s \<Longrightarrow> seed_inv s' \<and> grows s s' \<and> db_programs s' = db_programs s \<Longrightarrow> seeding s0 s'"
  using grows_trans [of s0 s s'] by (simp add: seeding_def)

lemma seed_programs_run:
  assumes "seed_programs dbnow (s, rep) = Inr (ids, st)" "seed_inv s"
  shows "seed_inv (fst st) \<and> ids = program_codes (fst st) \<and> (\<forall>p \<in> set PROGRAMS. program_seeded p (fst st))"
proof -
  from assms(1) have run: "foldE (seed_program dbnow) PROGRAMS (s, rep) = Inr st" and ids: "ids = program_codes (fst st)"
    by (auto simp: seed_programs_def bindE_Inr_iff)
  have "seed_inv (fst st) \<and> (\<forall>p \<in> set PROGRAMS. program_seeded p (fst st)) \<and> (\<forall>p. program_seeded p (fst (s, rep)) \<longrightarrow> program_seeded p (fst st))"
  proof (rule foldE_marks [OF run])
    fix p st1 st2 assume "seed_inv (fst st1)" "seed_program dbnow p st1 = Inr st2"
    then have "seed_inv (fst st2) \<and> grows (fst st1) (fst st2) \<and> program_seeded p (fst st2)"
      using insert_program_keeps [of dbnow p "fst st1"] by (auto simp: seed_program_def bindE_Inr_iff program_seeded_def)
    then show "seed_inv (fst st2) \<and> program_seeded p (fst st2) \<and> (\<forall>q. program_seeded q (fst st1) \<longrightarrow> program_seeded q (fst st2))"
      using seeded_grows(1) by blast
  qed (use assms(2) in simp)
  then show ?thesis using ids by simp
qed

lemma seed_system_account_keeps:
  assumes "seed_system_account dbnow row st = Inr st'" "seed_inv (fst st)"
  shows "seed_inv (fst st') \<and> grows (fst st) (fst st') \<and> db_programs (fst st') = db_programs (fst st)" "system_seeded row (fst st')"
proof -
  let ?a = "\<lparr>acc_id = 0, acc_owner_type = SYSTEM, acc_user_id = None, acc_program_id = fst row, acc_account_type = snd row,
        acc_external_member_id = None, acc_balance = 0, acc_created_at = dbnow, acc_updated_at = dbnow\<rparr>"
  from assms(1) obtain r where r: "insert_account same_system_account ?a (fst st) = Inr (r, fst st')"
    by (auto simp: seed_system_account_def bindE_Inr_iff)
  note K = insert_account_keeps [OF r assms(2)]
  show "seed_inv (fst st') \<and> grows (fst st) (fst st') \<and> db_programs (fst st') = db_programs (fst st)"
    using K(1) by simp
  show "system_seeded row (fst st')"
  proof (cases r)
    case None
    with K(2) show ?thesis by (auto simp: system_seeded_def same_system_account_def)
  next
    case (Some i)
    with K(3) [of i] show ?thesis by (force simp: system_seeded_def)
  qed
qed

lemma settlement_ids_Inr:
  "settlement_ids accounts ids = Inr out \<Longrightarrow> snd ` set out \<subseteq> snd ` set accounts"
proof (induction ids arbitrary: out)
  case (Cons c ids)
  then obtain code pid aid rest where c: "c = (code, pid)" "map_of accounts pid = Some aid"
    "settlement_ids accounts ids = Inr rest" "out = (code, aid) # rest"
    by (cases c) (auto simp: bindE_Inr_iff of_option_Inr_iff)
  from map_of_SomeD [OF c(2)] have "aid \<in> snd ` set accounts" by force
  with Cons.IH [OF c(3)] c(4) show ?case by simp
qed simp

lemma seed_system_accounts_run:
  assumes "seed_system_accounts dbnow ids st = Inr (settlements, st')" "seed_inv (fst st)"
  shows "seeding (fst st) (fst st') \<and> settled settlements (fst st')
    \<and> (\<forall>pid \<in> snd ` set ids. system_seeded (pid, TRANSFER_CLEARING) (fst st') \<and> system_seeded (pid, PARTNER_SETTLEMENT) (fst st'))"
proof -
  let ?rows = "concat (map (\<lambda>(code, pid). [(pid, TRANSFER_CLEARING), (pid, PARTNER_SETTLEMENT)]) ids)"
  from assms(1) have run: "foldE (seed_system_account dbnow) ?rows st = Inr st'"
    and sets: "settlement_ids (settlement_accounts (fst st')) ids = Inr settlements"
    by (auto simp: seed_system_accounts_def bindE_Inr_iff)
  have "seeding (fst st) (fst st') \<and> (\<forall>row \<in> set ?rows. system_seeded row (fst st'))
    \<and> (\<forall>row. system_seeded row (fst st) \<longrightarrow> system_seeded row (fst st'))"
  proof (rule foldE_marks [OF run])
    fix row st1 st2 assume s1: "seeding (fst st) (fst st1)" and s2: "seed_system_account dbnow row st1 = Inr st2"
    have "seed_inv (fst st1)" using s1 by (simp add: seeding_def)
    note K = seed_system_account_keeps [OF s2 this]
    show "seeding (fst st) (fst st2) \<and> system_seeded row (fst st2) \<and> (\<forall>q. system_seeded q (fst st1) \<longrightarrow> system_seeded q (fst st2))"
      using K seeding_step [OF s1] seeded_grows(2) by blast
  qed (use assms(2) seeding_refl in simp)
  moreover have "settled settlements (fst st')"
    using settlement_ids_Inr [OF sets] by (fastforce simp: settled_def settlement_accounts_def)
  ultimately show ?thesis by force
qed

lemma routes_grow:
  assumes "grows s s'"
  shows "set (rate_routes s) \<subseteq> set (rate_routes s')" "set (bonus_routes s) \<subseteq> set (bonus_routes s')"
  using assms by (auto simp: grows_def rate_routes_def bonus_routes_def)

lemma new_rates_cover:
  assumes "new_rates ids existing dbnow now rs = Inr rows" "r \<in> set rs"
  shows "\<exists>route. route_ids ids (rd_source r) (rd_destination r) = Inr route
    \<and> (route \<in> set existing \<or> (\<exists>row \<in> set rows. (cr_source_program_id row, cr_destination_program_id row) = route))"
  using assms
  by (induction rs arbitrary: rows) (fastforce simp: bindE_Inr_iff split: if_splits)+

lemma new_bonuses_cover:
  assumes "new_bonuses ids existing dbnow now bs = Inr rows" "b \<in> set bs"
  shows "\<exists>route. route_ids ids (bd_source b) (bd_destination b) = Inr route
    \<and> (route \<in> set existing \<or> (\<exists>row \<in> set rows. (tb_source_program_id row, tb_destination_program_id row) = route))"
  using assms
  by (induction bs arbitrary: rows) (fastforce simp: bindE_Inr_iff split: if_splits)+

lemma seed_rates_run:
  assumes "seed_rates dbnow ids now st = Inr st'" "seed_inv (fst st)"
  shows "seeding (fst st) (fst st') \<and> (\<forall>r \<in> set RATES. rate_seeded ids r (fst st'))"
proof -
  let ?Q = "\<lambda>(row :: conversion_rate) (s :: db). (cr_source_program_id row, cr_destination_program_id row) \<in> set (rate_routes s)"
  from assms(1) obtain rows where rows: "new_rates ids (rate_routes (fst st)) dbnow now RATES = Inr rows"
    and run: "foldE (\<lambda>r s. bindE (insert_rate s r) (\<lambda>(_, s'). Inr s')) rows (fst st) = Inr (fst st')"
    by (auto simp: seed_rates_def bindE_Inr_iff)
  have "seeding (fst st) (fst st') \<and> (\<forall>row \<in> set rows. ?Q row (fst st')) \<and> (\<forall>row. ?Q row (fst st) \<longrightarrow> ?Q row (fst st'))"
  proof (rule foldE_marks [OF run, where P = "seeding (fst st)" and Q = ?Q])
    fix row s1 s2 assume s1: "seeding (fst st) s1" and "bindE (insert_rate s1 row) (\<lambda>(_, s'). Inr s') = Inr s2"
    then obtain r where "insert_rate s1 row = Inr (r, s2)" by (auto simp: bindE_Inr_iff)
    from insert_rate_keeps [OF this] s1
    have K: "seed_inv s2 \<and> grows s1 s2 \<and> db_programs s2 = db_programs s1" "r \<in> set (db_rates s2)" "same_route r row"
      by (auto simp: seeding_def)
    show "seeding (fst st) s2 \<and> ?Q row s2 \<and> (\<forall>q. ?Q q s1 \<longrightarrow> ?Q q s2)"
    proof -
      have "?Q row s2"
        using K(3) by (auto simp: rate_routes_def intro: rev_image_eqI [OF K(2)])
      then show ?thesis
        using seeding_step [OF s1 K(1)] routes_grow(1) [of s1 s2] K(1) by blast
    qed
  qed (use assms(2) seeding_refl in simp)
  then show ?thesis
    using new_rates_cover [OF rows] by (fastforce simp: rate_seeded_def rate_routes_def)
qed

lemma seed_bonuses_run:
  assumes "seed_bonuses dbnow ids now st = Inr st'" "seed_inv (fst st)"
  shows "seeding (fst st) (fst st') \<and> (\<forall>b \<in> set BONUSES. bonus_seeded ids b (fst st'))"
proof -
  let ?Q = "\<lambda>(row :: transfer_bonus) (s :: db). (tb_source_program_id row, tb_destination_program_id row) \<in> set (bonus_routes s)"
  from assms(1) obtain rows where rows: "new_bonuses ids (bonus_routes (fst st)) dbnow now BONUSES = Inr rows"
    and run: "foldE (\<lambda>b s. bindE (insert_bonus s b) (\<lambda>(_, s'). Inr s')) rows (fst st) = Inr (fst st')"
    by (auto simp: seed_bonuses_def bindE_Inr_iff)
  have "seeding (fst st) (fst st') \<and> (\<forall>row \<in> set rows. ?Q row (fst st')) \<and> (\<forall>row. ?Q row (fst st) \<longrightarrow> ?Q row (fst st'))"
  proof (rule foldE_marks [OF run, where P = "seeding (fst st)" and Q = ?Q])
    fix row s1 s2 assume s1: "seeding (fst st) s1" and "bindE (insert_bonus s1 row) (\<lambda>(_, s'). Inr s') = Inr s2"
    then obtain b where "insert_bonus s1 row = Inr (b, s2)" by (auto simp: bindE_Inr_iff)
    from insert_bonus_keeps [OF this] s1
    have K: "seed_inv s2 \<and> grows s1 s2 \<and> db_programs s2 = db_programs s1" "b \<in> set (db_bonuses s2)"
      "tb_source_program_id b = tb_source_program_id row" "tb_destination_program_id b = tb_destination_program_id row"
      by (auto simp: seeding_def)
    show "seeding (fst st) s2 \<and> ?Q row s2 \<and> (\<forall>q. ?Q q s1 \<longrightarrow> ?Q q s2)"
    proof -
      have "?Q row s2"
        using K(3,4) by (auto simp: bonus_routes_def intro: rev_image_eqI [OF K(2)])
      then show ?thesis
        using seeding_step [OF s1 K(1)] routes_grow(2) [of s1 s2] K(1) by blast
    qed
  qed (use assms(2) seeding_refl in simp)
  then show ?thesis
    using new_bonuses_cover [OF rows] by (fastforce simp: bonus_seeded_def bonus_routes_def)
qed

lemma seed_user_account_keeps:
  assumes "seed_user_account dbnow ids settlements u row st = Inr st'" "seed_inv (fst st)" "settled settlements (fst st)"
  shows "seed_inv (fst st') \<and> grows (fst st) (fst st') \<and> db_programs (fst st') = db_programs (fst st)"
    "account_seeded ids u (fst row) (fst st')"
proof -
  obtain code n member where row: "row = (code, n, member)" by (cases row)
  from assms(1) obtain pid r s1 where pid: "map_of ids code = Some pid"
    and ins: "insert_account same_user_program \<lparr>acc_id = 0, acc_owner_type = USER, acc_user_id = Some u, acc_program_id = pid,
        acc_account_type = USER_BALANCE, acc_external_member_id = Some member, acc_balance = 0,
        acc_created_at = dbnow, acc_updated_at = dbnow\<rparr> (fst st) = Inr (r, s1)" (is "insert_account _ ?a _ = _")
    and cont: "(case r of None \<Rightarrow> Inr (s1, snd st)
      | Some i \<Rightarrow> bindE (of_option (OtherError ''KeyError'') (map_of settlements code)) (\<lambda>j.
          bindE (post_opening_balance dbnow pid i j n s1) (\<lambda>s2. Inr (s2, dict_add ''user_accounts'' 1 (snd st))))) = Inr st'"
    unfolding seed_user_account_def row prod.case bindE_Inr_iff of_option_Inr_iff by (elim exE conjE) (simp split: prod.splits)
  have rest: "r = None \<and> st' = (s1, snd st) \<or> (\<exists>i j. r = Some i \<and> map_of settlements code = Some j
        \<and> post_opening_balance dbnow pid i j n s1 = Inr (fst st'))"
    using cont by (cases r) (auto simp: bindE_Inr_iff of_option_Inr_iff)
  note K = insert_account_keeps [OF ins assms(2)]
  have inv1: "seed_inv s1" and g1: "grows (fst st) s1" and p1: "db_programs s1 = db_programs (fst st)"
    using K(1) by simp_all
  have seeded: "account_seeded ids u (fst row) s1"
  proof (cases r)
    case None
    with K(2) pid show ?thesis by (auto simp: account_seeded_def same_user_program_def row)
  next
    case (Some i)
    with K(3) [of i] pid show ?thesis by (force simp: account_seeded_def row)
  qed
  have step: "seed_inv (fst st') \<and> grows s1 (fst st') \<and> db_programs (fst st') = db_programs s1"
  proof (cases r)
    case None
    then show ?thesis using rest inv1 by auto
  next
    case (Some i)
    then obtain j where j: "map_of settlements code = Some j" "post_opening_balance dbnow pid i j n s1 = Inr (fst st')"
      using rest by auto
    have a: "?a\<lparr>acc_id := i\<rparr> \<in> set (db_accounts s1)" using K(3) Some by simp
    have "j \<in> snd ` set settlements" using map_of_SomeD [OF j(1)] by force
    then obtain b where "b \<in> set (db_accounts s1)" "acc_id b = j" "acc_account_type b = PARTNER_SETTLEMENT"
      using settled_grows [OF assms(3) g1] by (auto simp: settled_def)
    from opening_balance_keeps [OF j(2) inv1 a _ _ this] show ?thesis by simp
  qed
  then show "seed_inv (fst st') \<and> grows (fst st) (fst st') \<and> db_programs (fst st') = db_programs (fst st)"
    using grows_trans [OF g1] p1 by simp
  show "account_seeded ids u (fst row) (fst st')"
    using seeded_grows(5) [OF _ seeded] step by blast
qed

lemma seed_user_run:
  assumes "seed_user dbnow ids settlements u st = Inr st'" "seed_inv (fst st)" "settled settlements (fst st)"
  shows "seed_inv (fst st') \<and> grows (fst st) (fst st') \<and> db_programs (fst st') = db_programs (fst st)"
    "user_seeded ids u (fst st')"
proof -
  let ?P = "\<lambda>st1 :: db \<times> seed_report. seeding (fst st) (fst st1) \<and> ud_user_id u \<in> usr_id ` set (db_users (fst st1))"
  let ?Q = "\<lambda>(row :: string \<times> int \<times> string) (st1 :: db \<times> seed_report). account_seeded ids (ud_user_id u) (fst row) (fst st1)"
  from assms(1) obtain r s1 rep where ins: "insert_user dbnow (ud_user_id u) (fst st) = Inr (r, s1)"
    and run: "foldE (seed_user_account dbnow ids settlements (ud_user_id u)) (ud_accounts u) (s1, rep) = Inr st'"
    by (auto simp: seed_user_def bindE_Inr_iff)
  have "?P st' \<and> (\<forall>row \<in> set (ud_accounts u). ?Q row st') \<and> (\<forall>row. ?Q row (s1, rep) \<longrightarrow> ?Q row st')"
  proof (rule foldE_marks [OF run, where P = ?P and Q = ?Q])
    fix row st1 st2 assume P: "?P st1" and s2: "seed_user_account dbnow ids settlements (ud_user_id u) row st1 = Inr st2"
    have "seed_inv (fst st1)" "settled settlements (fst st1)"
      using P settled_grows [OF assms(3)] by (simp_all add: seeding_def)
    note K = seed_user_account_keeps [OF s2 this]
    have "ud_user_id u \<in> usr_id ` set (db_users (fst st2))"
      using P K(1) by (auto simp: grows_def)
    then show "?P st2 \<and> ?Q row st2 \<and> (\<forall>q. ?Q q st1 \<longrightarrow> ?Q q st2)"
      using P K seeding_step seeded_grows(5) by blast
  qed (use insert_user_keeps [OF ins assms(2)] in \<open>simp add: seeding_def\<close>)
  then show "seed_inv (fst st') \<and> grows (fst st) (fst st') \<and> db_programs (fst st') = db_programs (fst st)"
    "user_seeded ids u (fst st')"
    by (auto simp: seeding_def user_seeded_def)
qed

lemma seed_users_run:
  assumes run: "foldE (seed_user dbnow ids settlements) us st = Inr st'" and "seed_inv (fst st)" "settled settlements (fst st)"
  shows "seeding (fst st) (fst st') \<and> (\<forall>u \<in> set us. user_seeded ids u (fst st'))"
proof -
  have "seeding (fst st) (fst st') \<and> (\<forall>u \<in> set us. user_seeded ids u (fst st'))
    \<and> (\<forall>u. user_seeded ids u (fst st) \<longrightarrow> user_seeded ids u (fst st'))"
  proof (rule foldE_marks [OF run])
    fix u st1 st2 assume s1: "seeding (fst st) (fst st1)" and s2: "seed_user dbnow ids settlements u st1 = Inr st2"
    have "seed_inv (fst st1)" "settled settlements (fst st1)"
      using s1 settled_grows [OF assms(3)] by (simp_all add: seeding_def)
    note K = seed_user_run [OF s2 this]
    show "seeding (fst st) (fst st2) \<and> user_seeded ids u (fst st2) \<and> (\<forall>q. user_seeded ids q (fst st1) \<longrightarrow> user_seeded ids q (fst st2))"
      using K seeding_step [OF s1] seeded_grows(6) by blast
  qed (use assms(2) seeding_refl in simp)
  then show ?thesis by simp
qed

definition seeded :: "db \<Rightarrow> bool" where
  "seeded s =
     ((\<forall>p \<in> set PROGRAMS. program_seeded p s)
      \<and> (\<forall>pid \<in> snd ` set (program_codes s). system_seeded (pid, TRANSFER_CLEARING) s \<and> system_seeded (pid, PARTNER_SETTLEMENT) s)
      \<and> (\<forall>r \<in> set RATES. rate_seeded (program_codes s) r s) \<and> (\<forall>b \<in> set BONUSES. bonus_seeded (program_codes s) b s)
      \<and> (\<forall>u \<in> set USERS. user_seeded (program_codes s) u s))"

lemma seed_run:
  assumes "seed dbnow wall now s = Inr (rep, s')" "seed_inv s"
  shows "seed_inv s' \<and> seeded s'"
proof -
  from assms(1) obtain ids st1 settlements st2 m st3 st4 st5 where
    run: "seed_programs dbnow (s, new_seed_report) = Inr (ids, st1)" "seed_system_accounts dbnow ids st1 = Inr (settlements, st2)"
      "seed_rates dbnow ids m st2 = Inr st3" "seed_bonuses dbnow ids m st3 = Inr st4"
      "foldE (seed_user dbnow ids settlements) USERS st4 = Inr st5" and s': "s' = fst st5"
    by (auto simp: seed_def Let_def bindE_Inr_iff)
  note 1 = seed_programs_run [OF run(1) assms(2)]
  note 2 = seed_system_accounts_run [OF run(2) conjunct1 [OF 1]]
  then have inv2: "seed_inv (fst st2)" by (simp add: seeding_def)
  note 3 = seed_rates_run [OF run(3) inv2]
  then have inv3: "seed_inv (fst st3)" and g3: "grows (fst st2) (fst st3)" by (simp_all add: seeding_def)
  note 4 = seed_bonuses_run [OF run(4) inv3]
  then have inv4: "seed_inv (fst st4)" and g4: "grows (fst st3) (fst st4)" by (simp_all add: seeding_def)
  have "settled settlements (fst st4)"
    by (rule settled_grows [OF settled_grows [OF conjunct1 [OF conjunct2 [OF 2]] g3] g4])
  note 5 = seed_users_run [OF run(5) inv4 this]
  then have inv5: "seed_inv s'" and g5: "grows (fst st4) s'" by (simp_all add: seeding_def s')
  have "db_programs (fst st2) = db_programs (fst st1)" "db_programs (fst st3) = db_programs (fst st2)"
    "db_programs (fst st4) = db_programs (fst st3)" "db_programs s' = db_programs (fst st4)"
    using conjunct1 [OF 2] conjunct1 [OF 3] conjunct1 [OF 4] conjunct1 [OF 5] by (simp_all add: seeding_def s')
  then have codes: "program_codes s' = ids"
    using conjunct1 [OF conjunct2 [OF 1]] by (simp add: program_codes_def)
  have G3: "grows (fst st3) s'"
    by (rule grows_trans [OF g4 g5])
  have G2: "grows (fst st2) s'"
    by (rule grows_trans [OF g3 G3])
  have "grows (fst st1) (fst st2)"
    using 2 by (simp add: seeding_def)
  then have G1: "grows (fst st1) s'"
    using G2 by (rule grows_trans)
  note later = seeded_grows(1) [OF G1] seeded_grows(2) [OF G2] seeded_grows(3) [OF G3] seeded_grows(4) [OF g5]
  have "\<forall>p \<in> set PROGRAMS. program_seeded p s'"
    using 1 later(1) by simp
  moreover have "\<forall>pid \<in> snd ` set ids. system_seeded (pid, TRANSFER_CLEARING) s' \<and> system_seeded (pid, PARTNER_SETTLEMENT) s'"
    using 2 later(2) by simp
  moreover have "(\<forall>r \<in> set RATES. rate_seeded ids r s') \<and> (\<forall>b \<in> set BONUSES. bonus_seeded ids b s')"
    using 3 4 later(3,4) by simp
  moreover have "\<forall>u \<in> set USERS. user_seeded ids u s'"
    using 5 by (simp add: s')
  ultimately show ?thesis
    using inv5 by (simp add: seeded_def codes)
qed

section \<open>A second run\<close>

text \<open>The same rows in every table; only identity values may have been drawn.\<close>

definition same_tables :: "db \<Rightarrow> db \<Rightarrow> bool" where
  "same_tables s s' = (\<exists>m n. s' = s\<lparr>db_next_program_id := m, db_next_account_id := n\<rparr>)"

lemma same_tables_refl [simp]: "same_tables s s"
  unfolding same_tables_def by (intro exI [of _ "db_next_program_id s"] exI [of _ "db_next_account_id s"]) simp

lemma same_tablesD:
  assumes "same_tables s s'"
  shows "db_programs s' = db_programs s" "db_users s' = db_users s" "db_rates s' = db_rates s" "db_bonuses s' = db_bonuses s"
    "db_accounts s' = db_accounts s" "db_entries s' = db_entries s"
    "same_tables s (s'\<lparr>db_next_program_id := i\<rparr>)" "same_tables s (s'\<lparr>db_next_account_id := j\<rparr>)"
proof -
  from assms obtain m n where s': "s' = s\<lparr>db_next_program_id := m, db_next_account_id := n\<rparr>"
    by (auto simp: same_tables_def)
  show "same_tables s (s'\<lparr>db_next_program_id := i\<rparr>)" "same_tables s (s'\<lparr>db_next_account_id := j\<rparr>)"
    unfolding same_tables_def by (intro exI [of _ i] exI [of _ n], simp add: s')
      (intro exI [of _ m] exI [of _ j], simp add: s')
qed (use assms in \<open>auto simp: same_tables_def\<close>)

definition unchanged :: "db \<Rightarrow> seed_report \<Rightarrow> db \<times> seed_report \<Rightarrow> bool" where
  "unchanged s rep st = (same_tables s (fst st) \<and> snd st = rep)"

lemma foldE_idle:
  assumes "\<And>x st. x \<in> set xs \<Longrightarrow> unchanged s rep st \<Longrightarrow> \<exists>st'. f x st = Inr st' \<and> unchanged s rep st'" "unchanged s rep st"
  shows "\<exists>st'. foldE f xs st = Inr st' \<and> unchanged s rep st'"
  using assms
proof (induction xs arbitrary: st)
  case (Cons x xs)
  have "\<exists>st1. f x st = Inr st1 \<and> unchanged s rep st1"
    by (rule Cons.prems(1) [OF _ Cons.prems(2)]) simp
  then obtain st1 where st1: "f x st = Inr st1" "unchanged s rep st1" by blast
  from Cons.IH [OF Cons.prems(1) st1(2)] show ?case
    using st1(1) by auto
qed simp

lemma seed_data_valid:
  "list_all (\<lambda>p. length (pd_code p) \<le> 50 \<and> length (pd_name p) \<le> 200 \<and> length (pd_partner_code p) \<le> 50
     \<and> program_code_format (pd_code p)) PROGRAMS"
  "list_all (\<lambda>u. length (ud_user_id u) \<le> 64 \<and> user_id_format (ud_user_id u)
     \<and> list_all (\<lambda>(code, n, member). length member \<le> 100) (ud_accounts u)) USERS"
  by code_simp+

lemma seed_program_idle:
  assumes "p \<in> set PROGRAMS" "program_seeded p s" "unchanged s rep st"
  shows "\<exists>st'. seed_program dbnow p st = Inr st' \<and> unchanged s rep st'"
proof -
  have ok: "length (pd_code p) \<le> 50 \<and> length (pd_name p) \<le> 200 \<and> length (pd_partner_code p) \<le> 50 \<and> program_code_format (pd_code p)"
    using seed_data_valid(1) assms(1) by (auto simp: list_all_iff)
  have "list_ex (\<lambda>q. prg_code q = pd_code p) (db_programs (fst st))"
    using assms(2,3) same_tablesD(1) [of s "fst st"] by (auto simp: program_seeded_def unchanged_def list_ex_iff)
  then show ?thesis
    using ok assms(3) same_tablesD(7)
    by (simp add: seed_program_def insert_program_def Let_def ranged_def checked_def count_if_def unchanged_def)
qed

lemma seed_system_account_idle:
  assumes "system_seeded row s" "snd row \<noteq> USER_BALANCE" "unchanged s rep st"
  shows "\<exists>st'. seed_system_account dbnow row st = Inr st' \<and> unchanged s rep st'"
proof -
  have "list_ex (same_system_account \<lparr>acc_id = db_next_account_id (fst st), acc_owner_type = SYSTEM, acc_user_id = None,
      acc_program_id = fst row, acc_account_type = snd row, acc_external_member_id = None, acc_balance = 0,
      acc_created_at = dbnow, acc_updated_at = dbnow\<rparr>) (db_accounts (fst st))"
    using assms(1,3) same_tablesD(5) [of s "fst st"] by (auto simp: system_seeded_def unchanged_def list_ex_iff same_system_account_def)
  then show ?thesis
    using assms(2,3) same_tablesD(8)
    by (simp add: seed_system_account_def insert_account_def Let_def ranged_def checked_def count_if_def unchanged_def fits_def
        account_checks_def owner_consistent_def)
qed

lemma settlement_ids_total:
  "snd ` set ids \<subseteq> fst ` set accounts \<Longrightarrow> \<exists>out. settlement_ids accounts ids = Inr out"
proof (induction ids)
  case (Cons c ids)
  obtain code pid where c: "c = (code, pid)" by (cases c)
  with Cons.prems have "map_of accounts pid \<noteq> None"
    by (simp add: map_of_eq_None_iff)
  then show ?case using Cons c by auto
qed simp

lemma seed_user_idle:
  assumes "u \<in> set USERS" "user_seeded ids u s" "unchanged s rep st"
  shows "\<exists>st'. seed_user dbnow ids settlements u st = Inr st' \<and> unchanged s rep st'"
proof -
  have ok: "length (ud_user_id u) \<le> 64" "user_id_format (ud_user_id u)"
    "\<forall>row \<in> set (ud_accounts u). length (snd (snd row)) \<le> 100"
    using seed_data_valid(2) assms(1) by (fastforce simp: list_all_iff)+
  have "insert_user dbnow (ud_user_id u) (fst st) = Inr (None, fst st)"
    using ok(1,2) assms(2,3) same_tablesD(2) [of s "fst st"]
    by (auto simp: insert_user_def ranged_def checked_def user_seeded_def unchanged_def list_ex_iff)
  moreover have "\<exists>st'. foldE (seed_user_account dbnow ids settlements (ud_user_id u)) (ud_accounts u) st = Inr st' \<and> unchanged s rep st'"
  proof (rule foldE_idle [OF _ assms(3)])
    fix row st1 assume row: "row \<in> set (ud_accounts u)" and st1: "unchanged s rep st1"
    obtain code n member where r: "row = (code, n, member)" by (cases row)
    from assms(2) row obtain pid a where pid: "map_of ids code = Some pid"
      and a: "a \<in> set (db_accounts s)" "acc_user_id a = Some (ud_user_id u)" "acc_program_id a = pid"
      by (auto simp: user_seeded_def account_seeded_def r)
    have "list_ex (same_user_program \<lparr>acc_id = db_next_account_id (fst st1), acc_owner_type = USER, acc_user_id = Some (ud_user_id u),
        acc_program_id = pid, acc_account_type = USER_BALANCE, acc_external_member_id = Some member, acc_balance = 0,
        acc_created_at = dbnow, acc_updated_at = dbnow\<rparr>) (db_accounts (fst st1))"
      using a st1 same_tablesD(5) [of s "fst st1"]
      by (auto simp: unchanged_def list_ex_iff same_user_program_def intro!: bexI [of _ a])
    then show "\<exists>st'. seed_user_account dbnow ids settlements (ud_user_id u) row st1 = Inr st' \<and> unchanged s rep st'"
      using pid ok(3) row st1 same_tablesD(8)
      by (force simp: seed_user_account_def r insert_account_def Let_def ranged_def checked_def unchanged_def fits_def
          account_checks_def owner_consistent_def)
  qed
  moreover have "(fst st, count_if ''users'' (None :: string option) (snd st)) = st"
    by (simp add: count_if_def)
  ultimately show ?thesis
    by (simp add: seed_user_def)
qed

lemma new_rates_none: "\<forall>r \<in> set rs. rate_seeded ids r s \<Longrightarrow> new_rates ids (rate_routes s) dbnow now rs = Inr []"
  by (induction rs) (auto simp: rate_seeded_def)

lemma new_bonuses_none: "\<forall>b \<in> set bs. bonus_seeded ids b s \<Longrightarrow> new_bonuses ids (bonus_routes s) dbnow now bs = Inr []"
  by (induction bs) (auto simp: bonus_seeded_def)

lemma seed_rates_idle:
  assumes "seeded s" "unchanged s rep st"
  shows "seed_rates dbnow (program_codes s) now st = Inr st" "seed_bonuses dbnow (program_codes s) now st = Inr st"
proof -
  have r: "rate_routes (fst st) = rate_routes s" "bonus_routes (fst st) = bonus_routes s"
    using assms(2) same_tablesD(3,4) [of s "fst st"] by (simp_all add: unchanged_def rate_routes_def bonus_routes_def)
  show "seed_rates dbnow (program_codes s) now st = Inr st" "seed_bonuses dbnow (program_codes s) now st = Inr st"
    using assms(1) new_rates_none [of RATES "program_codes s" s] new_bonuses_none [of BONUSES "program_codes s" s]
    by (simp_all add: seed_rates_def seed_bonuses_def r seeded_def count_all_def)
qed

lemma seed_idle:
  assumes "seeded s"
  shows "\<exists>s'. seed dbnow wall now s = Inr (new_seed_report, s') \<and> same_tables s s'"
proof -
  let ?ids = "program_codes s" and ?rep = new_seed_report
  have 0: "unchanged s ?rep (s, ?rep)" by (simp add: unchanged_def)
  have "\<exists>st'. foldE (seed_program dbnow) PROGRAMS (s, ?rep) = Inr st' \<and> unchanged s ?rep st'"
    using assms seed_program_idle by (intro foldE_idle [OF _ 0]) (auto simp: seeded_def)
  then obtain st1 where st1: "foldE (seed_program dbnow) PROGRAMS (s, ?rep) = Inr st1" "unchanged s ?rep st1" by blast
  have ids: "program_codes (fst st1) = ?ids"
    using st1(2) same_tablesD(1) [of s "fst st1"] by (simp add: unchanged_def program_codes_def)
  let ?rows = "concat (map (\<lambda>(code, pid). [(pid, TRANSFER_CLEARING), (pid, PARTNER_SETTLEMENT)]) ?ids)"
  have "\<exists>st'. foldE (seed_system_account dbnow) ?rows st1 = Inr st' \<and> unchanged s ?rep st'"
    using assms seed_system_account_idle by (intro foldE_idle [OF _ st1(2)]) (fastforce simp: seeded_def)
  then obtain st2 where st2: "foldE (seed_system_account dbnow) ?rows st1 = Inr st2" "unchanged s ?rep st2" by blast
  have "snd ` set ?ids \<subseteq> fst ` set (settlement_accounts (fst st2))"
  proof
    fix pid assume "pid \<in> snd ` set ?ids"
    with assms have "system_seeded (pid, PARTNER_SETTLEMENT) s" unfolding seeded_def by blast
    then show "pid \<in> fst ` set (settlement_accounts (fst st2))"
      using st2(2) same_tablesD(5) [of s "fst st2"] by (force simp: system_seeded_def settlement_accounts_def unchanged_def)
  qed
  then obtain settlements where sets: "settlement_ids (settlement_accounts (fst st2)) ?ids = Inr settlements"
    using settlement_ids_total by blast
  have "\<exists>st'. foldE (seed_user dbnow ?ids settlements) USERS st2 = Inr st' \<and> unchanged s ?rep st'"
    using assms seed_user_idle by (intro foldE_idle [OF _ st2(2)]) (auto simp: seeded_def)
  then show ?thesis
    using st1(1) st2 ids sets seed_rates_idle [OF assms st2(2)]
    by (auto simp: seed_def seed_programs_def seed_system_accounts_def Let_def unchanged_def)
qed

section \<open>Property\<close>

text \<open>
  C18: the seed prepares the engine and is idempotent. If it commits on a database that satisfies the engine's
  invariant (the empty one does), the invariant holds again, so all opening balances are in the ledger; and
  any later run on the result commits, reports that it created nothing, and leaves every table as it is (only
  identity values are drawn).
\<close>

theorem seed_prepares_and_is_idempotent:
  assumes "saga_ok s" "\<forall>t \<in> set (db_transfers s). \<exists>a \<in> set (db_accounts s).
      acc_account_type a = TRANSFER_CLEARING \<and> acc_program_id a = tr_source_program_id t"
    and "unit_of_work (seed dbnow wall now) s = (Inr report, s')"
  shows "saga_ok s' \<and> (\<exists>m n. unit_of_work (seed dbnow' wall' now') s' =
    (Inr new_seed_report, s'\<lparr>db_next_program_id := m, db_next_account_id := n\<rparr>))"
proof -
  have "seed dbnow wall now s = Inr (report, s')"
    using assms(3) by (simp add: unit_of_work_Inr_iff)
  moreover have "seed_inv s"
    using assms(1,2) by (simp add: seed_inv_def clearing_present_def)
  ultimately have "seed_inv s'" "seeded s'"
    using seed_run by blast+
  from seed_idle [OF this(2), of dbnow' wall' now'] obtain m n where
    "seed dbnow' wall' now' s' = Inr (new_seed_report, s'\<lparr>db_next_program_id := m, db_next_account_id := n\<rparr>)"
    by (auto simp: same_tables_def)
  then have "unit_of_work (seed dbnow' wall' now') s' = (Inr new_seed_report, s'\<lparr>db_next_program_id := m, db_next_account_id := n\<rparr>)"
    by (simp add: unit_of_work_Inr_iff commit_checks_def)
  then show ?thesis
    using \<open>seed_inv s'\<close> by (auto simp: seed_inv_def)
qed

lemma empty_db_ok: "saga_ok empty_db" "db_transfers empty_db = []"
  by code_simp+

lemma first_seed:
  "case unit_of_work (seed 5 7 None) empty_db of
     (Inl e, s') \<Rightarrow> False
   | (Inr report, s') \<Rightarrow> report = [(''programs'', 5), (''system_accounts'', 10), (''rates'', 6), (''bonuses'', 1), (''users'', 2),
       (''user_accounts'', 10)] \<and> length (db_journals s') = 10"
  by code_simp

theorem seed_prepares_and_is_idempotent_witness:
  "\<exists>report s1 s2. unit_of_work (seed 5 7 None) empty_db = (Inr report, s1) \<and> saga_ok s1 \<and> length (db_journals s1) = 10
     \<and> unit_of_work (seed 8 9 None) s1 = (Inr new_seed_report, s2) \<and> db_accounts s2 = db_accounts s1"
proof -
  from first_seed obtain report s1 where run: "unit_of_work (seed 5 7 None) empty_db = (Inr report, s1)"
    and journals: "length (db_journals s1) = 10"
    by (auto split: prod.splits sum.splits)
  have none: "\<forall>t \<in> set (db_transfers empty_db). \<exists>a \<in> set (db_accounts empty_db).
      acc_account_type a = TRANSFER_CLEARING \<and> acc_program_id a = tr_source_program_id t"
    by (simp add: empty_db_ok(2))
  from seed_prepares_and_is_idempotent [OF empty_db_ok(1) none run, of 8 9 None] obtain m n where
    "saga_ok s1" "unit_of_work (seed 8 9 None) s1 = (Inr new_seed_report, s1\<lparr>db_next_program_id := m, db_next_account_id := n\<rparr>)"
    by blast
  then show ?thesis
    using run journals by (intro exI [of _ report] exI [of _ s1] exI [of _ "s1\<lparr>db_next_program_id := m, db_next_account_id := n\<rparr>"]) simp
qed

end
