(* ===== verification/Ids.thy ===== *)
theory Ids
  imports Schema "HOL-Library.List_Lexorder" "HOL-Library.Char_ord"
begin

text \<open>
  Public identifiers, \<^verbatim>\<open>app/domain/ids.py\<close>: ULIDs of 26 Crockford base 32 characters over a 48-bit
  millisecond timestamp and 80 random bits. The clock reading and the random bits are arguments.
\<close>

unbundle bit_operations_syntax

definition CROCKFORD_BASE32 :: string where
  "CROCKFORD_BASE32 = ''0123456789ABCDEFGHJKMNPQRSTVWXYZ''"

definition TRANSFER_ID_PREFIX :: string where
  "TRANSFER_ID_PREFIX = ''tr_''"

text \<open>The loop: the characters in the order it appends them, least significant first.\<close>

fun ulid_chars :: "nat \<Rightarrow> int \<Rightarrow> string" where
  "ulid_chars 0 val = []"
| "ulid_chars (Suc n) val = CROCKFORD_BASE32 ! nat (val AND 31) # ulid_chars n (drop_bit 5 val)"

definition new_ulid :: "int \<Rightarrow> int \<Rightarrow> string result" where
  "new_ulid timestamp_ms randbits =
     bindE (raise_if (\<not> (0 \<le> timestamp_ms \<and> timestamp_ms < 2 ^ 48)) (ValueError ''timestamp_ms must fit in 48 bits'')) (\<lambda>_.
     Inr (rev (ulid_chars 26 (push_bit 80 timestamp_ms OR randbits))))"

definition new_transfer_id :: "int \<Rightarrow> int \<Rightarrow> string result" where
  "new_transfer_id timestamp_ms randbits =
     bindE (new_ulid timestamp_ms randbits) (\<lambda>u. Inr (TRANSFER_ID_PREFIX @ u))"

section \<open>Reading an identifier back\<close>

fun index_of :: "char \<Rightarrow> string \<Rightarrow> int" where
  "index_of c [] = 0"
| "index_of c (d # ds) = (if c = d then 0 else 1 + index_of c ds)"

text \<open>The number that characters stand for, least significant first.\<close>

fun chars_value :: "string \<Rightarrow> int" where
  "chars_value [] = 0"
| "chars_value (c # cs) = index_of c CROCKFORD_BASE32 + 32 * chars_value cs"

definition ulid_value :: "string \<Rightarrow> int" where
  "ulid_value u = chars_value (rev u)"

lemma and_31: "val AND 31 = val mod 32" for val :: int
  using take_bit_eq_mask [of 5 val] by (simp add: take_bit_eq_mod mask_eq_exp_minus_1)

lemma drop_5: "drop_bit 5 val = val div 32" for val :: int
  by (simp add: drop_bit_eq_div)

lemma digit_range: "nat (val mod 32) < 32" for val :: int
  by simp

lemma length_crockford: "length CROCKFORD_BASE32 = 32"
  by (simp add: CROCKFORD_BASE32_def)

lemma sorted_crockford: "sorted_wrt (<) CROCKFORD_BASE32"
  by (simp add: CROCKFORD_BASE32_def less_char_def)

lemma crockford_less: "i < j \<Longrightarrow> j < 32 \<Longrightarrow> CROCKFORD_BASE32 ! i < CROCKFORD_BASE32 ! j"
  using sorted_wrt_nth_less [OF sorted_crockford, of i j] by (simp add: length_crockford)

lemma crockford_format: "i < 32 \<Longrightarrow> is_crockford (CROCKFORD_BASE32 ! i)"
proof -
  have "list_all is_crockford CROCKFORD_BASE32" by code_simp
  then show "i < 32 \<Longrightarrow> ?thesis" by (simp add: list_all_length length_crockford)
qed

lemma index_of_nth: "distinct cs \<Longrightarrow> i < length cs \<Longrightarrow> index_of (cs ! i) cs = int i"
proof (induction cs arbitrary: i)
  case (Cons c cs)
  then show ?case by (cases i) auto
qed simp

lemma crockford_index: "i < 32 \<Longrightarrow> index_of (CROCKFORD_BASE32 ! i) CROCKFORD_BASE32 = int i"
  using strict_sorted_iff [of CROCKFORD_BASE32] sorted_crockford
  by (intro index_of_nth) (simp_all add: length_crockford)

section \<open>The encoding\<close>

lemma length_ulid_chars [simp]: "length (ulid_chars n val) = n"
  by (induction n arbitrary: val) auto

lemma ulid_chars_format: "list_all is_crockford (ulid_chars n val)"
  by (induction n arbitrary: val) (auto simp: and_31 crockford_format)

lemma ulid_chars_value: "0 \<le> val \<Longrightarrow> val < 32 ^ n \<Longrightarrow> chars_value (ulid_chars n val) = val"
proof (induction n arbitrary: val)
  case (Suc n)
  have "val div 32 < 32 ^ n" "0 \<le> val div 32"
    using Suc.prems by auto
  with Suc.IH show ?case
    by (simp add: and_31 drop_5 crockford_index [OF digit_range, of val, simplified] mult_div_mod_eq)
qed simp

lemma ulid_chars_mono:
  assumes "0 \<le> v" "v < v'" "v' < 32 ^ n"
  shows "rev (ulid_chars n v) < rev (ulid_chars n v')"
  using assms
proof (induction n arbitrary: v v')
  case (Suc n)
  let ?c = "\<lambda>v. CROCKFORD_BASE32 ! nat (v mod 32)"
  have eq: "rev (ulid_chars (Suc n) w) = rev (ulid_chars n (w div 32)) @ [?c w]" for w
    by (simp add: and_31 drop_5)
  show ?case
  proof (cases "v div 32 < v' div 32")
    case True
    then have "rev (ulid_chars n (v div 32)) < rev (ulid_chars n (v' div 32))"
      using Suc.prems by (intro Suc.IH) auto
    then show ?thesis
      unfolding eq list_less_def by (rule lexord_sufI) simp
  next
    case False
    moreover have "v div 32 \<le> v' div 32" using Suc.prems(2) by (simp add: zdiv_mono1)
    ultimately have same: "v div 32 = v' div 32" by simp
    then have "v mod 32 < v' mod 32"
      using Suc.prems(2) div_mult_mod_eq [of v 32] div_mult_mod_eq [of v' 32] by linarith
    then have "?c v < ?c v'"
      by (intro crockford_less) auto
    then show ?thesis
      unfolding eq same list_less_def by (simp add: lexord_same_pref_iff)
  qed
qed simp

lemma timestamp_or: "0 \<le> r \<Longrightarrow> r < 2 ^ 80 \<Longrightarrow> push_bit 80 ms OR r = ms * 2 ^ 80 + r" for ms r :: int
proof -
  assume r: "0 \<le> r" "r < 2 ^ 80"
  have "r = take_bit 80 r" using r by (simp add: take_bit_eq_mod)
  then have low: "bit r n \<Longrightarrow> n < 80" for n by (metis bit_take_bit_iff)
  have "push_bit 80 ms + r = push_bit 80 ms OR r"
    by (intro disjunctive_add) (auto simp: bit_push_bit_iff dest: low)
  then show ?thesis by (simp add: push_bit_eq_mult)
qed

text \<open>
  C37: transfer identifiers are well formed, carry their creation time and sort by it. For a timestamp of 48
  bits and 80 random bits the identifier matches the CHECK constraint of the transfers table, reading it back
  gives exactly the timestamp and the random bits, and an identifier of an earlier millisecond is smaller as
  text; a timestamp outside 48 bits raises ValueError.
\<close>

theorem transfer_ids_sort_by_time:
  assumes "0 \<le> r" "r < 2 ^ 80" "0 \<le> r'" "r' < 2 ^ 80"
  shows "if 0 \<le> ms \<and> ms < 2 ^ 48
    then \<exists>u. new_ulid ms r = Inr u \<and> new_transfer_id ms r = Inr (''tr_'' @ u) \<and> transfer_id_format (''tr_'' @ u)
      \<and> ulid_value u = ms * 2 ^ 80 + r
      \<and> (ms < ms' \<longrightarrow> (\<forall>v. new_transfer_id ms' r' = Inr v \<longrightarrow> ''tr_'' @ u < v))
    else \<exists>msg. new_transfer_id ms r = Inl (ValueError msg)"
proof (cases "0 \<le> ms \<and> ms < 2 ^ 48")
  case True
  let ?v = "ms * 2 ^ 80 + r"
  have fits: "0 \<le> m * 2 ^ 80 + x \<and> m * 2 ^ 80 + x < 32 ^ 26" if "0 \<le> m" "m < 2 ^ 48" "0 \<le> x" "x < 2 ^ 80" for m x :: int
    using that by simp
  have new: "new_ulid ms r = Inr (rev (ulid_chars 26 ?v))"
    using True assms by (simp add: new_ulid_def timestamp_or)
  have less: "''tr_'' @ rev (ulid_chars 26 ?v) < v" if "ms < ms'" "new_transfer_id ms' r' = Inr v" for v
  proof -
    from that(2) have ms': "0 \<le> ms'" "ms' < 2 ^ 48" and v: "v = ''tr_'' @ rev (ulid_chars 26 (ms' * 2 ^ 80 + r'))"
      using assms(3,4) by (auto simp: new_transfer_id_def new_ulid_def TRANSFER_ID_PREFIX_def timestamp_or result_simps)
    have "?v < ms' * 2 ^ 80 + r'"
      using that(1) assms by (simp add: add_strict_increasing)
    then have "rev (ulid_chars 26 ?v) < rev (ulid_chars 26 (ms' * 2 ^ 80 + r'))"
      using fits [of ms r] fits [OF ms' assms(3,4)] True assms by (intro ulid_chars_mono) auto
    then show ?thesis by (simp add: v list_less_def)
  qed
  have "transfer_id_format (''tr_'' @ rev (ulid_chars 26 ?v))"
    using ulid_chars_format [of 26 ?v] by (simp add: transfer_id_format_def list_all_rev)
  moreover have "ulid_value (rev (ulid_chars 26 ?v)) = ?v"
    using fits [of ms r] True assms by (simp add: ulid_value_def ulid_chars_value)
  moreover have "new_transfer_id ms r = Inr (''tr_'' @ rev (ulid_chars 26 ?v))"
    using new by (simp add: new_transfer_id_def TRANSFER_ID_PREFIX_def)
  ultimately show ?thesis
    using True new less by auto
next
  case False
  then have "new_transfer_id ms r = Inl (ValueError ''timestamp_ms must fit in 48 bits'')"
    by (simp add: new_transfer_id_def new_ulid_def)
  then show ?thesis
    unfolding if_not_P [OF False] by blast
qed

theorem transfer_ids_sort_by_time_witness:
  "new_transfer_id 1700000000000 7 = Inr ''tr_01HF7YAT000000000000000007''
   \<and> transfer_id_format ''tr_01HF7YAT000000000000000007'' \<and> new_transfer_id (2 ^ 48) 7 \<noteq> Inr []"
proof -
  have run: "new_transfer_id 1700000000000 7 = Inr ''tr_01HF7YAT000000000000000007''"
    by code_simp
  show ?thesis
    using transfer_ids_sort_by_time [of 7 7 1700000000000 0] transfer_ids_sort_by_time [of 7 7 "2 ^ 48" 0] run by auto
qed

end
