(* ===== verification/Fingerprint.thy ===== *)
theory Fingerprint
  imports Partner Schema "HOL-Library.Word" "HOL-Library.Multiset" "HOL-Library.List_Lexorder" "HOL-Library.Char_ord"
begin

text \<open>
  Request fingerprints, \<^verbatim>\<open>compute_fingerprint\<close> of \<^verbatim>\<open>app/services/idempotency.py\<close>, with what it uses of
  the standard library: \<^verbatim>\<open>json.dumps\<close> with sorted keys and without white space, the UTF-8 encoding, and
  SHA-256 on 32-bit words with wrap-around addition. Characters are code points below 256.
\<close>

unbundle bit_operations_syntax

section \<open>Canonical JSON\<close>

definition escape_char :: "char \<Rightarrow> string" where
  "escape_char c =
     (let n = (of_char c :: nat) in
      if c = CHR 0x22 then [CHR 0x5C, CHR 0x22]
      else if c = CHR 0x5C then [CHR 0x5C, CHR 0x5C]
      else if n = 10 then [CHR 0x5C, CHR ''n'']
      else if n = 13 then [CHR 0x5C, CHR ''r'']
      else if n = 9 then [CHR 0x5C, CHR ''t'']
      else if n = 12 then [CHR 0x5C, CHR ''f'']
      else if n = 8 then [CHR 0x5C, CHR ''b'']
      else if n < 32 then [CHR 0x5C, CHR ''u'', CHR ''0'', CHR ''0'', hex_digit (n div 16), hex_digit (n mod 16)]
      else [c])"

definition json_string :: "string \<Rightarrow> string" where
  "json_string s = CHR 0x22 # concat (map escape_char s) @ [CHR 0x22]"

text \<open>\<^verbatim>\<open>json.dumps(body, sort_keys=True, separators=(",", ":"), ensure_ascii=False)\<close>\<close>

fun json_dumps :: "json \<Rightarrow> string" where
  "json_dumps JNull = ''null''"
| "json_dumps (JBool b) = (if b then ''true'' else ''false'')"
| "json_dumps (JInt i) = show_int i"
| "json_dumps (JStr s) = json_string s"
| "json_dumps (JArr xs) = ''['' @ join '','' (map json_dumps xs) @ '']''"
| "json_dumps (JObj kvs) =
     ''{'' @ join '','' (map (\<lambda>(k, text). json_string k @ '':'' @ text)
       (sort_key fst (map (\<lambda>(k, v). (k, json_dumps v)) kvs))) @ ''}''"

section \<open>SHA-256\<close>

definition utf8 :: "string \<Rightarrow> 8 word list" where
  "utf8 s = concat (map (\<lambda>c. let n = (of_char c :: nat) in
     if n < 128 then [of_nat n] else [of_nat (192 + n div 64), of_nat (128 + n mod 64)]) s)"

text \<open>
  The constants of the standard: the first 32 bits of the fractional parts of the cube roots of the first 64
  primes, and of the square roots of the first 8. \<open>iroot k n\<close> is the integer part of the \<open>k\<close>-th root, bit by bit.
\<close>

definition iroot :: "nat \<Rightarrow> nat \<Rightarrow> nat" where
  "iroot k n = fold (\<lambda>i r. if (r + 2 ^ i) ^ k \<le> n then r + 2 ^ i else r) (rev [0..<40]) 0"

definition sha_primes :: "nat list" where
  "sha_primes =
    [2, 3, 5, 7, 11, 13, 17, 19, 23, 29, 31, 37, 41, 43, 47, 53, 59, 61, 67, 71, 73, 79,
     83, 89, 97, 101, 103, 107, 109, 113, 127, 131, 137, 139, 149, 151, 157, 163, 167, 173, 179, 181, 191, 193,
     197, 199, 211, 223, 227, 229, 233, 239, 241, 251, 257, 263, 269, 271, 277, 281, 283, 293, 307, 311]"

definition sha_k :: "32 word list" where
  "sha_k = map (\<lambda>p. of_nat (iroot 3 (p * 2 ^ 96))) sha_primes"

definition sha_h :: "32 word list" where
  "sha_h = map (\<lambda>p. of_nat (iroot 2 (p * 2 ^ 64))) (take 8 sha_primes)"

definition rotr :: "nat \<Rightarrow> 32 word \<Rightarrow> 32 word" where
  "rotr n x = (drop_bit n x OR push_bit (32 - n) x)"

text \<open>Padding: a one bit, zeros to 56 bytes modulo 64, and the length in bits as 8 bytes.\<close>

definition sha_pad :: "8 word list \<Rightarrow> 8 word list" where
  "sha_pad bs =
     (let n = length bs in
      bs @ [0x80] @ replicate ((119 - n mod 64) mod 64) 0
      @ map (\<lambda>i. of_nat ((8 * n) div 256 ^ (7 - i))) [0..<8])"

fun word_of_bytes :: "8 word list \<Rightarrow> 32 word" where
  "word_of_bytes bs = fold (\<lambda>b acc. push_bit 8 acc OR ucast b) bs 0"

definition sha_schedule :: "8 word list \<Rightarrow> 32 word list" where
  "sha_schedule block =
     fold (\<lambda>t ws.
         let a = ws ! (t - 15); b = ws ! (t - 2);
             s0 = rotr 7 a XOR rotr 18 a XOR drop_bit 3 a;
             s1 = rotr 17 b XOR rotr 19 b XOR drop_bit 10 b
         in ws @ [ws ! (t - 16) + s0 + ws ! (t - 7) + s1])
       [16..<64] (map (\<lambda>i. word_of_bytes (take 4 (drop (4 * i) block))) [0..<16])"

definition sha_round :: "32 word \<times> 32 word \<Rightarrow> 32 word list \<Rightarrow> 32 word list" where
  "sha_round kw st =
     (case (kw, st) of
        ((k, w), [a, b, c, d, e, f, g, h]) \<Rightarrow>
          let s1 = rotr 6 e XOR rotr 11 e XOR rotr 25 e;
              ch = (e AND f) XOR (NOT e AND g);
              t1 = h + s1 + ch + k + w;
              s0 = rotr 2 a XOR rotr 13 a XOR rotr 22 a;
              maj = (a AND b) XOR (a AND c) XOR (b AND c)
          in [t1 + (s0 + maj), a, b, c, d + t1, e, f, g]
      | _ \<Rightarrow> st)"

definition sha_block :: "8 word list \<Rightarrow> 32 word list \<Rightarrow> 32 word list" where
  "sha_block block h = map2 (+) h (fold sha_round (zip sha_k (sha_schedule block)) h)"

definition sha256 :: "8 word list \<Rightarrow> 32 word list" where
  "sha256 bs =
     (let padded = sha_pad bs in
      fold (\<lambda>i. sha_block (take 64 (drop (64 * i) padded))) [0..<length padded div 64] sha_h)"

definition hex_word :: "32 word \<Rightarrow> string" where
  "hex_word w = map (\<lambda>i. hex_digit (unat (drop_bit (28 - 4 * i) w AND 15))) [0..<8]"

definition sha256_hexdigest :: "string \<Rightarrow> string" where
  "sha256_hexdigest s = concat (map hex_word (sha256 (utf8 s)))"

section \<open>The fingerprint\<close>

definition upper_char :: "char \<Rightarrow> char" where
  "upper_char c = (if is_lower c then char_of (of_char c - 32 :: nat) else c)"

text \<open>\<^verbatim>\<open>str.upper\<close> on ASCII text.\<close>

definition upper :: "string \<Rightarrow> string" where
  "upper s = map upper_char s"

text \<open>The text that is hashed, and its digest.\<close>

definition fingerprint_text :: "string \<Rightarrow> string \<Rightarrow> json \<Rightarrow> string" where
  "fingerprint_text method path body = upper method @ [CHR 0x0A] @ path @ [CHR 0x0A] @ json_dumps body"

definition compute_fingerprint :: "string \<Rightarrow> string \<Rightarrow> json \<Rightarrow> string" where
  "compute_fingerprint method path body = sha256_hexdigest (fingerprint_text method path body)"

section \<open>Facts\<close>

lemma length_sha_round [simp]: "length (sha_round kw st) = length st"
  by (auto simp: sha_round_def Let_def split: list.splits prod.splits)

lemma length_fold_rounds: "length (fold sha_round kws st) = length st"
  by (induction kws arbitrary: st) auto

lemma length_sha_block [simp]: "length (sha_block block h) = length h"
  by (simp add: sha_block_def length_fold_rounds)

lemma length_fold_blocks: "length (fold (\<lambda>i. sha_block (f i)) is h) = length h"
  by (induction "is" arbitrary: h) auto

lemma length_sha256 [simp]: "length (sha256 bs) = 8"
  by (simp add: sha256_def Let_def length_fold_blocks) (simp add: sha_h_def sha_primes_def)

lemma hex_digit_format: "d < 16 \<Longrightarrow> is_digit (hex_digit d) \<or> in_range CHR ''a'' CHR ''f'' (hex_digit d)"
proof -
  have "list_all (\<lambda>d. is_digit (hex_digit d) \<or> in_range CHR ''a'' CHR ''f'' (hex_digit d)) [0..<16]"
    by code_simp
  then show "d < 16 \<Longrightarrow> ?thesis" by (simp add: list_all_iff)
qed

lemma nibble: "unat (w AND 15) < 16" for w :: "32 word"
  using word_and_le1 [of w 15] by (simp add: word_le_nat_alt)

lemma hex_word_format:
  "length (hex_word w) = 8" "list_all (\<lambda>c. is_digit c \<or> in_range CHR ''a'' CHR ''f'' c) (hex_word w)"
  unfolding hex_word_def list_all_iff using hex_digit_format [OF nibble] by auto

lemma fingerprint_is_hex: "fingerprint_format (sha256_hexdigest s)"
proof -
  have "length (concat (map hex_word ws)) = 8 * length ws" for ws
    by (induction ws) (simp_all add: hex_word_format(1))
  then have "length (sha256_hexdigest s) = 64"
    by (simp add: sha256_hexdigest_def)
  moreover have "list_all (\<lambda>c. is_digit c \<or> in_range CHR ''a'' CHR ''f'' c) (concat (map hex_word ws))" for ws
    using hex_word_format(2) by (induction ws) auto
  ultimately show ?thesis
    by (simp add: fingerprint_format_def sha256_hexdigest_def)
qed

section \<open>The canonical text\<close>

text \<open>Two orders of the same members print alike.\<close>

lemma json_dumps_order:
  assumes "distinct (map fst kvs)" "mset kvs = mset kvs'"
  shows "json_dumps (JObj kvs) = json_dumps (JObj kvs')"
proof -
  let ?f = "\<lambda>(k, v). (k, json_dumps v)"
  have "mset (map ?f kvs) = mset (sort_key fst (map ?f kvs'))"
    using assms(2) by simp
  moreover have "inj_on fst (set (map ?f kvs))"
    using assms(1) by (fastforce simp: inj_on_def distinct_map)
  ultimately have "sort_key fst (map ?f kvs) = sort_key fst (map ?f kvs')"
    by (rule sort_key_inj_key_eq) simp
  then show ?thesis by simp
qed

text \<open>Digits read back.\<close>

definition read_nat :: "string \<Rightarrow> nat" where
  "read_nat s = foldl (\<lambda>acc c. 10 * acc + (of_char c - 48)) 0 s"

lemma digit_read [simp]: "d < 10 \<Longrightarrow> of_char (digit_char d) - 48 = d"
  by (simp add: digit_char_def)

lemma read_show_nat [simp]: "read_nat (show_nat n) = n"
proof (induction n rule: show_nat.induct)
  case (1 n)
  then show ?case
    by (subst show_nat.simps) (auto simp: read_nat_def)
qed

lemma show_nat_digits: "c \<in> set (show_nat n) \<Longrightarrow> is_digit c"
proof (induction n rule: show_nat.induct)
  case (1 n)
  have "d < 10 \<Longrightarrow> is_digit (digit_char d)" for d
    by (simp add: is_digit_def in_range_def digit_char_def)
  with 1 show ?case
    by (subst (asm) show_nat.simps) (auto split: if_splits)
qed

lemma show_nat_inj [simp]: "show_nat m = show_nat n \<longleftrightarrow> m = n"
  using read_show_nat by metis

text \<open>The validated body of a transfer request, as \<^verbatim>\<open>model_dump\<close> gives it.\<close>

definition transfer_body :: "string \<Rightarrow> string \<Rightarrow> int \<Rightarrow> json" where
  "transfer_body source destination points =
     JObj [(''source_program'', JStr source), (''destination_program'', JStr destination), (''source_points'', JInt points)]"

lemma transfer_body_text:
  "json_dumps (transfer_body source destination points) =
     ''{'' @ json_string ''destination_program'' @ '':'' @ json_string destination
     @ '','' @ json_string ''source_points'' @ '':'' @ show_int points
     @ '','' @ json_string ''source_program'' @ '':'' @ json_string source @ ''}''"
proof -
  have "sort_key fst [(''source_program'', a), (''destination_program'', b), (''source_points'', c)]
      = [(''destination_program'', b), (''source_points'', c), (''source_program'', a)]" for a b c :: string
    by (simp add: less_char_def less_eq_char_def less_list_code less_eq_list_code insort_key.simps)
  then show ?thesis
    by (simp add: transfer_body_def)
qed

text \<open>Program codes need no escapes.\<close>

lemma code_plain:
  assumes "program_code_format s"
  shows "concat (map escape_char s) = s" "CHR 0x22 \<notin> set s"
proof -
  have plain: "is_upper c \<or> is_digit c \<or> c = CHR ''_''" if "c \<in> set s" for c
    using assms that by (auto simp: program_code_format_def list_all_iff split: list.splits)
  have esc: "escape_char c = [c] \<and> c \<noteq> CHR 0x22" if "is_upper c \<or> is_digit c \<or> c = CHR ''_''" for c
    using that by (auto simp: escape_char_def Let_def is_upper_def is_digit_def in_range_def)
  have "(\<And>c. c \<in> set s \<Longrightarrow> escape_char c = [c]) \<Longrightarrow> concat (map escape_char s) = s"
    by (induction s) auto
  then show "concat (map escape_char s) = s"
    using plain esc by blast
  show "CHR 0x22 \<notin> set s"
    using plain esc by blast
qed

lemma split_at_mark:
  "x \<notin> set xs \<Longrightarrow> x \<notin> set xs' \<Longrightarrow> xs @ x # ys = xs' @ x # ys' \<longleftrightarrow> xs = xs' \<and> ys = ys'"
proof (induction xs arbitrary: xs')
  case Nil
  then show ?case by (cases xs') auto
next
  case (Cons a xs)
  then show ?case by (cases xs') auto
qed

lemma transfer_body_shape:
  "\<exists>A B C. \<forall>a b n. program_code_format a \<longrightarrow> program_code_format b \<longrightarrow>
     json_dumps (transfer_body a b n) = A @ b @ CHR 0x22 # B @ show_int n @ CHR '','' # C @ a @ [CHR 0x22, CHR ''}'']"
  by (intro exI [of _ "''{'' @ json_string ''destination_program'' @ '':'' @ [CHR 0x22]"]
      exI [of _ "'','' @ json_string ''source_points'' @ '':''"] exI [of _ "json_string ''source_program'' @ '':'' @ [CHR 0x22]"])
    (simp add: transfer_body_text json_string_def code_plain)

lemma transfer_text_inj:
  assumes "program_code_format a" "program_code_format b" "program_code_format a'" "program_code_format b'" "0 \<le> n" "0 \<le> n'"
  shows "json_dumps (transfer_body a b n) = json_dumps (transfer_body a' b' n') \<longleftrightarrow> a = a' \<and> b = b' \<and> n = n'"
proof -
  from transfer_body_shape obtain A B C where shape: "\<forall>a b n. program_code_format a \<longrightarrow> program_code_format b \<longrightarrow>
      json_dumps (transfer_body a b n) = A @ b @ CHR 0x22 # B @ show_int n @ CHR '','' # C @ a @ [CHR 0x22, CHR ''}'']"
    by (elim exE)
  have comma: "CHR '','' \<notin> set (show_int m)" if "0 \<le> m" for m
    using that show_nat_digits [of "CHR '',''" "nat m"] by (auto simp: show_int_def is_digit_def in_range_def)
  show ?thesis
    using assms comma [of n] comma [of n'] code_plain(2) [of b] code_plain(2) [of b']
    by (auto simp: shape split_at_mark show_int_def)
qed

lemma upper_newline: "CHR 0x0A \<notin> set m \<Longrightarrow> CHR 0x0A \<notin> set (upper m)"
proof -
  have "upper_char c \<noteq> CHR 0x0A" if "c \<noteq> CHR 0x0A" for c
  proof (cases "is_lower c")
    case True
    then have "97 \<le> (of_char c :: nat)" "(of_char c :: nat) \<le> 122"
      by (simp_all add: is_lower_def in_range_def)
    then have "65 \<le> (of_char c - 32 :: nat)" "(of_char c - 32 :: nat) < 256"
      by linarith+
    then have "of_char (upper_char c) \<ge> (65::nat)"
      using True by (simp add: upper_char_def)
    then show ?thesis by auto
  qed (use that in \<open>simp add: upper_char_def\<close>)
  then show "CHR 0x0A \<notin> set m \<Longrightarrow> CHR 0x0A \<notin> set (upper m)"
    unfolding upper_def by (induction m) force+
qed

text \<open>
  C36: the fingerprint is canonical and well formed. It is the SHA-256 of a text, and always satisfies the CHECK
  constraint of its column; the order of the members of a body does not matter, nor the case of the method; and
  the text determines the method (in upper case), the path (neither with a line break) and the transfer request
  of the body, so two different requests share a fingerprint only if SHA-256 collides on their texts.
\<close>

theorem fingerprint_canonical:
  shows "compute_fingerprint method path body = sha256_hexdigest (fingerprint_text method path body)
    \<and> fingerprint_format (compute_fingerprint method path body)
    \<and> (distinct (map fst kvs) \<and> mset kvs = mset kvs' \<and> upper method = upper method' \<longrightarrow>
        compute_fingerprint method path (JObj kvs) = compute_fingerprint method' path (JObj kvs'))
    \<and> (CHR 0x0A \<notin> set method \<and> CHR 0x0A \<notin> set method' \<and> CHR 0x0A \<notin> set path \<and> CHR 0x0A \<notin> set path'
        \<and> program_code_format a \<and> program_code_format b \<and> program_code_format a' \<and> program_code_format b' \<and> 0 \<le> n \<and> 0 \<le> n' \<longrightarrow>
        (fingerprint_text method path (transfer_body a b n) = fingerprint_text method' path' (transfer_body a' b' n')
          \<longleftrightarrow> upper method = upper method' \<and> path = path' \<and> a = a' \<and> b = b' \<and> n = n'))"
proof (intro conjI impI; (elim conjE)?)
  show "compute_fingerprint method path body = sha256_hexdigest (fingerprint_text method path body)"
    by (simp add: compute_fingerprint_def)
  show "fingerprint_format (compute_fingerprint method path body)"
    by (simp add: compute_fingerprint_def fingerprint_is_hex)
  show "compute_fingerprint method path (JObj kvs) = compute_fingerprint method' path (JObj kvs')"
    if "distinct (map fst kvs)" "mset kvs = mset kvs'" "upper method = upper method'"
    using json_dumps_order that by (simp add: compute_fingerprint_def fingerprint_text_def del: json_dumps.simps)
  show "fingerprint_text method path (transfer_body a b n) = fingerprint_text method' path' (transfer_body a' b' n')
      \<longleftrightarrow> upper method = upper method' \<and> path = path' \<and> a = a' \<and> b = b' \<and> n = n'"
    if "CHR 0x0A \<notin> set method" "CHR 0x0A \<notin> set method'" "CHR 0x0A \<notin> set path" "CHR 0x0A \<notin> set path'"
      "program_code_format a" "program_code_format b" "program_code_format a'" "program_code_format b'" "0 \<le> n" "0 \<le> n'"
    using transfer_text_inj [OF that(5-10)] that(3,4) upper_newline [OF that(1)] upper_newline [OF that(2)]
    by (simp add: fingerprint_text_def split_at_mark)
qed

theorem fingerprint_canonical_witness:
  "compute_fingerprint ''POST'' ''/v1/transfers'' (JObj [(''a'', JInt 1), (''b'', JInt 2)])
     = compute_fingerprint ''post'' ''/v1/transfers'' (JObj [(''b'', JInt 2), (''a'', JInt 1)])
   \<and> fingerprint_text ''POST'' ''/v1/transfers'' (transfer_body ''CARD_A'' ''AIR_B'' 900)
     \<noteq> fingerprint_text ''POST'' ''/v1/transfers'' (transfer_body ''CARD_A'' ''AIR_B'' 901)"
proof -
  have codes: "program_code_format ''CARD_A''" "program_code_format ''AIR_B''" "upper ''POST'' = upper ''post''"
    by code_simp+
  show ?thesis
    using fingerprint_canonical [of "''POST''" "''/v1/transfers''" JNull "[(''a'', JInt 1), (''b'', JInt 2)]" "[(''b'', JInt 2), (''a'', JInt 1)]"
          "''post''", THEN conjunct2, THEN conjunct2, THEN conjunct1]
      fingerprint_canonical [of "''POST''" "''/v1/transfers''" JNull Nil Nil "''POST''" "''/v1/transfers''"
        "''CARD_A''" "''AIR_B''" "''CARD_A''" "''AIR_B''" 900 901, THEN conjunct2, THEN conjunct2, THEN conjunct2] codes
    by (simp del: json_dumps.simps add: add_mset_commute)
qed

end
