(* ===== verification/Api_Errors.thy ===== *)
theory Api_Errors
  imports Domain
begin

text \<open>
  Error responses, \<^verbatim>\<open>app/api/errors.py\<close>: the RFC 7807 problem body of a domain error and of the internal
  error. A response is its status, body, media type and headers.
\<close>

section \<open>Codes as text\<close>

fun error_code_text :: "error_code \<Rightarrow> string" where
  "error_code_text VALIDATION_ERROR = ''VALIDATION_ERROR''"
| "error_code_text NOT_FOUND = ''NOT_FOUND''"
| "error_code_text METHOD_NOT_ALLOWED = ''METHOD_NOT_ALLOWED''"
| "error_code_text ADMIN_AUTH_REQUIRED = ''ADMIN_AUTH_REQUIRED''"
| "error_code_text AUTHENTICATION_REQUIRED = ''AUTHENTICATION_REQUIRED''"
| "error_code_text RATE_LIMITED = ''RATE_LIMITED''"
| "error_code_text INVALID_CURSOR = ''INVALID_CURSOR''"
| "error_code_text HTTP_ERROR = ''HTTP_ERROR''"
| "error_code_text INTERNAL_ERROR = ''INTERNAL_ERROR''"
| "error_code_text PROGRAM_NOT_FOUND = ''PROGRAM_NOT_FOUND''"
| "error_code_text PROGRAM_INACTIVE = ''PROGRAM_INACTIVE''"
| "error_code_text SAME_PROGRAM = ''SAME_PROGRAM''"
| "error_code_text ROUTE_NOT_SUPPORTED = ''ROUTE_NOT_SUPPORTED''"
| "error_code_text BELOW_MINIMUM = ''BELOW_MINIMUM''"
| "error_code_text ABOVE_MAXIMUM = ''ABOVE_MAXIMUM''"
| "error_code_text INVALID_INCREMENT = ''INVALID_INCREMENT''"
| "error_code_text ZERO_DESTINATION_POINTS = ''ZERO_DESTINATION_POINTS''"
| "error_code_text ACCOUNT_NOT_FOUND = ''ACCOUNT_NOT_FOUND''"
| "error_code_text INSUFFICIENT_BALANCE = ''INSUFFICIENT_BALANCE''"
| "error_code_text TRANSFER_NOT_FOUND = ''TRANSFER_NOT_FOUND''"
| "error_code_text IDEMPOTENCY_KEY_REQUIRED = ''IDEMPOTENCY_KEY_REQUIRED''"
| "error_code_text IDEMPOTENCY_KEY_INVALID = ''IDEMPOTENCY_KEY_INVALID''"
| "error_code_text IDEMPOTENCY_REQUEST_IN_PROGRESS = ''IDEMPOTENCY_REQUEST_IN_PROGRESS''"
| "error_code_text IDEMPOTENCY_KEY_REUSED = ''IDEMPOTENCY_KEY_REUSED''"
| "error_code_text INVALID_RATE = ''INVALID_RATE''"
| "error_code_text INVALID_BONUS = ''INVALID_BONUS''"
| "error_code_text BONUS_OVERLAP = ''BONUS_OVERLAP''"

text \<open>\<^verbatim>\<open>code.lower().replace('_', '-')\<close>\<close>

definition problem_char :: "char \<Rightarrow> char" where
  "problem_char c =
     (let n = (of_char c :: nat) in
      if 65 \<le> n \<and> n \<le> 90 then char_of (n + 32) else if c = CHR ''_'' then CHR ''-'' else c)"

definition problem_type :: "string \<Rightarrow> string" where
  "problem_type code = ''urn:loyalty-engine:problem:'' @ map problem_char code"

section \<open>Bodies and responses\<close>

definition json_of_string_option :: "string option \<Rightarrow> json" where
  "json_of_string_option x = (case x of None \<Rightarrow> JNull | Some s \<Rightarrow> JStr s)"

text \<open>The members of \<open>extra\<close> come first; the standard members replace those of the same name.\<close>

definition problem_body ::
  "int \<Rightarrow> string \<Rightarrow> string \<Rightarrow> string option \<Rightarrow> string \<Rightarrow> string option \<Rightarrow> (string \<times> json) list \<Rightarrow> (string \<times> json) list" where
  "problem_body status code title detail inst request_id extra =
     fold (\<lambda>(k, v). dict_set k v)
       [(''type'', JStr (problem_type code)), (''title'', JStr title), (''status'', JInt status),
        (''detail'', json_of_string_option detail), (''code'', JStr code), (''instance'', JStr inst),
        (''request_id'', json_of_string_option request_id)] extra"

record json_response =
  rs_status :: int
  rs_body :: json
  rs_media_type :: string
  rs_headers :: "(string \<times> string) list"

definition PROBLEM_MEDIA_TYPE :: string where
  "PROBLEM_MEDIA_TYPE = ''application/problem+json''"

definition domain_error_body :: "domain_error \<Rightarrow> string \<Rightarrow> string option \<Rightarrow> (string \<times> json) list" where
  "domain_error_body e inst request_id =
     problem_body (error_status e) (error_code_text (err_code e)) (error_title e) (Some (err_detail e)) inst request_id (err_extra e)"

definition domain_error_response :: "domain_error \<Rightarrow> string \<Rightarrow> string option \<Rightarrow> json_response" where
  "domain_error_response e inst request_id =
     \<lparr>rs_status = error_status e, rs_body = JObj (domain_error_body e inst request_id),
      rs_media_type = PROBLEM_MEDIA_TYPE, rs_headers = err_headers e\<rparr>"

definition internal_error_response :: "string \<Rightarrow> string option \<Rightarrow> json_response" where
  "internal_error_response inst request_id =
     (let spec = error_catalogue INTERNAL_ERROR in
      \<lparr>rs_status = spec_status spec,
       rs_body = JObj (problem_body (spec_status spec) (error_code_text INTERNAL_ERROR) (spec_title spec)
         (Some ''An unexpected error occurred. Quote the request_id when contacting support.'') inst request_id []),
       rs_media_type = PROBLEM_MEDIA_TYPE, rs_headers = []\<rparr>)"

lemma problem_body_members:
  "map_of (problem_body status code title detail inst request_id extra) ''status'' = Some (JInt status)"
  "map_of (problem_body status code title detail inst request_id extra) ''code'' = Some (JStr code)"
  by (simp_all add: problem_body_def)

lemma error_status_range: "400 \<le> error_status e \<and> error_status e \<le> 500"
  by (cases "err_code e") (simp_all add: error_status_def)

end
