(* ===== verification/Idempotency.thy ===== *)
theory Idempotency
  imports Fingerprint Database Api_Errors
begin

text \<open>
  Idempotency of client requests, \<^verbatim>\<open>app/services/idempotency.py\<close>, and the wrapper of write endpoints,
  \<^verbatim>\<open>app/api/idempotency.py\<close>. Redis is a parameter: a record of the commands the service issues on a state of
  any type. Other requests commit between two statements, which is the parameter \<open>others\<close>; a failed
  transaction undoes its own changes only. Clock readings and tokens are arguments.
\<close>

section \<open>Keys\<close>

definition MAX_KEY_LENGTH :: nat where "MAX_KEY_LENGTH = 255"

text \<open>\<^verbatim>\<open>key.isascii()\<close> and \<^verbatim>\<open>key.isprintable()\<close>, together.\<close>

definition printable_ascii :: "string \<Rightarrow> bool" where
  "printable_ascii s = list_all (\<lambda>c. 32 \<le> (of_char c :: nat) \<and> (of_char c :: nat) < 127) s"

definition validate_idempotency_key :: "string option \<Rightarrow> string result" where
  "validate_idempotency_key key =
     (case key of
        None \<Rightarrow> Inl (mk_domain_error IDEMPOTENCY_KEY_REQUIRED
          ''Send a unique Idempotency-Key header (for example a UUID) with this request.'' [])
      | Some k \<Rightarrow>
        bindE (raise_if (k = []) (mk_domain_error IDEMPOTENCY_KEY_REQUIRED
          ''Send a unique Idempotency-Key header (for example a UUID) with this request.'' [])) (\<lambda>_.
        bindE (raise_if (length k > MAX_KEY_LENGTH \<or> \<not> printable_ascii k) (mk_domain_error IDEMPOTENCY_KEY_INVALID
          (''Idempotency-Key must be 1-'' @ show_int (int MAX_KEY_LENGTH) @ '' printable ASCII characters.'') [])) (\<lambda>_.
        Inr k)))"

definition lock_key_of :: "string \<Rightarrow> string \<Rightarrow> string" where
  "lock_key_of user_id key = ''idempotency:lock:'' @ user_id @ '':'' @ sha256_hexdigest key"

section \<open>Redis\<close>

text \<open>
  \<open>rd_set_nx key token px\<close> is \<^verbatim>\<open>SET key token NX PX px\<close>: \<open>None\<close> is a \<^verbatim>\<open>RedisError\<close>, otherwise whether it was
  set. \<open>rd_eval script\<close> runs a script on the server; \<open>None\<close> is a \<^verbatim>\<open>RedisError\<close>.
\<close>

record 'r redis =
  rd_set_nx :: "string \<Rightarrow> string \<Rightarrow> int \<Rightarrow> 'r \<Rightarrow> bool option \<times> 'r"
  rd_get :: "string \<Rightarrow> 'r \<Rightarrow> string option"
  rd_del :: "string \<Rightarrow> 'r \<Rightarrow> int \<times> 'r"
  rd_eval :: "('r \<Rightarrow> int \<times> 'r) \<Rightarrow> 'r \<Rightarrow> int option \<times> 'r"

definition RELEASE_LOCK_SCRIPT :: "'r redis \<Rightarrow> string \<Rightarrow> string \<Rightarrow> 'r \<Rightarrow> int \<times> 'r" where
  "RELEASE_LOCK_SCRIPT rd key token w = (if rd_get rd key w = Some token then rd_del rd key w else (0, w))"

record idempotency_service =
  is_key_ttl :: duration
  is_lock_ttl :: duration

text \<open>The lock's life in milliseconds.\<close>

definition acquire_lock :: "'r redis \<Rightarrow> idempotency_service \<Rightarrow> string \<Rightarrow> string \<Rightarrow> 'r \<Rightarrow> bool option \<times> 'r" where
  "acquire_lock rd svc key token w = rd_set_nx rd key token (is_lock_ttl svc div 1000) w"

definition release_lock :: "'r redis \<Rightarrow> string \<Rightarrow> string option \<Rightarrow> 'r \<Rightarrow> 'r" where
  "release_lock rd key token w =
     (case token of None \<Rightarrow> w | Some tok \<Rightarrow> snd (rd_eval rd (RELEASE_LOCK_SCRIPT rd key tok) w))"

section \<open>Records and results\<close>

datatype begin_outcome = NEW | REPLAY | CONFLICT_IN_PROGRESS | CONFLICT_MISMATCH

record idempotency_record =
  ir_id :: int
  ir_user_id :: string
  ir_key :: string
  ir_lock_key :: string
  ir_lock_token :: "string option"

record begin_result =
  br_outcome :: begin_outcome
  br_record :: "idempotency_record option"
  br_status_code :: "int option"
  br_body :: "json option"

definition plain_result :: "begin_outcome \<Rightarrow> begin_result" where
  "plain_result out = \<lparr>br_outcome = out, br_record = None, br_status_code = None, br_body = None\<rparr>"

definition load_key :: "db \<Rightarrow> string \<Rightarrow> string \<Rightarrow> idempotency_key option" where
  "load_key s user_id key = find (\<lambda>r. ik_user_id r = user_id \<and> ik_key r = key) (db_keys s)"

definition replay_key :: "idempotency_key \<Rightarrow> begin_result" where
  "replay_key r = \<lparr>br_outcome = REPLAY, br_record = None, br_status_code = ik_response_status_code r, br_body = ik_response_body r\<rparr>"

definition classify_key :: "idempotency_key \<Rightarrow> string \<Rightarrow> begin_result" where
  "classify_key r fingerprint =
     (if ik_request_fingerprint r \<noteq> fingerprint then plain_result CONFLICT_MISMATCH
      else if ik_status r = KEY_COMPLETED then replay_key r
      else plain_result CONFLICT_IN_PROGRESS)"

definition is_reusable :: "idempotency_service \<Rightarrow> idempotency_key \<Rightarrow> moment \<Rightarrow> bool" where
  "is_reusable svc r now =
     (ik_expires_at r \<le> now \<or> (ik_status r = KEY_IN_PROGRESS \<and> ik_created_at r \<le> now - is_lock_ttl svc))"

section \<open>Statements on the keys\<close>

definition delete_key :: "int \<Rightarrow> db \<Rightarrow> db" where
  "delete_key i s = s\<lparr>db_keys := filter (\<lambda>r. ik_id r \<noteq> i) (db_keys s)\<rparr>"

text \<open>
  \<^verbatim>\<open>INSERT ... ON CONFLICT (user_id, key) DO NOTHING RETURNING id\<close>. An identity value is drawn before the
  conflict is found.
\<close>

definition insert_key ::
  "string \<Rightarrow> string \<Rightarrow> string \<Rightarrow> moment \<Rightarrow> moment \<Rightarrow> db \<Rightarrow> (int option \<times> db) result" where
  "insert_key user_id key fingerprint created_at expires_at s =
     bindE (ranged [(length user_id \<le> 64, ''user_id''), (length key \<le> 255, ''key''),
       (length fingerprint \<le> 64, ''request_fingerprint'')]) (\<lambda>_.
     bindE (checked [(expires_at > created_at, ''ck_idempotency_keys_expiry_after_creation''),
       (fingerprint_format fingerprint, ''ck_idempotency_keys_fingerprint_format'')]) (\<lambda>_.
     let s0 = s\<lparr>db_next_key_id := db_next_key_id s + 1\<rparr> in
     if load_key s user_id key \<noteq> None then Inr (None, s0)
     else bindE (checked [(list_ex (\<lambda>u. usr_id u = user_id) (db_users s), ''fk_idempotency_keys_user_id_users'')]) (\<lambda>_.
       Inr (Some (db_next_key_id s), s0\<lparr>db_keys := db_keys s @ [\<lparr>ik_id = db_next_key_id s, ik_user_id = user_id, ik_key = key,
         ik_request_fingerprint = fingerprint, ik_status = KEY_IN_PROGRESS, ik_response_status_code = None,
         ik_response_body = None, ik_transfer_id = None, ik_created_at = created_at, ik_expires_at = expires_at\<rparr>]\<rparr>))))"

section \<open>The service\<close>

text \<open>
  \<open>claim_key\<close>: the insert that follows the lookup, on the database as it is then. \<open>others 0\<close> commits after the
  lookup, \<open>others 1\<close> after the deletion, \<open>others 2\<close> after a lost race.
\<close>

definition claim_key ::
  "idempotency_service \<Rightarrow> (nat \<Rightarrow> db \<Rightarrow> db) \<Rightarrow> moment \<Rightarrow> string \<Rightarrow> string \<Rightarrow> string \<Rightarrow> string \<Rightarrow> string option
    \<Rightarrow> db \<Rightarrow> begin_result result \<times> db" where
  "claim_key svc others now user_id key fingerprint lock_key lock_token s =
     (let existing = load_key s user_id key; s1 = others 0 s;
          reuse = (case existing of None \<Rightarrow> True | Some r \<Rightarrow> is_reusable svc r now);
          s2 = (case existing of None \<Rightarrow> s1 | Some r \<Rightarrow> delete_key (ik_id r) s1)
      in if \<not> reuse then (Inr (classify_key (the existing) fingerprint), s1)
         else case insert_key user_id key fingerprint now (now + is_key_ttl svc) (others 1 s2) of
           Inl e \<Rightarrow> (Inl e, others 1 s1)
         | Inr (Some new_id, s3) \<Rightarrow>
             (Inr \<lparr>br_outcome = NEW, br_record = Some \<lparr>ir_id = new_id, ir_user_id = user_id, ir_key = key,
                ir_lock_key = lock_key, ir_lock_token = lock_token\<rparr>, br_status_code = None, br_body = None\<rparr>, s3)
         | Inr (None, s3) \<Rightarrow>
             (case load_key (others 2 s3) user_id key of
                None \<Rightarrow> (Inr (plain_result CONFLICT_IN_PROGRESS), others 2 s3)
              | Some winner \<Rightarrow> (Inr (classify_key winner fingerprint), others 2 s3)))"

definition begin_key ::
  "'r redis \<Rightarrow> idempotency_service \<Rightarrow> (nat \<Rightarrow> db \<Rightarrow> db) \<Rightarrow> moment \<Rightarrow> string \<Rightarrow> string \<Rightarrow> string \<Rightarrow> string
    \<Rightarrow> db \<Rightarrow> 'r \<Rightarrow> begin_result result \<times> db \<times> 'r" where
  "begin_key rd svc others now token user_id key fingerprint s w =
     (let lock_key = lock_key_of user_id key; (lock, w1) = acquire_lock rd svc lock_key token w in
      if lock = Some False then
        (case load_key s user_id key of
           Some r \<Rightarrow>
             if ik_request_fingerprint r \<noteq> fingerprint then (Inr (plain_result CONFLICT_MISMATCH), s, w1)
             else if ik_status r = KEY_COMPLETED then (Inr (replay_key r), s, w1)
             else (Inr (plain_result CONFLICT_IN_PROGRESS), s, w1)
         | None \<Rightarrow> (Inr (plain_result CONFLICT_IN_PROGRESS), s, w1))
      else
        let held_token = (if lock = Some True then Some token else None) in
        case claim_key svc others now user_id key fingerprint lock_key held_token s of
          (Inl e, s') \<Rightarrow> (Inl e, s', release_lock rd lock_key held_token w1)
        | (Inr r, s') \<Rightarrow>
            (Inr r, s', if br_outcome r \<noteq> NEW then release_lock rd lock_key held_token w1 else w1))"

text \<open>The update of \<^verbatim>\<open>complete\<close>: nothing is written if the record is gone or already completed.\<close>

definition complete_key_row :: "int \<Rightarrow> int \<Rightarrow> json \<Rightarrow> string option \<Rightarrow> db \<Rightarrow> (nat \<times> db) result" where
  "complete_key_row i status_code body transfer_id s =
     (let hit = (\<lambda>r. ik_id r = i \<and> ik_status r = KEY_IN_PROGRESS); n = length (filter hit (db_keys s)) in
      if n = 0 then Inr (0, s)
      else
      bindE (ranged [(in_int4 status_code, ''response_status_code'')]) (\<lambda>_.
      bindE (checked [(case transfer_id of None \<Rightarrow> True | Some t \<Rightarrow> list_ex (\<lambda>x. tr_id x = t) (db_transfers s),
        ''fk_idempotency_keys_transfer_id_transfers'')]) (\<lambda>_.
      Inr (n, s\<lparr>db_keys := update_where hit (\<lambda>r. r\<lparr>ik_status := KEY_COMPLETED,
        ik_response_status_code := Some status_code, ik_response_body := Some body, ik_transfer_id := transfer_id\<rparr>) (db_keys s)\<rparr>))))"

definition complete_key ::
  "'r redis \<Rightarrow> idempotency_record \<Rightarrow> int \<Rightarrow> json \<Rightarrow> string option \<Rightarrow> db \<Rightarrow> 'r \<Rightarrow> unit result \<times> db \<times> 'r" where
  "complete_key rd rec status_code body transfer_id s w =
     (case unit_of_work (complete_key_row (ir_id rec) status_code body transfer_id) s of
        (Inl e, s') \<Rightarrow> (Inl e, s', w)
      | (Inr _, s') \<Rightarrow> (Inr (), s', release_lock rd (ir_lock_key rec) (ir_lock_token rec) w))"

definition release_key_row :: "int \<Rightarrow> db \<Rightarrow> (unit \<times> db) result" where
  "release_key_row i s = Inr ((), s\<lparr>db_keys := filter (\<lambda>r. \<not> (ik_id r = i \<and> ik_status r = KEY_IN_PROGRESS)) (db_keys s)\<rparr>)"

definition release_key :: "'r redis \<Rightarrow> idempotency_record \<Rightarrow> db \<Rightarrow> 'r \<Rightarrow> unit result \<times> db \<times> 'r" where
  "release_key rd rec s w =
     (case unit_of_work (release_key_row (ir_id rec)) s of
        (Inl e, s') \<Rightarrow> (Inl e, s', w)
      | (Inr _, s') \<Rightarrow> (Inr (), s', release_lock rd (ir_lock_key rec) (ir_lock_token rec) w))"

section \<open>The wrapper of write endpoints\<close>

record handler_result =
  hn_status_code :: int
  hn_body :: json
  hn_resource_id :: "string option"

definition REPLAY_HEADER :: string where "REPLAY_HEADER = ''Idempotent-Replayed''"

definition idempotent_response :: "int \<Rightarrow> json \<Rightarrow> bool \<Rightarrow> json_response" where
  "idempotent_response status_code body replayed =
     \<lparr>rs_status = status_code, rs_body = body,
      rs_media_type = (if status_code \<ge> 400 then PROBLEM_MEDIA_TYPE else ''application/json''),
      rs_headers = (if replayed then [(REPLAY_HEADER, ''true'')] else [])\<rparr>"

text \<open>
  \<open>handler\<close> runs on the database and the rest of the world \<open>'w\<close>; Redis is a part of neither. A failure of
  \<open>complete\<close> or \<open>release\<close> replaces the answer. Other requests may commit before \<open>complete\<close> and \<open>release\<close> too
  (\<open>others 3\<close>).
\<close>

definition run_idempotent ::
  "'r redis \<Rightarrow> idempotency_service \<Rightarrow> (nat \<Rightarrow> db \<Rightarrow> db) \<Rightarrow> moment \<Rightarrow> string \<Rightarrow> string \<Rightarrow> string option
    \<Rightarrow> string \<Rightarrow> string \<Rightarrow> string \<Rightarrow> (db \<Rightarrow> 'w \<Rightarrow> handler_result result \<times> db \<times> 'w)
    \<Rightarrow> db \<Rightarrow> 'r \<Rightarrow> 'w \<Rightarrow> json_response result \<times> db \<times> 'r \<times> 'w" where
  "run_idempotent rd svc others now token path request_id user_id key fingerprint handler s r w =
     (case begin_key rd svc others now token user_id key fingerprint s r of
        (Inl e, s1, r1) \<Rightarrow> (Inl e, s1, r1, w)
      | (Inr b, s1, r1) \<Rightarrow>
        (case br_outcome b of
           REPLAY \<Rightarrow>
             (case br_status_code b of
                None \<Rightarrow> (Inl (RuntimeError ''completed idempotency record has no status code''), s1, r1, w)
              | Some code \<Rightarrow> (Inr (idempotent_response code (case br_body b of None \<Rightarrow> JNull | Some j \<Rightarrow> j) True), s1, r1, w))
         | CONFLICT_MISMATCH \<Rightarrow> (Inl (mk_domain_error IDEMPOTENCY_KEY_REUSED
             ''This Idempotency-Key was used with a different request. Use a new key.'' []), s1, r1, w)
         | CONFLICT_IN_PROGRESS \<Rightarrow> (Inl (mk_domain_error IDEMPOTENCY_REQUEST_IN_PROGRESS
             ''A request with this Idempotency-Key is still being processed. Retry shortly.'' []), s1, r1, w)
         | NEW \<Rightarrow>
             (case br_record b of
                None \<Rightarrow> (Inl (RuntimeError ''NEW idempotency outcome without a record''), s1, r1, w)
              | Some rec \<Rightarrow>
                (case handler s1 w of
                   (Inl e, s2, w2) \<Rightarrow>
                     (case e of
                        DomainError d \<Rightarrow>
                          if error_status d \<ge> 500 then
                            (case release_key rd rec (others 3 s2) r1 of
                               (Inl e', s3, r3) \<Rightarrow> (Inl e', s3, r3, w2)
                             | (Inr _, s3, r3) \<Rightarrow> (Inl e, s3, r3, w2))
                          else
                            let body = JObj (domain_error_body d path request_id) in
                            (case complete_key rd rec (error_status d) body None (others 3 s2) r1 of
                               (Inl e', s3, r3) \<Rightarrow> (Inl e', s3, r3, w2)
                             | (Inr _, s3, r3) \<Rightarrow> (Inr (idempotent_response (error_status d) body False), s3, r3, w2))
                      | _ \<Rightarrow>
                          (case release_key rd rec (others 3 s2) r1 of
                             (Inl e', s3, r3) \<Rightarrow> (Inl e', s3, r3, w2)
                           | (Inr _, s3, r3) \<Rightarrow> (Inl e, s3, r3, w2)))
                 | (Inr h, s2, w2) \<Rightarrow>
                     if hn_status_code h \<ge> 500 then
                       (case release_key rd rec (others 3 s2) r1 of
                          (Inl e', s3, r3) \<Rightarrow> (Inl e', s3, r3, w2)
                        | (Inr _, s3, r3) \<Rightarrow> (Inr (idempotent_response (hn_status_code h) (hn_body h) False), s3, r3, w2))
                     else
                       (case complete_key rd rec (hn_status_code h) (hn_body h) (hn_resource_id h) (others 3 s2) r1 of
                          (Inl e', s3, r3) \<Rightarrow> (Inl e', s3, r3, w2)
                        | (Inr _, s3, r3) \<Rightarrow> (Inr (idempotent_response (hn_status_code h) (hn_body h) False), s3, r3, w2))))))"

section \<open>The rows of a key\<close>

definition rows_of :: "db \<Rightarrow> string \<Rightarrow> string \<Rightarrow> idempotency_key list" where
  "rows_of s user_id key = filter (\<lambda>r. ik_user_id r = user_id \<and> ik_key r = key) (db_keys s)"

lemma load_key_rows: "load_key s u k = (case rows_of s u k of [] \<Rightarrow> None | r # _ \<Rightarrow> Some r)"
proof -
  have "find P xs = (case filter P xs of [] \<Rightarrow> None | r # _ \<Rightarrow> Some r)" for P and xs :: "idempotency_key list"
    by (induction xs) auto
  then show ?thesis by (simp add: load_key_def rows_of_def)
qed

lemma insert_key_Inr:
  assumes "insert_key u k fp created expires s = Inr (Some i, s')"
  shows "rows_of s u k = [] \<and> (\<exists>row. rows_of s' u k = [row] \<and> ik_id row = i \<and> ik_status row = KEY_IN_PROGRESS
    \<and> ik_request_fingerprint row = fp \<and> ik_created_at row = created \<and> ik_expires_at row = expires)"
  using assms by (auto simp: insert_key_def Let_def result_simps load_key_rows rows_of_def split: if_splits list.splits)

text \<open>A claim that is admitted inserted the only row of its key.\<close>

lemma begin_key_NEW:
  assumes "begin_key rd svc others now token u k fp s w = (Inr b, s1, w1)" "br_outcome b = NEW"
  shows "\<exists>rec row. br_record b = Some rec \<and> rows_of s1 u k = [row] \<and> ik_id row = ir_id rec \<and> ik_status row = KEY_IN_PROGRESS
    \<and> ik_request_fingerprint row = fp \<and> ik_created_at row = now \<and> ik_expires_at row = now + is_key_ttl svc"
proof -
  obtain tok where claim: "claim_key svc others now u k fp (lock_key_of u k) tok s = (Inr b, s1)"
    using assms
    by (auto simp: begin_key_def Let_def plain_result_def replay_key_def split: prod.splits if_splits option.splits sum.splits)
  show ?thesis
    using claim assms(2)
    by (auto simp: claim_key_def Let_def plain_result_def classify_key_def replay_key_def
        split: if_splits sum.splits option.splits prod.splits dest!: insert_key_Inr)
qed

text \<open>A row that may not be taken over decides every later request, whatever Redis answers.\<close>

lemma begin_key_existing:
  assumes "load_key s u k = Some row" "\<not> is_reusable svc row now"
  shows "\<exists>s' w'. begin_key rd svc others now token u k fp s w = (Inr (classify_key row fp), s', w') \<and> s' \<in> {s, others 0 s}"
  using assms
  by (auto simp: begin_key_def claim_key_def classify_key_def plain_result_def replay_key_def Let_def split: prod.splits)

text \<open>A request that looked before the row was there and inserts after: the unique constraint refuses it.\<close>

lemma insert_key_taken:
  assumes "insert_key u k fp created expires s = Inr (i, s')" "rows_of s u k = [row]"
  shows "i = None \<and> rows_of s' u k = [row]"
  using assms by (auto simp: insert_key_def Let_def result_simps load_key_rows rows_of_def split: if_splits)

lemma begin_key_raced:
  assumes run: "begin_key rd svc others now token u k fp s w = (Inr b, s', w')"
    and "rows_of s u k = []" "rows_of (others 1 (others 0 s)) u k = [row]" "ik_status row = KEY_IN_PROGRESS"
    and "\<And>x. rows_of (others 2 x) u k = rows_of x u k"
  shows "b = plain_result CONFLICT_IN_PROGRESS \<or> ik_request_fingerprint row \<noteq> fp \<and> b = plain_result CONFLICT_MISMATCH"
proof -
  have none: "load_key s u k = None" using assms(2) by (simp add: load_key_rows)
  have "b = plain_result CONFLICT_IN_PROGRESS \<or> ik_request_fingerprint row \<noteq> fp \<and> b = plain_result CONFLICT_MISMATCH"
    if "claim_key svc others now u k fp lk tok s = (Inr b, s'')" for lk tok s''
  proof (cases "insert_key u k fp now (now + is_key_ttl svc) (others 1 (others 0 s))")
    case (Inl e)
    then show ?thesis using that none by (simp add: claim_key_def Let_def)
  next
    case (Inr a)
    then obtain i s3 where ins: "insert_key u k fp now (now + is_key_ttl svc) (others 1 (others 0 s)) = Inr (i, s3)"
      by (cases a) auto
    from insert_key_taken [OF this assms(3)] have i: "i = None" and rows: "load_key (others 2 s3) u k = Some row"
      using assms(5) by (simp_all add: load_key_rows)
    have "b = classify_key row fp"
      using that none ins i rows by (simp add: claim_key_def Let_def)
    then show ?thesis using assms(4) by (simp add: classify_key_def)
  qed
  then show ?thesis
    using run none
    by (auto simp: begin_key_def Let_def split: prod.splits if_splits sum.splits)
qed

text \<open>
  C14: a key admits one request. Once a request was admitted as new, another request with the same user and
  key is refused, whatever Redis does, as long as the admitted row stands: if it finds the row before the
  lock TTL and the key TTL have run out, as in progress if it is the same request and as a mismatch
  otherwise, and it changes nothing; if it looked before the row was inserted and comes to its own insert
  after, it is not admitted either. Stale, expired, completed and released rows are not claimed here.
\<close>

theorem one_request_per_key:
  assumes "begin_key rd svc others now token u k fp s w = (Inr b, s1, w1)" "br_outcome b = NEW"
  shows "(rows_of s2 u k = rows_of s1 u k \<and> now2 < now + is_key_ttl svc \<and> now2 < now + is_lock_ttl svc \<longrightarrow>
      (\<exists>s2' w2'. begin_key rd2 svc others2 now2 token2 u k fp2 s2 w2 =
          (Inr (plain_result (if fp2 = fp then CONFLICT_IN_PROGRESS else CONFLICT_MISMATCH)), s2', w2')
        \<and> s2' \<in> {s2, others2 0 s2}))
    \<and> (rows_of s2 u k = [] \<and> rows_of (others2 1 (others2 0 s2)) u k = rows_of s1 u k
        \<and> (\<forall>x. rows_of (others2 2 x) u k = rows_of x u k)
        \<and> begin_key rd2 svc others2 now2 token2 u k fp2 s2 w2 = (Inr b2, s2', w2') \<longrightarrow>
      b2 = plain_result CONFLICT_IN_PROGRESS \<or> fp2 \<noteq> fp \<and> b2 = plain_result CONFLICT_MISMATCH)"
proof (intro conjI impI; (elim conjE)?)
  from begin_key_NEW [OF assms] obtain row where row: "rows_of s1 u k = [row]" "ik_status row = KEY_IN_PROGRESS"
    "ik_request_fingerprint row = fp" "ik_created_at row = now" "ik_expires_at row = now + is_key_ttl svc"
    by blast
  show "\<exists>s2' w2'. begin_key rd2 svc others2 now2 token2 u k fp2 s2 w2 =
      (Inr (plain_result (if fp2 = fp then CONFLICT_IN_PROGRESS else CONFLICT_MISMATCH)), s2', w2')
    \<and> s2' \<in> {s2, others2 0 s2}"
    if "rows_of s2 u k = rows_of s1 u k" "now2 < now + is_key_ttl svc" "now2 < now + is_lock_ttl svc"
  proof -
    have "load_key s2 u k = Some row" "\<not> is_reusable svc row now2"
      using row that by (simp_all add: load_key_rows is_reusable_def)
    moreover have "classify_key row fp2 = plain_result (if fp2 = fp then CONFLICT_IN_PROGRESS else CONFLICT_MISMATCH)"
      using row by (simp add: classify_key_def)
    ultimately show ?thesis
      using begin_key_existing [of s2 u k row svc now2 rd2 others2 token2 fp2 w2] by simp
  qed
  show "b2 = plain_result CONFLICT_IN_PROGRESS \<or> fp2 \<noteq> fp \<and> b2 = plain_result CONFLICT_MISMATCH"
    if "rows_of s2 u k = []" "rows_of (others2 1 (others2 0 s2)) u k = rows_of s1 u k"
      "\<forall>x. rows_of (others2 2 x) u k = rows_of x u k"
      "begin_key rd2 svc others2 now2 token2 u k fp2 s2 w2 = (Inr b2, s2', w2')"
    using begin_key_raced [OF that(4,1) that(2) [unfolded row(1)] row(2)] that(3) row(3) by auto
qed

text \<open>A Redis that is down, and a database with one user, for the witnesses.\<close>

definition down_redis :: "unit redis" where
  "down_redis = \<lparr>rd_set_nx = (\<lambda>_ _ _ w. (None, w)), rd_get = (\<lambda>_ _. None), rd_del = (\<lambda>_ w. (0, w)), rd_eval = (\<lambda>_ w. (None, w))\<rparr>"

definition user_db :: db where
  "user_db = empty_db\<lparr>db_users := [\<lparr>usr_id = ''user_1'', usr_created_at = 0\<rparr>]\<rparr>"

definition sample_service :: idempotency_service where
  "sample_service = \<lparr>is_key_ttl = 86400000000, is_lock_ttl = 30000000\<rparr>"

definition sample_fp :: "char \<Rightarrow> string" where
  "sample_fp c = replicate 64 c"

abbreviation alone :: "nat \<Rightarrow> db \<Rightarrow> db" where
  "alone \<equiv> \<lambda>_ s. s"

lemma sample_fp_ok: "fingerprint_format (sample_fp CHR ''0'')" "length (sample_fp c) = 64"
  by code_simp (simp add: sample_fp_def)

definition claimed_row :: idempotency_key where
  "claimed_row = \<lparr>ik_id = 1, ik_user_id = ''user_1'', ik_key = ''key-1'', ik_request_fingerprint = sample_fp CHR ''0'',
     ik_status = KEY_IN_PROGRESS, ik_response_status_code = None, ik_response_body = None, ik_transfer_id = None,
     ik_created_at = 5, ik_expires_at = 86400000005\<rparr>"

definition claimed_db :: db where
  "claimed_db = user_db\<lparr>db_keys := [claimed_row], db_next_key_id := 2\<rparr>"

lemma sample_claim:
  "\<exists>b. begin_key down_redis sample_service alone 5 ''t1'' ''user_1'' ''key-1'' (sample_fp CHR ''0'') user_db () = (Inr b, claimed_db, ())
      \<and> br_outcome b = NEW"
  using sample_fp_ok
  by (simp add: begin_key_def acquire_lock_def down_redis_def claim_key_def load_key_def user_db_def empty_db_def insert_key_def
      ranged_def checked_def sample_service_def claimed_db_def claimed_row_def)

text \<open>The second request finds the row; a third looked before and loses the race, without Redis.\<close>

theorem one_request_per_key_witness:
  "(\<exists>s2 w2. begin_key down_redis sample_service alone 6 ''t2'' ''user_1'' ''key-1'' (sample_fp CHR ''0'') claimed_db () =
        (Inr (plain_result CONFLICT_IN_PROGRESS), s2, w2))
   \<and> br_outcome (projr (fst (begin_key down_redis sample_service (\<lambda>i s. if i = 1 then claimed_db else s) 6 ''t3''
        ''user_1'' ''key-1'' (sample_fp CHR ''0'') user_db ()))) = CONFLICT_IN_PROGRESS"
proof -
  obtain b where run: "begin_key down_redis sample_service alone 5 ''t1'' ''user_1'' ''key-1'' (sample_fp CHR ''0'') user_db () = (Inr b, claimed_db, ())"
    and new: "br_outcome b = NEW" using sample_claim by blast
  let ?others = "\<lambda>i s. if i = (1::nat) then claimed_db else s"
  have race: "\<exists>b2 s2 w2. begin_key down_redis sample_service ?others 6 ''t3'' ''user_1'' ''key-1'' (sample_fp CHR ''0'') user_db () = (Inr b2, s2, w2)"
    using sample_fp_ok
    by (simp add: begin_key_def acquire_lock_def down_redis_def claim_key_def load_key_def user_db_def empty_db_def insert_key_def
        ranged_def checked_def sample_service_def claimed_db_def claimed_row_def release_lock_def)
  then obtain b2 s2 w2 where third: "begin_key down_redis sample_service ?others 6 ''t3'' ''user_1'' ''key-1'' (sample_fp CHR ''0'') user_db () = (Inr b2, s2, w2)"
    by blast
  have "rows_of user_db ''user_1'' ''key-1'' = []"
    by (simp add: rows_of_def user_db_def empty_db_def)
  then have "b2 = plain_result CONFLICT_IN_PROGRESS"
    using one_request_per_key [OF run new, of user_db 6 down_redis ?others "''t3''" "sample_fp CHR ''0''" "()" b2 s2 w2] third by simp
  moreover have "\<exists>s2 w2. begin_key down_redis sample_service alone 6 ''t2'' ''user_1'' ''key-1'' (sample_fp CHR ''0'') claimed_db () =
        (Inr (plain_result CONFLICT_IN_PROGRESS), s2, w2)"
    using one_request_per_key [OF run new, of claimed_db 6 down_redis alone "''t2''" "sample_fp CHR ''0''" "()", THEN conjunct1]
    by (simp add: sample_service_def)
  ultimately show ?thesis
    using third by (simp add: plain_result_def)
qed

section \<open>A retry gets the stored answer\<close>

lemma complete_key_rows:
  assumes "complete_key rd rec code body tid s w = (Inr x, s', w')" "rows_of s u k = [row]"
    and "ik_id row = ir_id rec" "ik_status row = KEY_IN_PROGRESS"
  shows "rows_of s' u k = [row\<lparr>ik_status := KEY_COMPLETED, ik_response_status_code := Some code,
    ik_response_body := Some body, ik_transfer_id := tid\<rparr>]"
proof -
  let ?hit = "\<lambda>r. ik_id r = ir_id rec \<and> ik_status r = KEY_IN_PROGRESS"
  let ?f = "\<lambda>r. r\<lparr>ik_status := KEY_COMPLETED, ik_response_status_code := Some code, ik_response_body := Some body, ik_transfer_id := tid\<rparr>"
  have "row \<in> set (db_keys s)"
    using assms(2) by (metis filter_is_subset list.set_intros(1) rows_of_def subsetD)
  then have "filter ?hit (db_keys s) \<noteq> []"
    using assms(3,4) by (auto simp: filter_empty_conv)
  then have "s' = s\<lparr>db_keys := update_where ?hit ?f (db_keys s)\<rparr>"
    using assms(1)
    by (auto simp: complete_key_def complete_key_row_def Let_def result_simps unit_of_work_Inr_iff split: prod.splits sum.splits)
  moreover have "rows_of (s\<lparr>db_keys := update_where ?hit ?f (db_keys s)\<rparr>) u k = map (\<lambda>r. if ?hit r then ?f r else r) (rows_of s u k)"
  proof -
    have "filter P (map g xs) = map g (filter P xs)" if "\<And>r. P (g r) = P r" for P g and xs :: "idempotency_key list"
      using that by (induction xs) auto
    then show ?thesis
      by (simp add: rows_of_def update_where_def)
  qed
  ultimately show ?thesis
    using assms(2-4) by simp
qed

lemma release_key_rows:
  assumes "release_key rd rec s w = (x, s', w')" "rows_of s u k = [row]" "ik_id row = ir_id rec" "ik_status row = KEY_IN_PROGRESS"
  shows "x = Inr () \<and> rows_of s' u k = []"
proof -
  have "unit_of_work (release_key_row (ir_id rec)) s =
      (Inr (), s\<lparr>db_keys := filter (\<lambda>r. \<not> (ik_id r = ir_id rec \<and> ik_status r = KEY_IN_PROGRESS)) (db_keys s)\<rparr>)" (is "_ = (Inr (), ?s')")
    by (simp add: unit_of_work_def release_key_row_def commit_checks_def)
  moreover have "rows_of ?s' u k = filter (\<lambda>r. \<not> (ik_id r = ir_id rec \<and> ik_status r = KEY_IN_PROGRESS)) (rows_of s u k)"
    by (simp add: rows_of_def conj_commute)
  ultimately show ?thesis
    using assms by (auto simp: release_key_def split: prod.splits sum.splits)
qed

text \<open>On a key without rows a request is admitted, or it conflicts with one that holds the lock.\<close>

lemma begin_key_fresh:
  assumes "begin_key rd svc others now token u k fp s w = (Inr b, s1, w1)"
    and "\<And>i x. rows_of (others i x) u k = rows_of x u k" "rows_of s u k = []"
  shows "br_outcome b = NEW \<or> b = plain_result CONFLICT_IN_PROGRESS"
proof -
  have none: "load_key s u k = None" "load_key (others i (others j s)) u k = None" for i j
    using assms(2,3) by (simp_all add: load_key_rows)
  show ?thesis
    using assms(1) none
    by (auto simp: begin_key_def claim_key_def insert_key_def Let_def result_simps
        split: prod.splits if_splits sum.splits option.splits)
qed

lemma run_idempotent_completed:
  assumes "load_key s u k = Some row" "ik_status row = KEY_COMPLETED" "ik_response_status_code row = Some c"
    and "ik_response_body row = Some j" "now < ik_expires_at row"
  shows "\<exists>s' r'. run_idempotent rd svc others now token path rid u k fp handler s r w =
      ((if fp = ik_request_fingerprint row then Inr (idempotent_response c j True)
        else Inl (mk_domain_error IDEMPOTENCY_KEY_REUSED
          ''This Idempotency-Key was used with a different request. Use a new key.'' [])), s', r', w)
    \<and> s' \<in> {s, others 0 s}"
proof -
  have "\<not> is_reusable svc row now"
    using assms(2,5) by (simp add: is_reusable_def)
  then show ?thesis
    using begin_key_existing [OF assms(1), of svc now rd others token fp r] assms
    by (auto simp: run_idempotent_def classify_key_def plain_result_def replay_key_def split: if_splits)
qed

text \<open>What an answered first request leaves: the answer, or nothing after a failure.\<close>

lemma run_idempotent_first:
  assumes "run_idempotent rd svc others now token path rid u k fp handler s r w = (Inr resp, s1, r1, w1)"
    and others: "\<And>i x. rows_of (others i x) u k = rows_of x u k" and fresh: "rows_of s u k = []"
    and handler: "\<And>x y. rows_of (fst (snd (handler x y))) u k = rows_of x u k"
  shows "\<exists>c j. resp = idempotent_response c j False \<and>
    (if c \<ge> 500 then rows_of s1 u k = []
     else \<exists>row. rows_of s1 u k = [row] \<and> ik_status row = KEY_COMPLETED \<and> ik_response_status_code row = Some c
       \<and> ik_response_body row = Some j \<and> ik_request_fingerprint row = fp \<and> ik_expires_at row = now + is_key_ttl svc)"
proof -
  from assms(1) obtain b sb rb where bg: "begin_key rd svc others now token u k fp s r = (Inr b, sb, rb)"
    by (auto simp: run_idempotent_def split: prod.splits sum.splits)
  have new: "br_outcome b = NEW"
    using begin_key_fresh [OF bg others fresh] assms(1) bg by (auto simp: run_idempotent_def plain_result_def)
  from begin_key_NEW [OF bg new] obtain rec row where rec: "br_record b = Some rec"
    and row: "rows_of sb u k = [row]" "ik_id row = ir_id rec" "ik_status row = KEY_IN_PROGRESS"
      "ik_request_fingerprint row = fp" "ik_expires_at row = now + is_key_ttl svc"
    by blast
  obtain h sh wh where hd: "handler sb w = (h, sh, wh)"
    using prod_cases3 by blast
  have sh: "rows_of (others 3 sh) u k = [row]"
    using handler [of sb w] hd others row(1) by simp
  note complete = complete_key_rows [OF _ sh row(2,3)] and release = release_key_rows [OF _ sh row(2,3)]
  show ?thesis
  proof (cases h)
    case (Inr hr)
    show ?thesis
    proof (cases "hn_status_code hr \<ge> 500")
      case True
      with assms(1) bg new rec hd Inr show ?thesis
        by (auto simp: run_idempotent_def split: prod.splits sum.splits dest!: release)
    next
      case False
      with assms(1) bg new rec hd Inr row(4,5) show ?thesis
        by (auto simp: run_idempotent_def split: prod.splits sum.splits dest!: complete)
    qed
  next
    case (Inl e)
    then obtain d where e: "e = DomainError d" "error_status d < 500"
      using assms(1) bg new rec hd
      by (auto simp: run_idempotent_def split: prod.splits sum.splits exc.splits if_splits)
    with assms(1) bg new rec hd Inl row(4,5) show ?thesis
      by (intro exI [of _ "error_status d"] exI [of _ "JObj (domain_error_body d path rid)"])
        (auto simp: run_idempotent_def Let_def split: prod.splits sum.splits dest!: complete)
  qed
qed

text \<open>What a first request leaves whose handler raised a server error: nothing.\<close>

lemma run_idempotent_raised:
  assumes "run_idempotent rd svc others now token path rid u k fp handler s r w = (out, s1, r1, w1)"
    and others: "\<And>i x. rows_of (others i x) u k = rows_of x u k"
    and handler: "\<And>x y. rows_of (fst (snd (handler x y))) u k = rows_of x u k"
    and bg: "begin_key rd svc others now token u k fp s r = (Inr b, sb, rb)" and new: "br_outcome b = NEW"
    and e: "fst (handler sb w) = Inl e" "case e of DomainError d \<Rightarrow> error_status d \<ge> 500 | _ \<Rightarrow> True"
  shows "out = Inl e \<and> rows_of s1 u k = []"
proof -
  from begin_key_NEW [OF bg new] obtain rec row where rec: "br_record b = Some rec"
    and row: "rows_of sb u k = [row]" "ik_id row = ir_id rec" "ik_status row = KEY_IN_PROGRESS"
    by blast
  obtain sh wh where hd: "handler sb w = (Inl e, sh, wh)"
    using e(1) by (metis prod.collapse)
  have "rows_of (others 3 sh) u k = [row]"
    using handler [of sb w] hd others row(1) by simp
  note release = release_key_rows [OF _ this row(2,3)]
  obtain x s3 r3 where rel: "release_key rd rec (others 3 sh) rb = (x, s3, r3)"
    using prod_cases3 by blast
  note rel' = release [OF rel]
  show ?thesis
    using assms(1) bg new rec hd rel rel' e(2)
    by (cases e) (auto simp: run_idempotent_def)
qed

text \<open>
  C15: a retry replays, a failure is forgotten. Take the first request with a key, while other requests and
  the handler leave the rows of the key alone. If its handler raises a domain error of status 500 or more or
  any other exception, that exception is raised and the key is free again; it is also free after an answer
  of status 500 or more. After any other answer every later request with the key until its expiry, whatever
  Redis does, gets the same status and body with the replay header if it is the same request, and
  IDEMPOTENCY_KEY_REUSED if it is another; its handler does not run.
\<close>

theorem retry_replays_response:
  assumes run: "run_idempotent rd svc others now token path rid u k fp handler s r w = (out, s1, r1, w1)"
    and others: "\<And>i x. rows_of (others i x) u k = rows_of x u k" and fresh: "rows_of s u k = []"
    and handler: "\<And>x y. rows_of (fst (snd (handler x y))) u k = rows_of x u k"
    and now2: "now2 < now + is_key_ttl svc"
  shows "(begin_key rd svc others now token u k fp s r = (Inr b, sb, rb) \<and> br_outcome b = NEW
        \<and> fst (handler sb w) = Inl e \<and> (case e of DomainError d \<Rightarrow> error_status d \<ge> 500 | _ \<Rightarrow> True) \<longrightarrow>
      out = Inl e \<and> rows_of s1 u k = [])
    \<and> (out = Inr resp \<longrightarrow>
      (if rs_status resp \<ge> 500 then rows_of s1 u k = []
       else \<exists>s2 r2. run_idempotent rd2 svc others2 now2 token2 path2 rid2 u k fp2 handler2 s1 r' w' =
          ((if fp2 = fp then Inr (resp\<lparr>rs_headers := [(REPLAY_HEADER, ''true'')]\<rparr>)
            else Inl (mk_domain_error IDEMPOTENCY_KEY_REUSED
              ''This Idempotency-Key was used with a different request. Use a new key.'' [])), s2, r2, w')
        \<and> s2 \<in> {s1, others2 0 s1}))"
proof (intro conjI impI; (elim conjE)?)
  show "out = Inl e" "rows_of s1 u k = []"
    if "begin_key rd svc others now token u k fp s r = (Inr b, sb, rb)" "br_outcome b = NEW"
      "fst (handler sb w) = Inl e" "case e of DomainError d \<Rightarrow> error_status d \<ge> 500 | _ \<Rightarrow> True"
    using run_idempotent_raised [OF run others handler that] by simp_all
next
  assume "out = Inr resp"
  from run_idempotent_first [OF run [unfolded this] others fresh handler]
  obtain c j where resp: "resp = idempotent_response c j False"
    and rows: "if c \<ge> 500 then rows_of s1 u k = []
     else \<exists>row. rows_of s1 u k = [row] \<and> ik_status row = KEY_COMPLETED \<and> ik_response_status_code row = Some c
       \<and> ik_response_body row = Some j \<and> ik_request_fingerprint row = fp \<and> ik_expires_at row = now + is_key_ttl svc"
    by blast
  show "if rs_status resp \<ge> 500 then rows_of s1 u k = []
       else \<exists>s2 r2. run_idempotent rd2 svc others2 now2 token2 path2 rid2 u k fp2 handler2 s1 r' w' =
          ((if fp2 = fp then Inr (resp\<lparr>rs_headers := [(REPLAY_HEADER, ''true'')]\<rparr>)
            else Inl (mk_domain_error IDEMPOTENCY_KEY_REUSED
              ''This Idempotency-Key was used with a different request. Use a new key.'' [])), s2, r2, w')
        \<and> s2 \<in> {s1, others2 0 s1}"
  proof (cases "c \<ge> 500")
    case True
    with rows resp show ?thesis by (simp add: idempotent_response_def)
  next
    case False
    with rows obtain row where row: "rows_of s1 u k = [row]" "ik_status row = KEY_COMPLETED" "ik_response_status_code row = Some c"
      "ik_response_body row = Some j" "ik_request_fingerprint row = fp" "ik_expires_at row = now + is_key_ttl svc"
      by auto
    have "load_key s1 u k = Some row" using row(1) by (simp add: load_key_rows)
    from run_idempotent_completed [OF this row(2-4), of now2 rd2 svc others2 token2 path2 rid2 fp2 handler2 r' w'] False row(5,6) now2
    show ?thesis
      by (auto simp: resp idempotent_response_def)
  qed
qed

definition sample_handler :: "db \<Rightarrow> nat \<Rightarrow> handler_result result \<times> db \<times> nat" where
  "sample_handler s n = (Inr \<lparr>hn_status_code = 201, hn_body = JInt (int n), hn_resource_id = None\<rparr>, s, Suc n)"

definition failing_handler :: "db \<Rightarrow> nat \<Rightarrow> handler_result result \<times> db \<times> nat" where
  "failing_handler s n = (Inl (RuntimeError ''boom''), s, Suc n)"

text \<open>A handler that answers is replayed; one that raises frees the key.\<close>

theorem retry_replays_response_witness:
  "(\<exists>resp s1. run_idempotent down_redis sample_service alone 5 ''t1'' ''/v1/transfers'' None ''user_1'' ''key-1'' (sample_fp CHR ''0'')
        sample_handler user_db () 0 = (Inr resp, s1, (), 1)
    \<and> (\<exists>s2. run_idempotent down_redis sample_service alone 6 ''t2'' ''/v1/transfers'' None ''user_1'' ''key-1'' (sample_fp CHR ''0'')
        sample_handler s1 () 1 = (Inr (resp\<lparr>rs_headers := [(REPLAY_HEADER, ''true'')]\<rparr>), s2, (), 1)))
   \<and> rows_of (fst (snd (run_idempotent down_redis sample_service alone 5 ''t1'' ''/v1/transfers'' None ''user_1'' ''key-1''
        (sample_fp CHR ''0'') failing_handler user_db () 0))) ''user_1'' ''key-1'' = []"
proof -
  obtain resp s1 where run: "run_idempotent down_redis sample_service alone 5 ''t1'' ''/v1/transfers'' None ''user_1'' ''key-1''
      (sample_fp CHR ''0'') sample_handler user_db () 0 = (Inr resp, s1, (), 1)" and st: "rs_status resp = 201"
    using sample_fp_ok
    by (simp add: run_idempotent_def begin_key_def acquire_lock_def down_redis_def claim_key_def load_key_def user_db_def empty_db_def
        insert_key_def ranged_def checked_def sample_service_def sample_handler_def complete_key_def complete_key_row_def
        unit_of_work_def commit_checks_def in_int4_def update_where_def release_lock_def idempotent_response_def)
  have fresh: "rows_of user_db ''user_1'' ''key-1'' = []"
    by (simp add: rows_of_def user_db_def empty_db_def)
  have replayed: "\<exists>s2. run_idempotent down_redis sample_service alone 6 ''t2'' ''/v1/transfers'' None ''user_1'' ''key-1''
      (sample_fp CHR ''0'') sample_handler s1 () 1 = (Inr (resp\<lparr>rs_headers := [(REPLAY_HEADER, ''true'')]\<rparr>), s2, (), 1)"
    using retry_replays_response [where resp = resp, OF run _ fresh, of 6 _ _ _ _ down_redis alone "''t2''" "''/v1/transfers''" None
        "sample_fp CHR ''0''" sample_handler "()" 1] st
    by (auto simp: sample_handler_def sample_service_def)
  obtain b where claim: "begin_key down_redis sample_service alone 5 ''t1'' ''user_1'' ''key-1'' (sample_fp CHR ''0'') user_db () = (Inr b, claimed_db, ())"
    "br_outcome b = NEW"
    using sample_claim by blast
  obtain out s2 r2 w2 where failed: "run_idempotent down_redis sample_service alone 5 ''t1'' ''/v1/transfers'' None ''user_1'' ''key-1''
      (sample_fp CHR ''0'') failing_handler user_db () 0 = (out, s2, r2, w2)"
    by (metis prod_cases4)
  have ttl: "(6::int) < 5 + is_key_ttl sample_service"
    by (simp add: sample_service_def)
  have "rows_of (fst (snd (failing_handler x y))) ''user_1'' ''key-1'' = rows_of x ''user_1'' ''key-1''" for x y
    by (simp add: failing_handler_def)
  note freed = retry_replays_response [OF failed refl fresh this ttl, THEN conjunct1, rule_format, OF conjI,
      OF claim(1) conjI, OF claim(2) conjI, of "RuntimeError ''boom''"]
  have "rows_of s2 ''user_1'' ''key-1'' = []"
    using freed by (simp add: failing_handler_def)
  then show ?thesis
    using run replayed failed by auto
qed

section \<open>Expired records\<close>

text \<open>
  C40: an expired record is treated as new only by a request that gets the lock. The module promises that
  expired rows are treated as new. The request that takes the lock, or runs without Redis, is admitted; but a
  request that finds the lock held gets the expired answer replayed.
\<close>

theorem expired_record_replayed_under_lock:
  assumes "load_key s u k = Some row" "ik_status row = KEY_COMPLETED" "ik_request_fingerprint row = fp" "ik_expires_at row \<le> now"
    and "rd_set_nx rd (lock_key_of u k) token (is_lock_ttl svc div 1000) w = (lock, w1)"
  shows "(lock = Some False \<longrightarrow> begin_key rd svc others now token u k fp s w = (Inr (replay_key row), s, w1))
    \<and> (lock \<noteq> Some False \<and> rows_of (others 1 (delete_key (ik_id row) (others 0 s))) u k = []
        \<and> insert_key u k fp now (now + is_key_ttl svc) (others 1 (delete_key (ik_id row) (others 0 s))) = Inr (Some i, s') \<longrightarrow>
      (\<exists>b. begin_key rd svc others now token u k fp s w = (Inr b, s', w1) \<and> br_outcome b = NEW))"
  using assms by (auto simp: begin_key_def acquire_lock_def claim_key_def is_reusable_def Let_def)

definition busy_redis :: "unit redis" where
  "busy_redis = down_redis\<lparr>rd_set_nx := (\<lambda>_ _ _ w. (Some False, w))\<rparr>"

definition expired_row :: idempotency_key where
  "expired_row = \<lparr>ik_id = 1, ik_user_id = ''user_1'', ik_key = ''key-1'', ik_request_fingerprint = sample_fp CHR ''0'',
     ik_status = KEY_COMPLETED, ik_response_status_code = Some 201, ik_response_body = Some JNull, ik_transfer_id = None,
     ik_created_at = 0, ik_expires_at = 10\<rparr>"

theorem expired_record_replayed_under_lock_witness:
  "begin_key busy_redis sample_service alone 20 ''t1'' ''user_1'' ''key-1'' (sample_fp CHR ''0'') (user_db\<lparr>db_keys := [expired_row]\<rparr>) ()
    = (Inr (replay_key expired_row), user_db\<lparr>db_keys := [expired_row]\<rparr>, ())"
  using expired_record_replayed_under_lock [of "user_db\<lparr>db_keys := [expired_row]\<rparr>" "''user_1''" "''key-1''" expired_row
      "sample_fp CHR ''0''" 20 busy_redis "''t1''" sample_service "()" "Some False" "()" alone]
  by (simp add: load_key_def expired_row_def busy_redis_def)

end
