(* ===== verification/Key_Cleanup.thy ===== *)
theory Key_Cleanup
  imports Idempotency
begin

text \<open>
  Deletion of expired idempotency keys, \<^verbatim>\<open>scripts/cleanup_idempotency.py\<close>:
  the batches, the loop over them, and what remains.
\<close>

section \<open>Cleanup\<close>

definition BATCH_SIZE :: nat where "BATCH_SIZE = 5000"

text \<open>One batch: \<open>busy\<close> rows are locked by others and skipped. The result is the number of deleted rows.\<close>

definition delete_batch :: "moment \<Rightarrow> (int \<Rightarrow> bool) \<Rightarrow> nat \<Rightarrow> db \<Rightarrow> (nat \<times> db) result" where
  "delete_batch now busy batch_size s =
     (let ids = map ik_id (take batch_size (filter (\<lambda>r. ik_expires_at r \<le> now \<and> \<not> busy (ik_id r)) (db_keys s)));
          kept = filter (\<lambda>r. ik_id r \<notin> set ids) (db_keys s)
      in Inr (length (db_keys s) - length kept, s\<lparr>db_keys := kept\<rparr>))"

text \<open>\<open>nows i\<close> is \<^verbatim>\<open>now()\<close> in the \<open>i\<close>-th transaction.\<close>

function delete_expired_keys :: "(nat \<Rightarrow> moment) \<Rightarrow> (int \<Rightarrow> bool) \<Rightarrow> nat \<Rightarrow> nat \<Rightarrow> db \<Rightarrow> nat result \<times> db" where
  "delete_expired_keys nows busy i removed s =
     (case unit_of_work (delete_batch (nows i) busy BATCH_SIZE) s of
        (Inl e, s') \<Rightarrow> (Inl e, s')
      | (Inr deleted, s') \<Rightarrow>
          if deleted < BATCH_SIZE then (Inr (removed + deleted), s')
          else delete_expired_keys nows busy (Suc i) (removed + deleted) s')"
  by pat_completeness auto

termination
  by (relation "measure (\<lambda>(nows, busy, i, removed, s). length (db_keys s))")
    (auto simp: unit_of_work_def delete_batch_def Let_def commit_checks_def BATCH_SIZE_def split: if_splits)

declare delete_expired_keys.simps [simp del]

text \<open>
  Removing by key the first \<open>n\<close> elements with property \<open>P\<close>: which elements go, how many, and that all of them
  go if there are at most \<open>n\<close>.
\<close>

lemma remove_first_by_key:
  assumes "distinct (map f xs)"
  shows "x \<in> set xs \<Longrightarrow> f x \<in> f ` set (take n (filter P xs)) \<longleftrightarrow> x \<in> set (take n (filter P xs))"
    and "length xs - length (filter (\<lambda>x. f x \<notin> f ` set (take n (filter P xs))) xs) = min n (length (filter P xs))"
proof -
  let ?T = "set (take n (filter P xs))"
  have sub: "?T \<subseteq> set xs" using set_take_subset [of n "filter P xs"] by auto
  have key: "f x \<in> f ` ?T \<longleftrightarrow> x \<in> ?T" if "x \<in> set xs" for x
    using assms that sub by (auto simp: distinct_map inj_on_def)
  then show "x \<in> set xs \<Longrightarrow> f x \<in> f ` ?T \<longleftrightarrow> x \<in> ?T" .
  have d: "distinct xs" using assms by (simp add: distinct_map)
  have "length (filter (\<lambda>x. x \<in> ?T) xs) = card ?T"
    using distinct_card [OF distinct_filter [OF d, of "\<lambda>x. x \<in> ?T"]] sub by (simp add: Collect_conj_eq Int_absorb1)
  also have "\<dots> = min n (length (filter P xs))"
    using distinct_card [OF distinct_take [OF distinct_filter [OF d]], of n P] by simp
  finally have "length (filter (\<lambda>x. f x \<in> f ` ?T) xs) = min n (length (filter P xs))"
    using filter_cong [OF refl key, of xs] by simp
  then show "length xs - length (filter (\<lambda>x. f x \<notin> f ` ?T) xs) = min n (length (filter P xs))"
    using sum_length_filter_compl [of "\<lambda>x. f x \<in> f ` ?T" xs] by simp
qed

lemma delete_batch_run:
  assumes "distinct (map ik_id (db_keys s))"
  shows "\<exists>n s'. unit_of_work (delete_batch now busy bound) s = (Inr n, s') \<and> s' = s\<lparr>db_keys := db_keys s'\<rparr>
    \<and> distinct (map ik_id (db_keys s')) \<and> n + length (db_keys s') = length (db_keys s)
    \<and> (n < bound \<longrightarrow> db_keys s' = filter (\<lambda>r. busy (ik_id r) \<or> now < ik_expires_at r) (db_keys s))
    \<and> (\<forall>later \<ge> now. filter (\<lambda>r. busy (ik_id r) \<or> later < ik_expires_at r) (db_keys s') =
         filter (\<lambda>r. busy (ik_id r) \<or> later < ik_expires_at r) (db_keys s))"
proof -
  let ?P = "\<lambda>r. ik_expires_at r \<le> now \<and> \<not> busy (ik_id r)"
  let ?T = "set (take bound (filter ?P (db_keys s)))"
  let ?kept = "filter (\<lambda>r. ik_id r \<notin> ik_id ` ?T) (db_keys s)"
  note key = remove_first_by_key [OF assms, where n = bound and P = ?P]
  have run: "unit_of_work (delete_batch now busy bound) s = (Inr (length (db_keys s) - length ?kept), s\<lparr>db_keys := ?kept\<rparr>)"
    by (simp add: unit_of_work_def delete_batch_def commit_checks_def Let_def)
  have gone: "?P r" if "r \<in> set (db_keys s)" "ik_id r \<in> ik_id ` ?T" for r
    using that key(1) [OF that(1)] by (auto dest: in_set_takeD)
  have full: "?kept = filter (\<lambda>r. busy (ik_id r) \<or> now < ik_expires_at r) (db_keys s)"
    if "length (db_keys s) - length ?kept < bound"
  proof (rule filter_cong [OF refl])
    fix r assume r: "r \<in> set (db_keys s)"
    have "?T = set (filter ?P (db_keys s))" using that key(2) by simp
    with key(1) [OF r] r show "ik_id r \<notin> ik_id ` ?T \<longleftrightarrow> busy (ik_id r) \<or> now < ik_expires_at r"
      by (simp add: not_le disj_commute)
  qed
  have later: "filter (\<lambda>r. busy (ik_id r) \<or> later < ik_expires_at r) ?kept =
      filter (\<lambda>r. busy (ik_id r) \<or> later < ik_expires_at r) (db_keys s)" if "now \<le> later" for later
    unfolding filter_filter
  proof (rule filter_cong [OF refl])
    fix r assume r: "r \<in> set (db_keys s)"
    show "(ik_id r \<notin> ik_id ` ?T \<and> (busy (ik_id r) \<or> later < ik_expires_at r)) = (busy (ik_id r) \<or> later < ik_expires_at r)"
      using gone [OF r] that by linarith
  qed
  show ?thesis
    using run full later assms
    by (intro exI [of _ "length (db_keys s) - length ?kept"] exI [of _ "s\<lparr>db_keys := ?kept\<rparr>"])
      (simp add: distinct_map_filter)
qed

text \<open>
  C38: the cleanup ends, and deletes exactly the expired keys. For any number of keys it returns; some batch was
  its last, and what remains are the keys that had not expired by then and those locked by running requests,
  in order; the count is the number of deleted rows.
\<close>

theorem cleanup_deletes_exactly_expired:
  assumes "distinct (map ik_id (db_keys s))" "mono nows"
  shows "\<exists>j n s'. delete_expired_keys nows busy i removed s = (Inr (removed + n), s') \<and> i \<le> j
    \<and> db_keys s' = filter (\<lambda>r. busy (ik_id r) \<or> nows j < ik_expires_at r) (db_keys s)
    \<and> n + length (db_keys s') = length (db_keys s)"
  using assms
proof (induction nows busy i removed s rule: delete_expired_keys.induct)
  case (1 nows busy i removed s)
  from delete_batch_run [OF "1.prems"(1), of "nows i" busy BATCH_SIZE] obtain n s1 where
    run: "unit_of_work (delete_batch (nows i) busy BATCH_SIZE) s = (Inr n, s1)"
    and s1: "distinct (map ik_id (db_keys s1))" "n + length (db_keys s1) = length (db_keys s)"
      "n < BATCH_SIZE \<longrightarrow> db_keys s1 = filter (\<lambda>r. busy (ik_id r) \<or> nows i < ik_expires_at r) (db_keys s)"
      "\<forall>later \<ge> nows i. filter (\<lambda>r. busy (ik_id r) \<or> later < ik_expires_at r) (db_keys s1) =
         filter (\<lambda>r. busy (ik_id r) \<or> later < ik_expires_at r) (db_keys s)"
    by blast
  show ?case
  proof (cases "n < BATCH_SIZE")
    case True
    with run s1(2,3) show ?thesis
      by (subst delete_expired_keys.simps) auto
  next
    case False
    then obtain j m s' where IH: "delete_expired_keys nows busy (Suc i) (removed + n) s1 = (Inr (removed + n + m), s')" "Suc i \<le> j"
      "db_keys s' = filter (\<lambda>r. busy (ik_id r) \<or> nows j < ik_expires_at r) (db_keys s1)" "m + length (db_keys s') = length (db_keys s1)"
      using "1.IH" [OF run [symmetric] refl False s1(1) "1.prems"(2)] by blast
    have "nows i \<le> nows j" using IH(2) "1.prems"(2) by (simp add: monoD)
    with False run IH s1 show ?thesis
      by (subst delete_expired_keys.simps) (intro exI [of _ j] exI [of _ "n + m"] exI [of _ s'], simp)
  qed
qed

text \<open>Two expired keys, the second one locked by a request, and one that is still valid.\<close>

definition three_keys :: "idempotency_key list" where
  "three_keys = [expired_row, expired_row\<lparr>ik_id := 2, ik_key := ''key-2''\<rparr>,
     expired_row\<lparr>ik_id := 3, ik_key := ''key-3'', ik_expires_at := 1000\<rparr>]"

theorem cleanup_deletes_exactly_expired_witness:
  "\<exists>s'. delete_expired_keys (\<lambda>_. 500) (\<lambda>i. i = 2) 0 0 (empty_db\<lparr>db_keys := three_keys\<rparr>) = (Inr 1, s')
    \<and> map ik_id (db_keys s') = [2, 3]"
proof -
  from cleanup_deletes_exactly_expired [of "empty_db\<lparr>db_keys := three_keys\<rparr>" "\<lambda>_. 500" "\<lambda>i. i = 2" 0 0]
  obtain n s' where "delete_expired_keys (\<lambda>_. 500) (\<lambda>i. i = 2) 0 0 (empty_db\<lparr>db_keys := three_keys\<rparr>) = (Inr (0 + n), s')"
    "db_keys s' = filter (\<lambda>r. ik_id r = 2 \<or> 500 < ik_expires_at r) three_keys" "n + length (db_keys s') = length three_keys"
    by (force simp: three_keys_def expired_row_def mono_def)
  then show ?thesis
    by (simp add: three_keys_def expired_row_def)
qed

end
