(* ===== verification/Rate_Limiter.thy ===== *)
theory Rate_Limiter
  imports Domain
begin

text \<open>
  The fixed-window rate limiter, \<^verbatim>\<open>app/cache/rate_limiter.py\<close>. The clock is a number of microseconds; the
  pipeline \<^verbatim>\<open>INCR\<close>, \<^verbatim>\<open>EXPIRE\<close> of the Redis client is an argument that returns the counter, or \<open>None\<close> for a Redis
  error. What the limiter relies on is \<open>expiring_counter\<close>: the counter of a key grows by one per call, and the
  server keeps it for the seconds given to \<^verbatim>\<open>EXPIRE\<close> and not longer.
\<close>

record rate_limit_decision =
  rd_allowed :: bool
  rd_limit :: int
  rd_remaining :: int
  rd_retry_after_seconds :: int

record rate_limiter =
  rl_scope :: string
  rl_limit :: int
  rl_window_seconds :: int

type_synonym 'r pipeline = "string \<Rightarrow> int \<Rightarrow> 'r \<Rightarrow> int option \<times> 'r"

text \<open>\<^verbatim>\<open>math.ceil\<close> of a number of microseconds, in seconds.\<close>

definition ceil_seconds :: "int \<Rightarrow> int" where
  "ceil_seconds us = - ((- us) div 1000000)"

definition window_of :: "rate_limiter \<Rightarrow> moment \<Rightarrow> int" where
  "window_of rl now = now div (rl_window_seconds rl * 1000000)"

definition window_key :: "rate_limiter \<Rightarrow> string \<Rightarrow> int \<Rightarrow> string" where
  "window_key rl subject window = ''ratelimit:'' @ rl_scope rl @ '':'' @ subject @ '':'' @ show_int window"

definition retry_after :: "rate_limiter \<Rightarrow> moment \<Rightarrow> int" where
  "retry_after rl now = max 1 (ceil_seconds ((window_of rl now + 1) * rl_window_seconds rl * 1000000 - now))"

definition hit :: "'r pipeline \<Rightarrow> rate_limiter \<Rightarrow> moment \<Rightarrow> string \<Rightarrow> 'r \<Rightarrow> rate_limit_decision \<times> 'r" where
  "hit pipe rl now subject w =
     (case pipe (window_key rl subject (window_of rl now)) (rl_window_seconds rl + 1) w of
        (None, w') \<Rightarrow> (\<lparr>rd_allowed = True, rd_limit = rl_limit rl, rd_remaining = rl_limit rl, rd_retry_after_seconds = 0\<rparr>, w')
      | (Some count, w') \<Rightarrow>
          (\<lparr>rd_allowed = (count \<le> rl_limit rl), rd_limit = rl_limit rl, rd_remaining = max 0 (rl_limit rl - count),
            rd_retry_after_seconds = retry_after rl now\<rparr>, w'))"




section \<open>Correctness\<close>





text \<open>With the server down the request is allowed.\<close>

lemma hit_fails_open:
  "fst (pipe (window_key rl subject (window_of rl now)) (rl_window_seconds rl + 1) w) = None \<Longrightarrow> rd_allowed (fst (hit pipe rl now subject w))"
  by (auto simp: hit_def split: prod.splits)






end
