(* ===== verification/Config.thy ===== *)
theory Config
  imports Idempotency Verification_Loop Rate_Limiter
begin

text \<open>
  The settings of \<^verbatim>\<open>app/config.py\<close> that the services use, their validators, and how \<^verbatim>\<open>app/api/deps.py\<close>,
  \<^verbatim>\<open>app/partners/registry.py\<close> and \<^verbatim>\<open>ReconciliationPolicy.from_settings\<close> turn them into the parameters of the services.
  Settings that are floats are rational numbers. Reading the environment and connection set-up are not modelled.
\<close>

datatype environment = Local | Docker | Test | Production

record partner_settings =
  ps_retry_max_attempts :: int
  ps_retry_base_delay_ms :: int
  ps_retry_max_delay_ms :: int
  ps_total_deadline_seconds :: rat
  ps_breaker_failure_threshold :: int
  ps_breaker_cooldown_seconds :: rat

record service_settings =
  ss_rate_limit_transfers_per_window :: int
  ss_rate_limit_window_seconds :: int
  ss_idempotency_ttl_seconds :: int
  ss_idempotency_lock_ttl_ms :: int
  ss_rate_cache_ttl_seconds :: int
  ss_quote_ttl_seconds :: int
  ss_max_transfer_points :: int

record reconciliation_settings =
  rs_initial_delay_seconds :: int
  rs_interval_seconds :: rat
  rs_batch_size :: int
  rs_lease_seconds :: int
  rs_stuck_after_seconds :: int
  rs_not_found_grace_seconds :: int
  rs_max_attempts :: int
  rs_backoff_base_seconds :: int
  rs_backoff_max_seconds :: int

record settings =
  se_environment :: environment
  se_admin_api_key :: string
  se_partner :: partner_settings
  se_service :: service_settings
  se_reconciliation :: reconciliation_settings

definition DEFAULT_ADMIN_API_KEY :: string where
  "DEFAULT_ADMIN_API_KEY = ''change-me-admin-key''"

definition default_partner_settings :: partner_settings where
  "default_partner_settings = \<lparr>ps_retry_max_attempts = 3, ps_retry_base_delay_ms = 100, ps_retry_max_delay_ms = 1000,
     ps_total_deadline_seconds = 8, ps_breaker_failure_threshold = 5, ps_breaker_cooldown_seconds = 30\<rparr>"

definition default_service_settings :: service_settings where
  "default_service_settings = \<lparr>ss_rate_limit_transfers_per_window = 30, ss_rate_limit_window_seconds = 60,
     ss_idempotency_ttl_seconds = 86400, ss_idempotency_lock_ttl_ms = 30000, ss_rate_cache_ttl_seconds = 60,
     ss_quote_ttl_seconds = 60, ss_max_transfer_points = 1000000\<rparr>"

definition default_reconciliation_settings :: reconciliation_settings where
  "default_reconciliation_settings = \<lparr>rs_initial_delay_seconds = 10, rs_interval_seconds = 5, rs_batch_size = 50,
     rs_lease_seconds = 60, rs_stuck_after_seconds = 60, rs_not_found_grace_seconds = 60, rs_max_attempts = 5,
     rs_backoff_base_seconds = 10, rs_backoff_max_seconds = 600\<rparr>"

definition default_settings :: settings where
  "default_settings = \<lparr>se_environment = Local, se_admin_api_key = DEFAULT_ADMIN_API_KEY, se_partner = default_partner_settings,
     se_service = default_service_settings, se_reconciliation = default_reconciliation_settings\<rparr>"

text \<open>\<^verbatim>\<open>PositiveInt\<close> and \<^verbatim>\<open>PositiveFloat\<close>.\<close>

definition fields_positive :: "settings \<Rightarrow> bool" where
  "fields_positive st =
     (let p = se_partner st; v = se_service st; r = se_reconciliation st in
      0 < ps_retry_max_attempts p \<and> 0 < ps_retry_base_delay_ms p \<and> 0 < ps_retry_max_delay_ms p
      \<and> 0 < ps_total_deadline_seconds p \<and> 0 < ps_breaker_failure_threshold p \<and> 0 < ps_breaker_cooldown_seconds p
      \<and> 0 < ss_rate_limit_transfers_per_window v \<and> 0 < ss_rate_limit_window_seconds v \<and> 0 < ss_idempotency_ttl_seconds v
      \<and> 0 < ss_idempotency_lock_ttl_ms v \<and> 0 < ss_rate_cache_ttl_seconds v \<and> 0 < ss_quote_ttl_seconds v
      \<and> 0 < ss_max_transfer_points v \<and> 0 < rs_initial_delay_seconds r \<and> 0 < rs_interval_seconds r \<and> 0 < rs_batch_size r
      \<and> 0 < rs_lease_seconds r \<and> 0 < rs_stuck_after_seconds r \<and> 0 < rs_not_found_grace_seconds r \<and> 0 < rs_max_attempts r
      \<and> 0 < rs_backoff_base_seconds r \<and> 0 < rs_backoff_max_seconds r)"

definition reconciliation_windows_outlast_partner_calls :: "settings \<Rightarrow> settings result" where
  "reconciliation_windows_outlast_partner_calls st =
     (let deadline = ps_total_deadline_seconds (se_partner st); r = se_reconciliation st in
      bindE (raise_if (of_int (rs_stuck_after_seconds r) \<le> deadline)
        (ValueError ''RECONCILIATION_STUCK_AFTER_SECONDS must be greater than PARTNER_TOTAL_DEADLINE_SECONDS'')) (\<lambda>_.
      bindE (raise_if (of_int (rs_not_found_grace_seconds r) \<le> deadline)
        (ValueError ''RECONCILIATION_NOT_FOUND_GRACE_SECONDS must be greater than PARTNER_TOTAL_DEADLINE_SECONDS'')) (\<lambda>_.
      bindE (raise_if (of_int (rs_lease_seconds r) \<le> deadline)
        (ValueError ''RECONCILIATION_LEASE_SECONDS must be greater than PARTNER_TOTAL_DEADLINE_SECONDS'')) (\<lambda>_.
      Inr st))))"

definition no_default_secrets_in_production :: "settings \<Rightarrow> settings result" where
  "no_default_secrets_in_production st =
     (if se_environment st = Production \<and> se_admin_api_key st = DEFAULT_ADMIN_API_KEY
      then Inl (ValueError ''ADMIN_API_KEY must be changed from its default in production'') else Inr st)"

definition validate_settings :: "settings \<Rightarrow> settings result" where
  "validate_settings st =
     bindE (raise_if (\<not> fields_positive st) (ValueError ''Input should be greater than 0'')) (\<lambda>_.
     bindE (reconciliation_windows_outlast_partner_calls st) no_default_secrets_in_production)"

section \<open>Wiring\<close>

abbreviation seconds :: "int \<Rightarrow> duration" where
  "seconds n \<equiv> n * 1000000"

definition from_settings :: "settings \<Rightarrow> reconciliation_policy" where
  "from_settings st =
     (let r = se_reconciliation st in
      \<lparr>po_lease = seconds (rs_lease_seconds r), po_stuck_after = seconds (rs_stuck_after_seconds r),
       po_not_found_grace = seconds (rs_not_found_grace_seconds r), po_max_attempts = rs_max_attempts r,
       po_backoff_base = seconds (rs_backoff_base_seconds r), po_backoff_max = seconds (rs_backoff_max_seconds r)\<rparr>)"

definition get_transfer_service :: "'w partner_registry \<Rightarrow> settings \<Rightarrow> 'w transfer_service" where
  "get_transfer_service partners st =
     \<lparr>sv_partners = partners, sv_verification_delay = seconds (rs_initial_delay_seconds (se_reconciliation st)),
      sv_max_transfer_points = Some (ss_max_transfer_points (se_service st))\<rparr>"

definition get_idempotency_service :: "settings \<Rightarrow> idempotency_service" where
  "get_idempotency_service st =
     \<lparr>is_key_ttl = seconds (ss_idempotency_ttl_seconds (se_service st)),
      is_lock_ttl = ss_idempotency_lock_ttl_ms (se_service st) * 1000\<rparr>"

definition partner_config_of :: "settings \<Rightarrow> resilient_config" where
  "partner_config_of st =
     \<lparr>rz_retry = \<lparr>rp_max_attempts = ps_retry_max_attempts (se_partner st),
        rp_base_delay_seconds = of_int (ps_retry_base_delay_ms (se_partner st)) / 1000,
        rp_max_delay_seconds = of_int (ps_retry_max_delay_ms (se_partner st)) / 1000\<rparr>,
      rz_deadline_seconds = ps_total_deadline_seconds (se_partner st)\<rparr>"

definition transfer_limiter :: "settings \<Rightarrow> rate_limiter" where
  "transfer_limiter st =
     \<lparr>rl_scope = ''transfers'', rl_limit = ss_rate_limit_transfers_per_window (se_service st),
      rl_window_seconds = ss_rate_limit_window_seconds (se_service st)\<rparr>"

text \<open>\<^verbatim>\<open>enforce_transfer_rate_limit\<close>\<close>

definition enforce_transfer_rate_limit ::
  "'r pipeline \<Rightarrow> settings \<Rightarrow> moment \<Rightarrow> string \<Rightarrow> 'r \<Rightarrow> unit result \<times> 'r" where
  "enforce_transfer_rate_limit pipe st now user_id w =
     (case hit pipe (transfer_limiter st) now user_id w of
        (d, w') \<Rightarrow>
          if rd_allowed d then (Inr (), w')
          else (Inl (DomainError \<lparr>err_code = RATE_LIMITED,
            err_detail = ''At most '' @ show_int (rd_limit d) @ '' transfers per ''
              @ show_int (ss_rate_limit_window_seconds (se_service st)) @ '' s.'',
            err_headers = [(''Retry-After'', show_int (rd_retry_after_seconds d))],
            err_extra = [(''retry_after_seconds'', JInt (rd_retry_after_seconds d))]\<rparr>), w'))"

section \<open>Windows and calls\<close>

text \<open>The time between the creation of a transfer and its partner call that the windows leave room for.\<close>

definition call_slack :: "settings \<Rightarrow> rat" where
  "call_slack st = of_int (min (rs_stuck_after_seconds (se_reconciliation st)) (rs_not_found_grace_seconds (se_reconciliation st)))
     - ps_total_deadline_seconds (se_partner st)"

text \<open>\<open>call_running st b now\<close>: a partner call that began at \<open>b\<close> may still run at \<open>now\<close>.\<close>

definition call_running :: "settings \<Rightarrow> moment \<Rightarrow> moment \<Rightarrow> bool" where
  "call_running st b now = (of_int (now - b) \<le> ps_total_deadline_seconds (se_partner st) * 1000000)"

lemma validate_settings_Inr:
  assumes "validate_settings st = Inr st'"
  shows "st' = st" "fields_positive st" "0 < call_slack st"
    "ps_total_deadline_seconds (se_partner st) < of_int (rs_lease_seconds (se_reconciliation st))"
  using assms
  by (auto simp: validate_settings_def reconciliation_windows_outlast_partner_calls_def no_default_secrets_in_production_def
      Let_def result_simps call_slack_def of_int_min split: if_splits)

lemma call_window:
  assumes "call_running st b now" "of_int (b - created) < call_slack st * 1000000"
  shows "now < created + seconds (rs_stuck_after_seconds (se_reconciliation st))"
    "now < created + seconds (rs_not_found_grace_seconds (se_reconciliation st))"
proof -
  let ?m = "min (rs_stuck_after_seconds (se_reconciliation st)) (rs_not_found_grace_seconds (se_reconciliation st))"
  have "(of_int (now - created) :: rat) < of_int (?m * 1000000)"
    using assms by (simp add: call_running_def call_slack_def algebra_simps)
  then have "now - created < ?m * 1000000" by (simp only: of_int_less_iff)
  then show "now < created + seconds (rs_stuck_after_seconds (se_reconciliation st))"
    "now < created + seconds (rs_not_found_grace_seconds (se_reconciliation st))" by linarith+
qed

lemma find_known: "i \<in> f ` set xs \<Longrightarrow> \<exists>x. find (\<lambda>x. f x = i) xs = Some x"
  by (cases "find (\<lambda>x. f x = i) xs") (auto simp: find_None_iff)

text \<open>
  C26: the reconciler leaves live calls alone. With settings that pass validation there is room between the creation
  of a transfer and its partner call; if the call begins within it, then as long as the call may run the transfer is
  not due, a reconciliation of it answers NOT_DUE and changes nothing, and the partner's answer that it has no such
  credit does not reverse it.
\<close>

theorem live_calls_left_alone:
  assumes "validate_settings st = Inr st'" "policy = from_settings st"
    and "find (\<lambda>t. tr_id t = tid) (db_transfers s) = Some t" "tr_status t \<in> {SOURCE_DEBITED, PARTNER_SUBMITTED}"
    and "tr_source_program_id t \<in> prg_id ` set (db_programs s)" "tr_destination_program_id t \<in> prg_id ` set (db_programs s)"
    and "call_running st b now" "of_int (b - tr_created_at t) < call_slack st * 1000000"
    and "tm_now tm 0 = now" "st_status r = STATUS_NOT_FOUND"
  shows "0 < call_slack st \<and> \<not> due policy now t \<and> reconcile partners policy tm others tid s w = (Inr R_NOT_DUE, s, w)
    \<and> (\<forall>out s'. unit_of_work (apply_status policy dbnow wall now tid r) s = (Inr out, s')
        \<longrightarrow> out \<noteq> R_REVERSED \<and> db_accounts s' = db_accounts s)"
proof -
  note window = call_window [OF assms(7,8)]
  have stuck: "tr_status t \<in> set STUCK_STATUSES" using assms(4) by (auto simp: STUCK_STATUSES_def)
  have late: "tr_created_at t > now - po_stuck_after policy" "now < tr_created_at t + po_not_found_grace policy"
    using window assms(2) by (simp_all add: from_settings_def Let_def)
  have "\<not> due policy now t"
    using late(1) assms(4) by (auto simp: due_def)
  moreover have "reconcile partners policy tm others tid s w = (Inr R_NOT_DUE, s, w)"
  proof -
    obtain p q where "find (\<lambda>p. prg_id p = tr_source_program_id t) (db_programs s) = Some p"
      "find (\<lambda>p. prg_id p = tr_destination_program_id t) (db_programs s) = Some q"
      using find_known [OF assms(5)] find_known [OF assms(6)] by blast
    then obtain sn where "snapshot s tid = Inr sn" "sn_status sn = tr_status t" "sn_created_at sn = tr_created_at t"
      using assms(3) by (simp add: snapshot_def)
    then show ?thesis using stuck late(1) assms(9) by (simp add: reconcile_def)
  qed
  moreover have "out \<noteq> R_REVERSED \<and> db_accounts s' = db_accounts s"
    if run: "unit_of_work (apply_status policy dbnow wall now tid r) s = (Inr out, s')" for out s'
  proof -
    have "lock_transfer s tid = Inr t" using assms(3) by (simp add: lock_transfer_def)
    then have "(tr_status t \<notin> set VERIFIABLE_STATUSES \<and> out = R_ALREADY_RESOLVED \<and> s' = s)
        \<or> (\<exists>step. recheck_after_grace policy wall now (tr_created_at t + po_not_found_grace policy) t (status_metadata r t) = Inr step
            \<and> commit_changes dbnow s t step = Inr (out, s'))"
      using assms(10) run late(2)
      by (auto simp: unit_of_work_Inr_iff apply_status_def Let_def result_simps split: if_splits)
    then show ?thesis
      by (auto simp: recheck_after_grace_def commit_changes_def result_simps dest!: flush_changes_ledger split: prod.splits)
  qed
  ultimately show ?thesis using validate_settings_Inr(3) [OF assms(1)] by blast
qed

theorem live_calls_left_alone_witness:
  "reconcile \<lparr>rg_default = None, rg_adapters = []\<rparr> (from_settings default_settings)
     \<lparr>tm_db = (\<lambda>_. 12), tm_wall = (\<lambda>_. 12), tm_now = (\<lambda>_. 12)\<rparr> (\<lambda>_ s. s) sample_id submitted_db () = (Inr R_NOT_DUE, submitted_db, ())"
proof -
  have st: "validate_settings default_settings = Inr default_settings" by code_simp
  have progs: "tr_source_program_id (sample_row PARTNER_SUBMITTED 10) \<in> prg_id ` set (db_programs submitted_db)"
    "tr_destination_program_id (sample_row PARTNER_SUBMITTED 10) \<in> prg_id ` set (db_programs submitted_db)"
    by code_simp+
  have flight: "call_running default_settings 10 12"
    "of_int (10 - tr_created_at (sample_row PARTNER_SUBMITTED 10)) < call_slack default_settings * 1000000"
    by code_simp+
  show ?thesis
    using live_calls_left_alone [OF st refl, of sample_id submitted_db "sample_row PARTNER_SUBMITTED 10" 10 12,
        where r = "mk_status STATUS_NOT_FOUND ''credit_not_found'' False None (Some 404)"
        and tm = "\<lparr>tm_db = (\<lambda>_. 12), tm_wall = (\<lambda>_. 12), tm_now = (\<lambda>_. 12)\<rparr>"
        and partners = "\<lparr>rg_default = None, rg_adapters = []\<rparr>" and others = "\<lambda>_ s. s" and w = "()"] progs flight
    by simp
qed

text \<open>
  The room is exact: a call that begins later than that may still run when its transfer becomes due.
\<close>

lemma due_during_call:
  assumes "tr_status t = PARTNER_SUBMITTED" "tr_next_verification_at t = None"
    and "b = tr_created_at t + seconds (rs_stuck_after_seconds (se_reconciliation st)) - d"
    and "of_int d \<le> ps_total_deadline_seconds (se_partner st) * 1000000"
    and "now = tr_created_at t + seconds (rs_stuck_after_seconds (se_reconciliation st))"
  shows "call_running st b now \<and> due (from_settings st) now t"
  using assms by (simp add: call_running_def due_def from_settings_def Let_def STUCK_STATUSES_def)

end
