(* ===== verification/Worker.thy ===== *)
theory Worker
  imports Config
begin

text \<open>
  The reconciler process, \<^verbatim>\<open>app/workers/reconciler.py\<close>: the loop of \<^verbatim>\<open>run\<close> around \<^verbatim>\<open>run_once\<close>. A round is described by
  what it meets: its clock readings, what other processes commit, which rows are locked, when the stop flag is
  seen. The process may run for ever, so the loop has fuel; \<open>None\<close> is a loop still running.
\<close>

record worker_round =
  wr_tm :: "nat \<Rightarrow> timing"
  wr_others :: "nat \<Rightarrow> nat \<Rightarrow> db \<Rightarrow> db"
  wr_busy :: "string \<Rightarrow> bool"
  wr_stop :: "nat \<Rightarrow> bool"
  wr_meanwhile :: "db \<Rightarrow> db"
  wr_backlog_read :: "unit result"

text \<open>The two gauges.\<close>

record worker_metrics =
  wm_pending_verification :: int
  wm_manual_review :: int

text \<open>
  One round: a failing \<^verbatim>\<open>run_once\<close> or a failing read of the backlog is logged, and the gauges keep their values.
  Others commit before the backlog is read.
\<close>

definition worker_round_step ::
  "'w partner_registry \<Rightarrow> settings \<Rightarrow> worker_round \<Rightarrow> db \<times> worker_metrics \<times> 'w \<Rightarrow> db \<times> worker_metrics \<times> 'w" where
  "worker_round_step partners st rd state =
     (case state of (s, m, w) \<Rightarrow>
        case run_once partners (from_settings st) (wr_tm rd) (wr_others rd) (wr_busy rd)
               (nat (rs_batch_size (se_reconciliation st))) (wr_stop rd) s w of
          (Inl _, s1, w1) \<Rightarrow> (wr_meanwhile rd s1, m, w1)
        | (Inr _, s1, w1) \<Rightarrow>
            (let s2 = wr_meanwhile rd s1 in
             case wr_backlog_read rd of
               Inl _ \<Rightarrow> (s2, m, w1)
             | Inr _ \<Rightarrow>
                 (case (map_of (count_backlog s2) PENDING_VERIFICATION, map_of (count_backlog s2) MANUAL_REVIEW) of
                    (Some p, Some q) \<Rightarrow> (s2, \<lparr>wm_pending_verification = p, wm_manual_review = q\<rparr>, w1)
                  | _ \<Rightarrow> (s2, m, w1))))"

text \<open>\<open>stop n\<close>: the flag is set when the loop condition is evaluated for the \<open>n\<close>-th time.\<close>

fun worker_run ::
  "nat \<Rightarrow> 'w partner_registry \<Rightarrow> settings \<Rightarrow> (nat \<Rightarrow> worker_round) \<Rightarrow> (nat \<Rightarrow> bool) \<Rightarrow> nat \<Rightarrow> db \<times> worker_metrics \<times> 'w
    \<Rightarrow> (db \<times> worker_metrics \<times> 'w) option" where
  "worker_run 0 partners st rounds stop n state = None"
| "worker_run (Suc fuel) partners st rounds stop n state =
     (if stop n then Some state
      else worker_run fuel partners st rounds stop (Suc n) (worker_round_step partners st (rounds n) state))"

text \<open>
  The process ends exactly when it is told to: if the flag is first seen at the \<open>n\<close>-th evaluation, \<open>n\<close> rounds were run,
  failing ones included, and any fuel above \<open>n\<close> is enough.
\<close>

lemma worker_run_stops:
  assumes "stop (i + n)" "\<forall>k < n. \<not> stop (i + k)" "n < fuel"
  shows "worker_run fuel partners st rounds stop i state
    = Some (fold (\<lambda>k. worker_round_step partners st (rounds k)) [i..<i + n] state)"
  using assms
proof (induction n arbitrary: i fuel state)
  case 0
  then show ?case by (cases fuel) simp_all
next
  case (Suc n)
  then obtain f where f: "fuel = Suc f" by (cases fuel) auto
  have "\<not> stop i" using Suc.prems(2) by (metis add_0_right zero_less_Suc)
  moreover have "\<forall>k < n. \<not> stop (Suc i + k)" using Suc.prems(2) by auto
  moreover have "[i..<i + Suc n] = i # [Suc i..<Suc i + n]" using upt_conv_Cons [of i "i + Suc n"] by simp
  ultimately show ?case
    using Suc.IH [of "Suc i" f] Suc.prems(1,3) f by (simp del: upt_Suc)
qed

text \<open>The gauges show the rows of the database they were read from.\<close>

lemma worker_gauges:
  assumes "run_once partners (from_settings st) (wr_tm rd) (wr_others rd) (wr_busy rd)
      (nat (rs_batch_size (se_reconciliation st))) (wr_stop rd) s w = (Inr summary, s1, w1)" "wr_backlog_read rd = Inr ()"
  shows "worker_round_step partners st rd (s, m, w) = (wr_meanwhile rd s1,
    \<lparr>wm_pending_verification = int (length (filter (\<lambda>t. tr_status t = PENDING_VERIFICATION) (db_transfers (wr_meanwhile rd s1)))),
     wm_manual_review = int (length (filter (\<lambda>t. tr_status t = MANUAL_REVIEW) (db_transfers (wr_meanwhile rd s1))))\<rparr>, w1)"
  using assms by (simp add: worker_round_step_def count_backlog_def Let_def)

end
