(* ===== verification/Json_Text.thy ===== *)
theory Json_Text
  imports Fingerprint
begin

text \<open>
  JSON texts in the default style of Python's \<^verbatim>\<open>json\<close> module: \<^verbatim>\<open>json.dumps\<close>, as cursors and cached routes use it,
  and \<^verbatim>\<open>json.loads\<close>. Numbers are integers and characters are code points below 256; texts beyond that are
  refused by the parser here. The parser has fuel, and the length of the text is always enough.
\<close>

section \<open>Writing\<close>

definition escape_ascii :: "char \<Rightarrow> string" where
  "escape_ascii c =
     (let n = (of_char c :: nat) in
      if n < 127 then escape_char c
      else [CHR 0x5C, CHR ''u'', CHR ''0'', CHR ''0'', hex_digit (n div 16), hex_digit (n mod 16)])"

definition quoted :: "string \<Rightarrow> string" where
  "quoted s = CHR 0x22 # concat (map escape_ascii s) @ [CHR 0x22]"

fun json_text :: "json \<Rightarrow> string" where
  "json_text JNull = ''null''"
| "json_text (JBool b) = (if b then ''true'' else ''false'')"
| "json_text (JInt i) = show_int i"
| "json_text (JStr s) = quoted s"
| "json_text (JArr xs) = ''['' @ join '', '' (map json_text xs) @ '']''"
| "json_text (JObj kvs) = ''{'' @ join '', '' (map (\<lambda>(k, v). quoted k @ '': '' @ json_text v) kvs) @ ''}''"

section \<open>Reading\<close>

definition is_space :: "char \<Rightarrow> bool" where
  "is_space c = (c = CHR '' '' \<or> c = CHR 0x09 \<or> c = CHR 0x0A \<or> c = CHR 0x0D)"

definition skip_ws :: "string \<Rightarrow> string" where
  "skip_ws s = dropWhile is_space s"

text \<open>The rest of the text after white space and the given mark.\<close>

definition mark :: "char \<Rightarrow> string \<Rightarrow> string option" where
  "mark c s = (case skip_ws s of [] \<Rightarrow> None | d # r \<Rightarrow> if d = c then Some r else None)"

definition hex_value :: "char \<Rightarrow> nat option" where
  "hex_value c =
     (let n = (of_char c :: nat) in
      if is_digit c then Some (n - 48)
      else if 97 \<le> n \<and> n \<le> 102 then Some (n - 87)
      else if 65 \<le> n \<and> n \<le> 70 then Some (n - 55)
      else None)"

definition hex4 :: "char \<Rightarrow> char \<Rightarrow> char \<Rightarrow> char \<Rightarrow> nat option" where
  "hex4 a b c d =
     Option.bind (hex_value a) (\<lambda>x. Option.bind (hex_value b) (\<lambda>y. Option.bind (hex_value c) (\<lambda>z.
     Option.bind (hex_value d) (\<lambda>w. Some (4096 * x + 256 * y + 16 * z + w)))))"

definition unescape :: "char \<Rightarrow> char option" where
  "unescape e =
     (if e = CHR 0x22 \<or> e = CHR 0x5C \<or> e = CHR ''/'' then Some e
      else if e = CHR ''b'' then Some (CHR 0x08) else if e = CHR ''f'' then Some (CHR 0x0C)
      else if e = CHR ''n'' then Some (CHR 0x0A) else if e = CHR ''r'' then Some (CHR 0x0D)
      else if e = CHR ''t'' then Some (CHR 0x09) else None)"

text \<open>The characters of a string after its opening quote, and the rest of the text.\<close>

fun parse_chars :: "string \<Rightarrow> (string \<times> string) option" where
  "parse_chars [] = None"
| "parse_chars (c # s) =
     (if c = CHR 0x22 then Some ([], s)
      else if c = CHR 0x5C then
        (case s of
           [] \<Rightarrow> None
         | e # s1 \<Rightarrow>
             if e = CHR ''u'' then
               (case s1 of
                  h1 # h2 # h3 # h4 # s2 \<Rightarrow>
                    (case hex4 h1 h2 h3 h4 of
                       None \<Rightarrow> None
                     | Some n \<Rightarrow> if n < 256 then map_option (\<lambda>(t, r). (char_of n # t, r)) (parse_chars s2) else None)
                | _ \<Rightarrow> None)
             else (case unescape e of None \<Rightarrow> None | Some x \<Rightarrow> map_option (\<lambda>(t, r). (x # t, r)) (parse_chars s1)))
      else if (of_char c :: nat) < 32 then None
      else map_option (\<lambda>(t, r). (c # t, r)) (parse_chars s))"

definition parse_digits :: "string \<Rightarrow> (nat \<times> string) option" where
  "parse_digits s =
     (case s of
        [] \<Rightarrow> None
      | c # r \<Rightarrow> if \<not> is_digit c then None
                 else if c = CHR ''0'' then Some (0, r)
                 else Some (read_nat (takeWhile is_digit s), dropWhile is_digit s))"

definition parse_scalar :: "string \<Rightarrow> (json \<times> string) option" where
  "parse_scalar s =
     (if take 4 s = ''null'' then Some (JNull, drop 4 s)
      else if take 4 s = ''true'' then Some (JBool True, drop 4 s)
      else if take 5 s = ''false'' then Some (JBool False, drop 5 s)
      else if take 1 s = ''-'' then map_option (\<lambda>(n, r). (JInt (- int n), r)) (parse_digits (drop 1 s))
      else map_option (\<lambda>(n, r). (JInt (int n), r)) (parse_digits s))"

text \<open>
  Values, the elements of an array after its bracket and the members of an object after its brace. A repeated
  member replaces the earlier one, as in a Python dictionary.
\<close>

fun parse_value :: "nat \<Rightarrow> string \<Rightarrow> (json \<times> string) option"
  and parse_elements :: "nat \<Rightarrow> json list \<Rightarrow> string \<Rightarrow> (json \<times> string) option"
  and parse_members :: "nat \<Rightarrow> (string \<times> json) list \<Rightarrow> string \<Rightarrow> (json \<times> string) option" where
  "parse_value 0 s = None"
| "parse_value (Suc k) s =
     (case s of
        [] \<Rightarrow> None
      | c # r \<Rightarrow>
          if c = CHR 0x22 then map_option (\<lambda>(t, r'). (JStr t, r')) (parse_chars r)
          else if c = CHR ''['' then
            (case mark CHR '']'' r of Some r' \<Rightarrow> Some (JArr [], r') | None \<Rightarrow> parse_elements k [] (skip_ws r))
          else if c = CHR ''{'' then
            (case mark CHR ''}'' r of Some r' \<Rightarrow> Some (JObj [], r') | None \<Rightarrow> parse_members k [] (skip_ws r))
          else parse_scalar s)"
| "parse_elements 0 acc s = None"
| "parse_elements (Suc k) acc s =
     Option.bind (parse_value k s) (\<lambda>(v, r).
       case mark CHR '']'' r of
         Some r' \<Rightarrow> Some (JArr (acc @ [v]), r')
       | None \<Rightarrow> Option.bind (mark CHR '','' r) (\<lambda>r'. parse_elements k (acc @ [v]) (skip_ws r')))"
| "parse_members 0 acc s = None"
| "parse_members (Suc k) acc s =
     Option.bind (mark CHR 0x22 s) (\<lambda>r.
     Option.bind (parse_chars r) (\<lambda>(key, r1).
     Option.bind (mark CHR '':'' r1) (\<lambda>r2.
     Option.bind (parse_value k (skip_ws r2)) (\<lambda>(v, r3).
       case mark CHR ''}'' r3 of
         Some r' \<Rightarrow> Some (JObj (dict_set key v acc), r')
       | None \<Rightarrow> Option.bind (mark CHR '','' r3) (\<lambda>r'. parse_members k (dict_set key v acc) (skip_ws r'))))))"

definition json_loads :: "string \<Rightarrow> json option" where
  "json_loads s =
     (case parse_value (Suc (2 * length s)) (skip_ws s) of
        None \<Rightarrow> None
      | Some (v, r) \<Rightarrow> if skip_ws r = [] then Some v else None)"

section \<open>Reading back what was written\<close>

lemma skip_ws_simps [simp]:
  "skip_ws [] = []" "is_space c \<Longrightarrow> skip_ws (c # s) = skip_ws s" "\<not> is_space c \<Longrightarrow> skip_ws (c # s) = c # s"
  by (simp_all add: skip_ws_def)

lemma is_space_simps [simp]:
  "is_space CHR '' ''" "\<not> is_space CHR '',''" "\<not> is_space CHR '':''" "\<not> is_space CHR '']''" "\<not> is_space CHR ''}''"
  "\<not> is_space CHR 0x22" "\<not> is_space CHR ''[''" "\<not> is_space CHR ''{''"
  by (simp_all add: is_space_def)

lemma mark_simps [simp]:
  "\<not> is_space d \<Longrightarrow> mark c (d # s) = (if d = c then Some s else None)" "is_space d \<Longrightarrow> mark c (d # s) = mark c s"
  by (simp_all add: mark_def)

lemma hex_value_digit:
  assumes "d < 16"
  shows "hex_value (hex_digit d) = Some d"
proof (cases "d < 10")
  case True
  then show ?thesis by (simp add: hex_value_def hex_digit_def is_digit_def in_range_def)
next
  case False
  with assms show ?thesis by (simp add: hex_value_def hex_digit_def is_digit_def in_range_def)
qed

lemma hex4_byte: "n < 256 \<Longrightarrow> hex4 CHR ''0'' CHR ''0'' (hex_digit (n div 16)) (hex_digit (n mod 16)) = Some n"
  by (simp add: hex4_def hex_value_digit less_mult_imp_div_less)
    (simp add: hex_value_def is_digit_def in_range_def mult.commute)

lemma parse_escaped_byte:
  "n < 256 \<Longrightarrow> parse_chars ([CHR 0x5C, CHR ''u'', CHR ''0'', CHR ''0'', hex_digit (n div 16), hex_digit (n mod 16)] @ s) =
    map_option (\<lambda>(t, r). (char_of n # t, r)) (parse_chars s)"
  by (simp add: hex4_byte)

lemma parse_escape:
  "parse_chars (escape_ascii c @ s) = map_option (\<lambda>(t, r). (c # t, r)) (parse_chars s)"
proof -
  let ?n = "of_char c :: nat"
  have n: "?n < 256" by simp
  have code: "c = char_of m" if "?n = m" for m :: nat
    using arg_cong [OF that, of "char_of :: nat \<Rightarrow> char"] by simp
  have codes: "?n = 10 \<longleftrightarrow> c = CHR 0x0A" "?n = 13 \<longleftrightarrow> c = CHR 0x0D" "?n = 9 \<longleftrightarrow> c = CHR 0x09" "?n = 12 \<longleftrightarrow> c = CHR 0x0C"
    "?n = 8 \<longleftrightarrow> c = CHR 0x08"
    using code [of 10] code [of 13] code [of 9] code [of 12] code [of 8] by (auto simp: char_of_def bit_iff_odd)
  consider "c = CHR 0x22" | "c = CHR 0x5C" | "?n = 10" | "?n = 13" | "?n = 9" | "?n = 12" | "?n = 8"
    | "escape_ascii c = [CHR 0x5C, CHR ''u'', CHR ''0'', CHR ''0'', hex_digit (?n div 16), hex_digit (?n mod 16)]"
    | "escape_ascii c = [c]" "32 \<le> ?n" "c \<noteq> CHR 0x22" "c \<noteq> CHR 0x5C"
    by atomize_elim (auto simp: escape_ascii_def escape_char_def Let_def)
  then show ?thesis
  proof cases
    case 8
    then show ?thesis using parse_escaped_byte [OF n, of s] by simp
  qed (simp_all add: codes, simp_all add: escape_ascii_def escape_char_def unescape_def)
qed

lemma parse_quoted: "parse_chars (concat (map escape_ascii t) @ CHR 0x22 # s) = Some (t, s)"
  by (induction t) (simp_all add: parse_escape)

text \<open>Integers.\<close>

lemma show_nat_head: "\<exists>d ds. show_nat n = d # ds \<and> is_digit d \<and> (d = CHR ''0'' \<longrightarrow> n = 0) \<and> (n = 0 \<longrightarrow> ds = [])"
proof (induction n rule: show_nat.induct)
  case (1 n)
  show ?case
  proof (cases "n < 10")
    case True
    moreover have "n = 0" if "digit_char n = CHR ''0''"
      using True arg_cong [OF that, of "of_char :: char \<Rightarrow> nat"] by (simp add: digit_char_def)
    ultimately show ?thesis
      by (simp add: show_nat.simps is_digit_def in_range_def digit_char_def)
  next
    case False
    with 1 show ?thesis by (subst show_nat.simps) auto
  qed
qed

definition stops :: "string \<Rightarrow> bool" where
  "stops s = (case s of [] \<Rightarrow> True | c # _ \<Rightarrow> \<not> is_digit c)"

lemma parse_show_nat: "stops s \<Longrightarrow> parse_digits (show_nat n @ s) = Some (n, s)"
proof -
  assume s: "stops s"
  from show_nat_head [of n] obtain d ds where d: "show_nat n = d # ds" "is_digit d" "d = CHR ''0'' \<longrightarrow> n = 0" "n = 0 \<longrightarrow> ds = []" by blast
  have all: "\<forall>c \<in> set (show_nat n). is_digit c" using show_nat_digits by blast
  then have "takeWhile is_digit (show_nat n @ s) = show_nat n" "dropWhile is_digit (show_nat n @ s) = s"
    using s by (auto simp: stops_def takeWhile_append2 dropWhile_append2 split: list.splits)
  then show ?thesis
    using d read_show_nat [of n] by (auto simp: parse_digits_def simp del: read_show_nat)
qed

lemma digit_not_mark: "is_digit c \<Longrightarrow> c \<notin> set ''ntf-[]{}, '' \<and> c \<noteq> CHR 0x22 \<and> \<not> is_space c"
  by (auto simp: is_digit_def in_range_def is_space_def)

lemma parse_show_int: "stops s \<Longrightarrow> parse_value (Suc k) (show_int i @ s) = Some (JInt i, s)"
proof -
  assume s: "stops s"
  obtain d ds where d: "show_nat (nat i) = d # ds" "is_digit d" using show_nat_head [of "nat i"] by blast
  show ?thesis
  proof (cases "i < 0")
    case True
    then show ?thesis
      using parse_show_nat [OF s, of "nat (- i)"] by (simp add: show_int_def parse_scalar_def)
  next
    case False
    then show ?thesis
      using parse_show_nat [OF s, of "nat i"] d digit_not_mark [OF d(2)] by (simp add: show_int_def parse_scalar_def)
  qed
qed

text \<open>A text starts with a mark that is neither white space nor a closing bracket.\<close>

lemma json_text_head: "\<exists>c cs. json_text v = c # cs \<and> \<not> is_space c \<and> c \<noteq> CHR '']'' \<and> c \<noteq> CHR ''}''"
proof (cases v)
  case (JInt i)
  then show ?thesis
    using show_nat_head [of "nat i"] show_nat_head [of "nat (- i)"] digit_not_mark
    by (fastforce simp: show_int_def is_space_def)
qed (auto simp: quoted_def is_space_def)

fun unique_keys :: "json \<Rightarrow> bool" where
  "unique_keys (JArr xs) = list_all unique_keys xs"
| "unique_keys (JObj kvs) = (distinct (map fst kvs) \<and> list_all (\<lambda>(k, v). unique_keys v) kvs)"
| "unique_keys _ = True"

lemma dict_set_new: "k \<notin> fst ` set d \<Longrightarrow> dict_set k v d = d @ [(k, v)]"
  by (induction d) auto

lemma parse_elements_text:
  assumes "xs \<noteq> []" "Suc (length (join '', '' (map json_text xs))) < k"
    and "\<And>x k s. x \<in> set xs \<Longrightarrow> length (json_text x) < k \<Longrightarrow> stops s \<Longrightarrow> parse_value k (json_text x @ s) = Some (x, s)"
  shows "parse_elements k acc (join '', '' (map json_text xs) @ CHR '']'' # s) = Some (JArr (acc @ xs), s)"
  using assms
proof (induction xs arbitrary: k acc)
  case (Cons x xs)
  obtain j where k: "k = Suc j" using Cons.prems(2) by (cases k) auto
  have elem: "parse_value j (json_text x @ r) = Some (x, r)" if "stops r" "length (json_text x) < j" for r
    using Cons.prems(3) [of x j r] that by simp
  show ?case
  proof (cases xs)
    case Nil
    with elem [of "CHR '']'' # s"] Cons.prems(2) k show ?thesis
      by (simp add: stops_def is_digit_def in_range_def)
  next
    case (Cons y ys)
    let ?rest = "join '', '' (map json_text xs) @ CHR '']'' # s"
    obtain c cs where head: "json_text y = c # cs" "\<not> is_space c" using json_text_head by blast
    then have "skip_ws ?rest = ?rest" using Cons by (cases ys) simp_all
    moreover have "parse_elements j (acc @ [x]) ?rest = Some (JArr ((acc @ [x]) @ xs), s)"
      using Cons.IH [of j "acc @ [x]"] Cons Cons.prems(2,3) k by simp
    moreover have "parse_value j (json_text x @ CHR '','' # CHR '' '' # ?rest) = Some (x, CHR '','' # CHR '' '' # ?rest)"
      using Cons.prems(2) Cons k by (intro elem) (simp_all add: stops_def is_digit_def in_range_def)
    ultimately show ?thesis using Cons k by simp
  qed
qed simp

lemma parse_members_text:
  assumes "kvs \<noteq> []" "Suc (length (join '', '' (map (\<lambda>(k, v). quoted k @ '': '' @ json_text v) kvs))) < k"
    and "distinct (map fst kvs)" "fst ` set kvs \<inter> fst ` set acc = {}"
    and "\<And>key x k s. (key, x) \<in> set kvs \<Longrightarrow> length (json_text x) < k \<Longrightarrow> stops s \<Longrightarrow> parse_value k (json_text x @ s) = Some (x, s)"
  shows "parse_members k acc (join '', '' (map (\<lambda>(k, v). quoted k @ '': '' @ json_text v) kvs) @ CHR ''}'' # s) = Some (JObj (acc @ kvs), s)"
  using assms
proof (induction kvs arbitrary: k acc)
  case (Cons kv kvs)
  obtain key x where kv: "kv = (key, x)" by force
  obtain j where k: "k = Suc j" using Cons.prems(2) by (cases k) auto
  let ?joined = "join '', '' (map (\<lambda>(k, v). quoted k @ '': '' @ json_text v) kvs)"
  have elem: "parse_value j (json_text x @ r) = Some (x, r)" if "stops r" "length (json_text x) < j" for r
    using Cons.prems(5) [of key x j r] that by (simp add: kv)
  obtain c cs where head: "json_text x = c # cs" "\<not> is_space c" using json_text_head by blast
  then have skip: "skip_ws (json_text x @ r) = json_text x @ r" for r by simp
  have new: "dict_set key x acc = acc @ [(key, x)]" using Cons.prems(4) by (intro dict_set_new) (auto simp: kv)
  show ?case
  proof (cases kvs)
    case Nil
    with elem [of "CHR ''}'' # s"] Cons.prems(2) k new skip show ?thesis
      by (simp add: kv quoted_def parse_quoted stops_def is_digit_def in_range_def)
  next
    case (Cons y ys)
    let ?rest = "?joined @ CHR ''}'' # s"
    have "skip_ws ?rest = ?rest" using Cons by (cases ys; cases y) (simp_all add: quoted_def)
    moreover have "parse_members j (acc @ [(key, x)]) ?rest = Some (JObj ((acc @ [(key, x)]) @ kvs), s)"
      using Cons.IH [of j "acc @ [(key, x)]"] Cons Cons.prems(2-5) k by (auto simp: kv)
    moreover have "parse_value j (json_text x @ CHR '','' # CHR '' '' # ?rest) = Some (x, CHR '','' # CHR '' '' # ?rest)"
      using Cons.prems(2) Cons k by (intro elem) (simp_all add: kv stops_def is_digit_def in_range_def)
    ultimately show ?thesis using Cons k new skip by (simp add: kv quoted_def parse_quoted)
  qed
qed simp

lemma parse_json_text:
  "unique_keys v \<Longrightarrow> length (json_text v) < k \<Longrightarrow> stops s \<Longrightarrow> parse_value k (json_text v @ s) = Some (v, s)"
proof (induction v arbitrary: k s)
  case (JInt i)
  then show ?case using parse_show_int by (cases k) simp_all
next
  case (JStr t)
  then show ?case by (cases k) (simp_all add: quoted_def parse_quoted)
next
  case (JArr xs)
  then obtain j where k: "k = Suc j" by (cases k) auto
  show ?case
  proof (cases xs)
    case (Cons x ys)
    obtain c cs where "json_text x = c # cs" "\<not> is_space c" "c \<noteq> CHR '']''" using json_text_head by blast
    with Cons have "skip_ws (join '', '' (map json_text xs) @ CHR '']'' # s) = join '', '' (map json_text xs) @ CHR '']'' # s"
      "mark CHR '']'' (join '', '' (map json_text xs) @ CHR '']'' # s) = None"
      by (cases ys; simp)+
    moreover have "parse_elements j [] (join '', '' (map json_text xs) @ CHR '']'' # s) = Some (JArr xs, s)"
      using JArr.prems Cons k by (intro parse_elements_text [of xs j "[]" s, simplified]) (auto simp: list_all_iff intro: JArr.IH)
    ultimately show ?thesis by (simp add: k)
  qed (simp add: k)
next
  case (JObj kvs)
  then obtain j where k: "k = Suc j" by (cases k) auto
  let ?joined = "join '', '' (map (\<lambda>(k, v). quoted k @ '': '' @ json_text v) kvs)"
  show ?case
  proof (cases kvs)
    case (Cons x ys)
    then have "skip_ws (?joined @ CHR ''}'' # s) = ?joined @ CHR ''}'' # s" "mark CHR ''}'' (?joined @ CHR ''}'' # s) = None"
      by (cases ys; cases x; simp add: quoted_def)+
    moreover have "parse_members j [] (?joined @ CHR ''}'' # s) = Some (JObj ([] @ kvs), s)"
    proof (rule parse_members_text)
      show "parse_value i (json_text y @ u) = Some (y, u)"
        if "(key, y) \<in> set kvs" "length (json_text y) < i" "stops u" for key y i u
        using that JObj.prems(1) by (intro JObj.IH) (auto simp: list_all_iff)
      show "Suc (length ?joined) < j" using JObj.prems(2) k by simp
      show "kvs \<noteq> []" using Cons by simp
      show "distinct (map fst kvs)" using JObj.prems(1) by simp
    qed simp
    ultimately show ?thesis by (simp add: k)
  qed (simp add: k)
next
  case JNull
  then show ?case by (cases k) (simp_all add: parse_scalar_def)
next
  case (JBool b)
  then show ?case by (cases k; cases b) (simp_all add: parse_scalar_def)
qed

lemma json_loads_text: "unique_keys v \<Longrightarrow> json_loads (json_text v) = Some v"
proof -
  assume v: "unique_keys v"
  obtain c cs where "json_text v = c # cs" "\<not> is_space c" using json_text_head by blast
  then have "skip_ws (json_text v) = json_text v" by simp
  then show ?thesis
    using parse_json_text [OF v, of "Suc (2 * length (json_text v))" "[]"] by (simp add: json_loads_def stops_def)
qed

text \<open>
  The fuel is enough for every text: a call either consumes a character or is the first of its level, so with
  more than twice as much fuel as characters the answer no longer depends on the fuel.
\<close>

lemma length_skip_ws: "length (skip_ws s) \<le> length s"
  by (simp add: skip_ws_def length_dropWhile_le)

lemma parse_chars_shorter: "parse_chars s = Some (u, r) \<Longrightarrow> length r < length s"
  by (induction s arbitrary: u r rule: parse_chars.induct)
    (auto split: if_splits list.splits option.splits, (fastforce dest: less_SucI)+)

lemma parse_digits_shorter: "parse_digits s = Some (n, r) \<Longrightarrow> length r < length s"
  using length_dropWhile_le [of is_digit] by (auto simp: parse_digits_def le_imp_less_Suc split: list.splits if_splits)

lemma parse_scalar_shorter: "parse_scalar s = Some (v, r) \<Longrightarrow> length r < length s"
  by (cases s) (auto simp: parse_scalar_def split: if_splits dest!: parse_digits_shorter)

lemma mark_shorter: "mark c s = Some r \<Longrightarrow> length r < length s"
  using length_skip_ws [of s] by (auto simp: mark_def split: list.splits if_splits)

lemma parse_shorter:
  "(\<forall>s v r. parse_value k s = Some (v, r) \<longrightarrow> length r < length s)
    \<and> (\<forall>s acc v r. parse_elements k acc s = Some (v, r) \<longrightarrow> length r < length s)
    \<and> (\<forall>s mem v r. parse_members k mem s = Some (v, r) \<longrightarrow> length r < length s)"
proof (induction k)
  case (Suc k)
  have v: "length r < length s" if "parse_value k s = Some (v, r)" for s v r using Suc that by blast
  have e: "length r < length s" if "parse_elements k acc (skip_ws s) = Some (v, r)" for s acc v r
    using Suc that length_skip_ws [of s] by (meson order.strict_trans2)
  have m: "length r < length s" if "parse_members k acc (skip_ws s) = Some (v, r)" for s acc v r
    using Suc that length_skip_ws [of s] by (meson order.strict_trans2)
  have w: "length r < length s" if "parse_value k (skip_ws s) = Some (v, r)" for s v r
    using v [OF that] length_skip_ws [of s] by simp
  have "length r < length s" if "parse_value (Suc k) s = Some (v, r)" for s v r
    using that by (cases s) (auto dest!: parse_chars_shorter parse_scalar_shorter mark_shorter e m split: if_splits option.splits)
  moreover have "length r < length s" if "parse_elements (Suc k) acc s = Some (v, r)" for s acc v r
  proof -
    from that obtain x b where x: "parse_value k s = Some (x, b)"
      and "mark CHR '']'' b = Some r \<or> (\<exists>r'. mark CHR '','' b = Some r' \<and> parse_elements k (acc @ [x]) (skip_ws r') = Some (v, r))"
      by (auto simp: bind_eq_Some_conv split: option.split_asm)
    then show ?thesis using v [OF x] mark_shorter e by (meson order.strict_trans)
  qed
  moreover have "length r < length s" if "parse_members (Suc k) acc s = Some (v, r)" for s acc v r
  proof -
    from that obtain a key b c x d where x: "mark CHR 0x22 s = Some a" "parse_chars a = Some (key, b)" "mark CHR '':'' b = Some c"
      "parse_value k (skip_ws c) = Some (x, d)"
      and "mark CHR ''}'' d = Some r
        \<or> (\<exists>r'. mark CHR '','' d = Some r' \<and> parse_members k (dict_set key x acc) (skip_ws r') = Some (v, r))"
      by (auto simp: bind_eq_Some_conv split: option.split_asm)
    then show ?thesis
      using mark_shorter [OF x(1)] parse_chars_shorter [OF x(2)] mark_shorter [OF x(3)] w [OF x(4)] mark_shorter [of _ d] m
      by (meson order.strict_trans)
  qed
  ultimately show ?case by blast
qed simp

lemma parse_fuel:
  "(\<forall>s. 2 * length s < k \<longrightarrow> parse_value (Suc k) s = parse_value k s)
    \<and> (\<forall>s acc. Suc (2 * length s) < k \<longrightarrow> parse_elements (Suc k) acc s = parse_elements k acc s)
    \<and> (\<forall>s acc. Suc (2 * length s) < k \<longrightarrow> parse_members (Suc k) acc s = parse_members k acc s)"
proof (induction k)
  case (Suc k)
  have v: "parse_value (Suc k) s = parse_value k s" if "2 * length s < k" for s using Suc that by blast
  have e: "parse_elements (Suc k) acc (skip_ws s) = parse_elements k acc (skip_ws s)" if "Suc (2 * length s) < k" for s acc
    using Suc that length_skip_ws [of s] by simp
  have m: "parse_members (Suc k) acc (skip_ws s) = parse_members k acc (skip_ws s)" if "Suc (2 * length s) < k" for s acc
    using Suc that length_skip_ws [of s] by simp
  have "parse_value (Suc (Suc k)) s = parse_value (Suc k) s" if "2 * length s < Suc k" for s
  proof (cases s)
    case (Cons c u)
    with that e [of u "[]"] m [of u "[]"] show ?thesis
      unfolding Cons parse_value.simps(2) by (auto split: option.split)
  qed simp
  moreover have "parse_elements (Suc (Suc k)) acc s = parse_elements (Suc k) acc s" if "Suc (2 * length s) < Suc k" for s acc
  proof -
    have "parse_elements (Suc k) acc' (skip_ws r') = parse_elements k acc' (skip_ws r')"
      if "parse_value k s = Some (x, r)" "mark c r = Some r'" for x r c r' acc'
      using parse_shorter [of k] that mark_shorter [OF that(2)] \<open>Suc (2 * length s) < Suc k\<close> by (intro e) fastforce
    with that v [of s] show ?thesis
      unfolding parse_elements.simps(2) [of "Suc k" acc s] parse_elements.simps(2) [of k acc s]
      by (auto split: option.split intro!: Option.bind_cong)
  qed
  moreover have "parse_members (Suc (Suc k)) acc s = parse_members (Suc k) acc s" if "Suc (2 * length s) < Suc k" for s acc
  proof -
    have len: "length c < length s" if "mark CHR 0x22 s = Some a" "parse_chars a = Some (key, b)" "mark CHR '':'' b = Some c" for a key b c
      using mark_shorter [OF that(1)] parse_chars_shorter [OF that(2)] mark_shorter [OF that(3)] by simp
    have val: "parse_value (Suc k) (skip_ws c) = parse_value k (skip_ws c)" if "length c < length s" for c
      using that \<open>Suc (2 * length s) < Suc k\<close> length_skip_ws [of c] by (intro v) simp
    have rest: "parse_members (Suc k) acc' (skip_ws r') = parse_members k acc' (skip_ws r')"
      if "length c < length s" "parse_value k (skip_ws c) = Some (x, r)" "mark d r = Some r'" for c x r d r' acc'
      using parse_shorter [of k] that mark_shorter [OF that(3)] length_skip_ws [of c] \<open>Suc (2 * length s) < Suc k\<close> by (intro m) fastforce
    show ?thesis
      unfolding parse_members.simps(2) [of "Suc k" acc s] parse_members.simps(2) [of k acc s]
      using len val rest
      by (auto split: option.split intro!: Option.bind_cong simp del: parse_value.simps parse_members.simps) blast
  qed
  ultimately show ?case by blast
qed simp

lemma json_loads_fuel:
  assumes "2 * length s < k"
  shows "parse_value k s = parse_value (Suc (2 * length s)) s"
proof -
  have "parse_value (Suc (2 * length s) + i) s = parse_value (Suc (2 * length s)) s" for i
    using parse_fuel by (induction i) auto
  from this [of "k - Suc (2 * length s)"] assms show ?thesis by simp
qed

text \<open>Texts are ASCII.\<close>

definition ascii :: "string \<Rightarrow> bool" where
  "ascii s = list_all (\<lambda>c. (of_char c :: nat) < 128) s"

lemma ascii_simps [simp]:
  "ascii []" "ascii (c # s) \<longleftrightarrow> (of_char c :: nat) < 128 \<and> ascii s" "ascii (s @ t) \<longleftrightarrow> ascii s \<and> ascii t"
  "ascii (concat ss) \<longleftrightarrow> (\<forall>s \<in> set ss. ascii s)"
  by (auto simp: ascii_def list_all_iff)

lemma ascii_hex_digit [simp]: "d < 16 \<Longrightarrow> (of_char (hex_digit d) :: nat) < 128"
  by (simp add: hex_digit_def)

lemma ascii_escape: "ascii (escape_ascii c)"
proof -
  have "(of_char c :: nat) div 16 < 16" by (simp add: less_mult_imp_div_less)
  then show ?thesis by (simp add: escape_ascii_def escape_char_def Let_def)
qed

lemma ascii_show_nat: "ascii (show_nat n)"
  using show_nat_digits [of _ n] by (force simp: ascii_def list_all_iff is_digit_def in_range_def)

lemma ascii_join: "\<forall>s \<in> set ss. ascii s \<Longrightarrow> ascii sep \<Longrightarrow> ascii (join sep ss)"
  by (induction sep ss rule: join.induct) auto

lemma ascii_quoted: "ascii (quoted s)"
  by (simp add: quoted_def ascii_escape)

lemma ascii_json_text: "ascii (json_text v)"
  by (induction v) (auto simp: ascii_show_nat show_int_def ascii_quoted intro!: ascii_join)

end
