(* ===== verification/Iso_Time.thy ===== *)
theory Iso_Time
  imports Json_Text
begin

text \<open>
  Python's \<^verbatim>\<open>datetime.isoformat\<close> and \<^verbatim>\<open>datetime.fromisoformat\<close> on the proleptic Gregorian calendar. A moment
  counts microseconds from 1970-01-01T00:00:00+00:00; a \<open>datetime\<close> that was read is aware (a moment) or naive (a
  wall clock). Only the spelling that \<^verbatim>\<open>isoformat\<close> writes, with any offset in hours and minutes or none, is read
  here; the other spellings of ISO 8601 that Python accepts are refused.
\<close>

section \<open>The calendar\<close>

definition leap :: "int \<Rightarrow> bool" where
  "leap y = (y mod 4 = 0 \<and> (y mod 100 \<noteq> 0 \<or> y mod 400 = 0))"

definition days_before_year :: "int \<Rightarrow> int" where
  "days_before_year y = (let p = y - 1 in p * 365 + p div 4 - p div 100 + p div 400)"

definition days_in_month :: "int \<Rightarrow> nat \<Rightarrow> int" where
  "days_in_month y m = (if m = 2 then (if leap y then 29 else 28) else if m \<in> {4, 6, 9, 11} then 30 else 31)"

definition days_before_month :: "int \<Rightarrow> nat \<Rightarrow> int" where
  "days_before_month y m = sum_list (map (days_in_month y) [1..<m])"

text \<open>The ordinal of a date: 1 is 0001-01-01.\<close>

definition ordinal :: "int \<Rightarrow> nat \<Rightarrow> int \<Rightarrow> int" where
  "ordinal y m d = days_before_year y + days_before_month y m + d"

lemma div_pred:
  fixes y k :: int
  assumes "0 < k"
  shows "y div k = (y - 1) div k + (if k dvd y then 1 else 0)"
proof (cases "k dvd y")
  case True
  then obtain q where y: "y = k * q" by (elim dvdE)
  have "(y - 1) div k = q - 1"
    by (rule int_div_pos_eq [where r = "k - 1"]) (use assms y in \<open>simp_all add: algebra_simps\<close>)
  with y assms True show ?thesis by simp
next
  case False
  then have "0 < y mod k" using assms by (simp add: dvd_eq_mod_eq_0 order_less_le)
  moreover have "y = k * (y div k) + y mod k" by simp
  ultimately have "(y - 1) div k = y div k"
    using assms by (intro int_div_pos_eq [where r = "y mod k - 1"]) (linarith, simp, use pos_mod_bound [OF assms, of y] in linarith)
  with False show ?thesis by simp
qed

lemma leap_days:
  fixes a b c a' b' c' :: int
  assumes "r \<longrightarrow> q" "q \<longrightarrow> p" "a = a' + (if p then 1 else 0)" "b = b' + (if q then 1 else 0)" "c = c' + (if r then 1 else 0)"
  shows "y * 365 + a - b + c = (y - 1) * 365 + a' - b' + c' + (if p \<and> (\<not> q \<or> r) then 366 else 365)"
  using assms by (cases p; cases q; cases r) simp_all

lemma days_before_next_year: "days_before_year (y + 1) = days_before_year y + (if leap y then 366 else 365)"
proof -
  have "400 dvd y \<longrightarrow> 100 dvd y" "100 dvd y \<longrightarrow> 4 dvd y"
    using dvd_trans [of 100 400 y] dvd_trans [of 4 100 y] by simp_all
  then show ?thesis
    unfolding days_before_year_def Let_def add_diff_cancel_right' leap_def mod_eq_0_iff_dvd
    by (intro leap_days div_pred) simp_all
qed

text \<open>The year of an ordinal, searched upwards from a lower estimate, and the month and day in it.\<close>

function year_from :: "int \<Rightarrow> int \<Rightarrow> int" where
  "year_from n y = (if days_before_year (y + 1) < n then year_from n (y + 1) else y)"
  by pat_completeness auto

termination
  by (relation "measure (\<lambda>(n, y). nat (n - days_before_year y))") (auto simp: days_before_next_year split: if_splits)

declare year_from.simps [simp del]

function month_from :: "int \<Rightarrow> nat \<Rightarrow> int \<Rightarrow> nat \<times> int" where
  "month_from y m d = (if m < 12 \<and> days_in_month y m < d then month_from y (Suc m) (d - days_in_month y m) else (m, d))"
  by pat_completeness auto

termination
  by (relation "measure (\<lambda>(y, m, d). 12 - m)") auto

declare month_from.simps [simp del]

definition civil :: "int \<Rightarrow> int \<times> nat \<times> int" where
  "civil n = (let y = year_from n (n div 366 + 1) in (y, month_from y 1 (n - days_before_year y)))"

lemma year_from_spec:
  "days_before_year y < n \<Longrightarrow> y \<le> year_from n y \<and> days_before_year (year_from n y) < n \<and> n \<le> days_before_year (year_from n y + 1)"
proof (induction n y rule: year_from.induct)
  case (1 n y)
  then show ?case by (subst (1 2 3) year_from.simps) auto
qed

lemma days_before_year_estimate: "1 \<le> n \<Longrightarrow> days_before_year (n div 366 + 1) < n"
proof -
  assume n: "1 \<le> n"
  let ?k = "n div 366"
  have k: "0 \<le> ?k" "366 * ?k \<le> n" using n by (simp_all add: pos_imp_zdiv_nonneg_iff)
  have "?k div 400 \<le> ?k div 100" using k(1) zdiv_mono2 [of ?k 100 400] by simp
  moreover have "?k = 0 \<or> ?k div 4 < ?k" using k(1) int_div_less_self [of ?k 4] by force
  moreover have "days_before_year (?k + 1) = ?k * 365 + ?k div 4 - ?k div 100 + ?k div 400"
    by (simp only: days_before_year_def Let_def add_diff_cancel_right')
  moreover have "a * 365 + b - c + d < n" if "d \<le> c" "a = 0 \<and> b = 0 \<or> b < a" "366 * a \<le> n" for a b c d
    using that n by auto
  ultimately show ?thesis using k(2) n by auto
qed

lemma days_before_month_Suc: "1 \<le> m \<Longrightarrow> days_before_month y (Suc m) = days_before_month y m + days_in_month y m"
  by (simp add: days_before_month_def)

lemma days_in_month_pos: "28 \<le> days_in_month y m" "days_in_month y m \<le> 31"
  by (auto simp: days_in_month_def)

lemma days_before_month_13: "days_before_month y 13 = (if leap y then 366 else 365)"
proof -
  have "[1..<13] = [1, 2, 3, 4, 5, 6, 7, 8, 9, 10, 11, 12 :: nat]" by (simp add: upt_rec)
  then show ?thesis by (simp add: days_before_month_def days_in_month_def)
qed

lemma month_from_spec:
  assumes "1 \<le> m" "m \<le> 12" "1 \<le> d" "days_before_month y m + d \<le> days_before_month y 13" "month_from y m d = (m', d')"
  shows "days_before_month y m' + d' = days_before_month y m + d \<and> 1 \<le> m' \<and> m' \<le> 12 \<and> 1 \<le> d' \<and> d' \<le> days_in_month y m'"
  using assms
proof (induction y m d rule: month_from.induct)
  case (1 y m d)
  show ?case
  proof (cases "m < 12 \<and> days_in_month y m < d")
    case True
    with 1 show ?thesis
      by (subst (asm) (2) month_from.simps) (auto simp: days_before_month_Suc)
  next
    case False
    then have "(m', d') = (m, d)" using "1.prems"(5) by (subst (asm) month_from.simps) auto
    moreover have "d \<le> days_in_month y m"
      using False "1.prems"(1,2,4) days_before_month_Suc [of 12 y] by (cases "m = 12") auto
    ultimately show ?thesis using "1.prems" by simp
  qed
qed

lemma civil_ordinal:
  assumes "1 \<le> n" "civil n = (y, m, d)"
  shows "ordinal y m d = n" "1 \<le> y" "1 \<le> m" "m \<le> 12" "1 \<le> d" "d \<le> days_in_month y m" "days_before_year y < n"
proof -
  have y: "n div 366 + 1 \<le> y" "days_before_year y < n" "n \<le> days_before_year (y + 1)"
    using year_from_spec [OF days_before_year_estimate [OF assms(1)]] assms(2) by (auto simp: civil_def Let_def)
  have "month_from y 1 (n - days_before_year y) = (m, d)" using assms(2) by (auto simp: civil_def Let_def)
  from month_from_spec [OF _ _ _ _ this] y(2,3)
  have "days_before_month y m + d = n - days_before_year y \<and> 1 \<le> m \<and> m \<le> 12 \<and> 1 \<le> d \<and> d \<le> days_in_month y m"
    by (simp add: days_before_month_13 days_before_next_year) (simp add: days_before_month_def)
  then show "ordinal y m d = n" "1 \<le> m" "m \<le> 12" "1 \<le> d" "d \<le> days_in_month y m" by (auto simp: ordinal_def)
  show "days_before_year y < n" by (rule y)
  show "1 \<le> y" using y(1) assms(1) pos_imp_zdiv_nonneg_iff [of 366 n] by simp
qed

section \<open>Texts\<close>

definition DAY :: int where "DAY = 86400000000"

definition EPOCH :: int where "EPOCH = 719163"

text \<open>The moments of the years 1 to 9999, the range of \<^verbatim>\<open>datetime\<close>.\<close>

definition datetime_range :: "moment \<Rightarrow> bool" where
  "datetime_range m = (1 \<le> m div DAY + EPOCH \<and> m div DAY + EPOCH \<le> 3652059)"

fun pad :: "nat \<Rightarrow> nat \<Rightarrow> string" where
  "pad 0 n = []"
| "pad (Suc k) n = pad k (n div 10) @ [digit_char (n mod 10)]"

definition isoformat :: "moment \<Rightarrow> string" where
  "isoformat m =
     (let (y, mo, d) = civil (m div DAY + EPOCH); micros = m mod 1000000; s = m mod DAY div 1000000 in
      pad 4 (nat y) @ ''-'' @ pad 2 mo @ ''-'' @ pad 2 (nat d) @ ''T''
      @ pad 2 (nat (s div 3600)) @ '':'' @ pad 2 (nat (s div 60 mod 60)) @ '':'' @ pad 2 (nat (s mod 60))
      @ (if micros = 0 then [] else ''.'' @ pad 6 (nat micros)) @ ''+00:00'')"

datatype pydatetime = Aware moment | Naive moment

definition number :: "nat \<Rightarrow> string \<Rightarrow> (nat \<times> string) option" where
  "number k s = (if k \<le> length s \<and> list_all is_digit (take k s) then Some (read_nat (take k s), drop k s) else None)"

definition lit :: "char \<Rightarrow> string \<Rightarrow> string option" where
  "lit c s = (case s of [] \<Rightarrow> None | d # r \<Rightarrow> if d = c then Some r else None)"

definition read_date :: "string \<Rightarrow> (int \<times> string) option" where
  "read_date s =
     Option.bind (number 4 s) (\<lambda>(y, s). Option.bind (lit CHR ''-'' s) (\<lambda>s.
     Option.bind (number 2 s) (\<lambda>(mo, s). Option.bind (lit CHR ''-'' s) (\<lambda>s.
     Option.bind (number 2 s) (\<lambda>(d, s).
       if 1 \<le> y \<and> 1 \<le> mo \<and> mo \<le> 12 \<and> 1 \<le> d \<and> int d \<le> days_in_month (int y) mo
       then Some (ordinal (int y) mo (int d), s) else None)))))"

definition read_clock :: "string \<Rightarrow> (int \<times> string) option" where
  "read_clock s =
     Option.bind (number 2 s) (\<lambda>(h, s). Option.bind (lit CHR '':'' s) (\<lambda>s.
     Option.bind (number 2 s) (\<lambda>(mi, s). Option.bind (lit CHR '':'' s) (\<lambda>s.
     Option.bind (number 2 s) (\<lambda>(sec, s).
       if h < 24 \<and> mi < 60 \<and> sec < 60 then Some (int (3600 * h + 60 * mi + sec), s) else None)))))"

definition read_fraction :: "string \<Rightarrow> (int \<times> string) option" where
  "read_fraction s = (case lit CHR ''.'' s of None \<Rightarrow> Some (0, s) | Some r \<Rightarrow> map_option (\<lambda>(n, u). (int n, u)) (number 6 r))"

text \<open>The offset in microseconds; \<open>None\<close> inside for a text without offset.\<close>

definition read_offset :: "string \<Rightarrow> int option option" where
  "read_offset s =
     (case s of
        [] \<Rightarrow> Some None
      | c # r \<Rightarrow>
          if c \<noteq> CHR ''+'' \<and> c \<noteq> CHR ''-'' then None
          else Option.bind (number 2 r) (\<lambda>(h, r). Option.bind (lit CHR '':'' r) (\<lambda>r.
               Option.bind (number 2 r) (\<lambda>(mi, r).
                 if r = [] \<and> h < 24 \<and> mi < 60
                 then Some (Some ((if c = CHR ''-'' then - 1 else 1) * int (60 * h + mi) * 60000000)) else None))))"

definition fromisoformat :: "string \<Rightarrow> pydatetime option" where
  "fromisoformat s =
     Option.bind (read_date s) (\<lambda>(n, s).
       if s = [] then Some (Naive ((n - EPOCH) * DAY))
       else Option.bind (read_clock (drop 1 s)) (\<lambda>(clock, s).
            Option.bind (read_fraction s) (\<lambda>(micros, s).
            map_option (\<lambda>off. let wall = (n - EPOCH) * DAY + clock * 1000000 + micros in
              case off of None \<Rightarrow> Naive wall | Some shift \<Rightarrow> Aware (wall - shift)) (read_offset s))))"

lemma length_pad [simp]: "length (pad k n) = k"
  by (induction k arbitrary: n) auto

lemma pad_digits: "list_all is_digit (pad k n)"
  by (induction k arbitrary: n) (auto simp: digit_char_def is_digit_def in_range_def)

lemma read_pad: "read_nat (pad k n) = n mod 10 ^ k"
proof (induction k arbitrary: n)
  case (Suc k)
  then show ?case
    by (simp add: read_nat_def mod_mult2_eq [of n 10 "10 ^ k", simplified] ac_simps)
qed (simp add: read_nat_def)

lemma number_pad [simp]: "n < 10 ^ k \<Longrightarrow> number k (pad k n @ s) = Some (n, s)"
  by (simp add: number_def pad_digits read_pad)

lemma lit_Cons [simp]: "lit c (d # s) = (if d = c then Some s else None)" "lit c [] = None"
  by (simp_all add: lit_def)

lemma days_before_year_mono: "y \<le> z \<Longrightarrow> days_before_year y \<le> days_before_year z"
proof -
  have "days_before_year y \<le> days_before_year (y + int k)" for k
  proof (induction k)
    case (Suc k)
    have "y + int (Suc k) = y + int k + 1" by simp
    with Suc show ?case using days_before_next_year [of "y + int k"] by (simp only:) simp
  qed simp
  from this [of "nat (z - y)"] show "y \<le> z \<Longrightarrow> ?thesis" by simp
qed

lemma read_date_pad:
  assumes "1 \<le> n" "n \<le> 3652059" "civil n = (y, mo, d)"
  shows "read_date (pad 4 (nat y) @ CHR ''-'' # pad 2 mo @ CHR ''-'' # pad 2 (nat d) @ s) = Some (n, s)"
proof -
  note c = civil_ordinal [OF assms(1,3)]
  have "days_before_year 10000 = 3652059" by (simp add: days_before_year_def)
  then have "\<not> 10000 \<le> y" using days_before_year_mono [of 10000 y] c(7) assms(2) by linarith
  moreover have "d \<le> 31" using c(6) days_in_month_pos(2) [of y mo] by simp
  ultimately show ?thesis using c by (simp add: read_date_def Suc_le_eq)
qed

lemma read_clock_pad:
  assumes "0 \<le> s" "s < 86400"
  shows "read_clock (pad 2 (nat (s div 3600)) @ CHR '':'' # pad 2 (nat (s div 60 mod 60)) @ CHR '':'' # pad 2 (nat (s mod 60)) @ u) = Some (s, u)"
proof -
  obtain h mi sec where parts: "h = s div 3600" "mi = s div 60 mod 60" "sec = s mod 60" by simp
  have bounds: "h < 24" "0 \<le> h" "mi < 60" "0 \<le> mi" "sec < 60" "0 \<le> sec"
    using assms by (simp_all add: parts div_less_iff_less_mult pos_imp_zdiv_nonneg_iff)
  have glue: "3600 * p + 60 * q + r = v" if "60 * p + q = a" "60 * a + r = v" for p q a r v :: int
    using that by simp
  have "s div 3600 = s div 60 div 60" using zdiv_zmult2_eq [of 60 s 60] by simp
  then have "3600 * h + 60 * mi + sec = s"
    unfolding parts by (simp only:) (rule glue [OF mult_div_mod_eq mult_div_mod_eq])
  then show ?thesis
    using bounds unfolding parts [symmetric] by (simp add: read_clock_def nat_less_iff)
qed

lemma fromisoformat_isoformat: "datetime_range m \<Longrightarrow> fromisoformat (isoformat m) = Some (Aware m)"
proof -
  assume m: "datetime_range m"
  let ?n = "m div DAY + EPOCH" and ?s = "m mod DAY div 1000000" and ?u = "m mod 1000000"
  obtain y mo d where c: "civil ?n = (y, mo, d)" by (metis prod_cases3)
  have s: "0 \<le> ?s" "?s < 86400" by (simp_all add: DAY_def div_less_iff_less_mult pos_imp_zdiv_nonneg_iff)
  have "m mod DAY mod 1000000 = ?u" by (simp add: DAY_def mod_mod_cancel)
  then have whole: "(?n - EPOCH) * DAY + ?s * 1000000 + ?u = m"
    using mult_div_mod_eq [of 1000000 "m mod DAY"] mult_div_mod_eq [of DAY m] by (simp only: add_diff_cancel_right' mult.commute add.assoc)
  have zone: "read_offset ''+00:00'' = Some (Some 0)"
    by (simp add: read_offset_def number_def is_digit_def in_range_def read_nat_def)
  have fraction: "read_fraction ((if ?u = 0 then [] else ''.'' @ pad 6 (nat ?u)) @ ''+00:00'') = Some (?u, ''+00:00'')"
    by (simp add: read_fraction_def nat_less_iff)
  show ?thesis
    using read_date_pad [OF _ _ c] read_clock_pad [OF s] m zone fraction whole
    by (simp add: fromisoformat_def isoformat_def c Let_def datetime_range_def del: pad.simps)
qed

end
