(* ===== verification/Base64.thy ===== *)
theory Base64
  imports Json_Text
begin

text \<open>
  URL-safe Base64 as Python's \<^verbatim>\<open>base64\<close> module has it: \<^verbatim>\<open>urlsafe_b64encode\<close>, and \<^verbatim>\<open>urlsafe_b64decode\<close> with the
  state machine of \<^verbatim>\<open>binascii.a2b_base64\<close> in its lenient mode, which skips characters outside the alphabet and
  stops at the padding. Bytes are numbers below 256.
\<close>

definition b64_char :: "nat \<Rightarrow> char" where
  "b64_char v =
     char_of (if v < 26 then 65 + v else if v < 52 then 71 + v else if v < 62 then v - 4 else if v = 62 then 45 else 95)"

text \<open>The text without its padding, and the padding.\<close>

fun b64_body :: "nat list \<Rightarrow> string" where
  "b64_body (a # b # c # bs) =
     [b64_char (a div 4), b64_char (a mod 4 * 16 + b div 16), b64_char (b mod 16 * 4 + c div 64), b64_char (c mod 64)] @ b64_body bs"
| "b64_body [a, b] = [b64_char (a div 4), b64_char (a mod 4 * 16 + b div 16), b64_char (b mod 16 * 4)]"
| "b64_body [a] = [b64_char (a div 4), b64_char (a mod 4 * 16)]"
| "b64_body [] = []"

definition urlsafe_b64encode :: "nat list \<Rightarrow> string" where
  "urlsafe_b64encode bs = b64_body bs @ replicate ((3 - length bs mod 3) mod 3) (CHR ''='')"

definition rstrip :: "char \<Rightarrow> string \<Rightarrow> string" where
  "rstrip c s = rev (dropWhile (\<lambda>x. x = c) (rev s))"

text \<open>The value of a byte of the text: the standard alphabet and the URL-safe one.\<close>

definition b64_value :: "nat \<Rightarrow> nat option" where
  "b64_value c =
     (if 65 \<le> c \<and> c \<le> 90 then Some (c - 65)
      else if 97 \<le> c \<and> c \<le> 122 then Some (c - 71)
      else if 48 \<le> c \<and> c \<le> 57 then Some (c + 4)
      else if c = 43 \<or> c = 45 then Some 62
      else if c = 47 \<or> c = 95 then Some 63
      else None)"

text \<open>\<open>q\<close> is the position in the current group of four, \<open>l\<close> the bits left over, \<open>p\<close> the padding seen.\<close>

fun a2b_base64 :: "nat \<Rightarrow> nat \<Rightarrow> nat \<Rightarrow> nat list \<Rightarrow> nat list option" where
  "a2b_base64 q l p [] = (if q = 0 then Some [] else None)"
| "a2b_base64 q l p (c # cs) =
     (if c = 61 then
        (if 2 \<le> q then (if 4 \<le> q + Suc p then Some [] else a2b_base64 q l (Suc p) cs) else a2b_base64 q l p cs)
      else
        (case b64_value c of
           None \<Rightarrow> a2b_base64 q l p cs
         | Some v \<Rightarrow>
             if q = 0 then a2b_base64 1 v 0 cs
             else if q = 1 then map_option ((#) (l * 4 + v div 16)) (a2b_base64 2 (v mod 16) 0 cs)
             else if q = 2 then map_option ((#) (l * 16 + v div 4)) (a2b_base64 3 (v mod 4) 0 cs)
             else map_option ((#) (l * 64 + v)) (a2b_base64 0 0 0 cs)))"

definition urlsafe_b64decode :: "nat list \<Rightarrow> nat list option" where
  "urlsafe_b64decode cs = a2b_base64 0 0 0 cs"

text \<open>UTF-8 of the code points below 256, read back.\<close>

fun utf8_decode :: "nat list \<Rightarrow> string option" where
  "utf8_decode [] = Some []"
| "utf8_decode (b # bs) =
     (if b < 128 then map_option ((#) (char_of b)) (utf8_decode bs)
      else if b = 194 \<or> b = 195 then
        (case bs of
           [] \<Rightarrow> None
         | c # cs \<Rightarrow> if 128 \<le> c \<and> c < 192 then map_option ((#) (char_of ((b - 192) * 64 + c - 128))) (utf8_decode cs) else None)
      else None)"

definition utf8_bytes :: "string \<Rightarrow> nat list" where
  "utf8_bytes s = map unat (utf8 s)"

section \<open>Round trip\<close>

lemma b64_char_ok:
  assumes "v < 64"
  shows "b64_value (of_char (b64_char v)) = Some v" "b64_char v \<noteq> CHR ''=''" "(of_char (b64_char v) :: nat) < 128"
proof -
  let ?c = "if v < 26 then 65 + v else if v < 52 then 71 + v else if v < 62 then v - 4 else if v = 62 then 45 else 95"
  have c: "?c < 128" "?c \<noteq> 61" "b64_value ?c = Some v" using assms by (auto simp: b64_value_def)
  then have of: "of_char (b64_char v) = ?c" by (simp add: b64_char_def)
  with c show "b64_value (of_char (b64_char v)) = Some v" "(of_char (b64_char v) :: nat) < 128" by simp_all
  show "b64_char v \<noteq> CHR ''=''"
  proof
    assume "b64_char v = CHR ''=''"
    with of have "?c = 61" by simp
    with c(2) show False by contradiction
  qed
qed

lemma a2b_char:
  "v < 64 \<Longrightarrow> a2b_base64 q l p (of_char (b64_char v) # cs) =
    (if q = 0 then a2b_base64 1 v 0 cs
     else if q = 1 then map_option ((#) (l * 4 + v div 16)) (a2b_base64 2 (v mod 16) 0 cs)
     else if q = 2 then map_option ((#) (l * 16 + v div 4)) (a2b_base64 3 (v mod 4) 0 cs)
     else map_option ((#) (l * 64 + v)) (a2b_base64 0 0 0 cs))"
proof -
  assume v: "v < 64"
  have "of_char (b64_char v) \<noteq> (61 :: nat)" using b64_char_ok(1) [OF v] by (auto simp: b64_value_def)
  with b64_char_ok(1) [OF v] show ?thesis by simp
qed

lemma group_bounds:
  fixes a b c :: nat
  assumes "a < 256" "b < 256" "c < 256"
  shows "a div 4 < 64" "a mod 4 * 16 + b div 16 < 64" "b mod 16 * 4 + c div 64 < 64" "c mod 64 < 64" "a mod 4 * 16 < 64" "b mod 16 * 4 < 64"
proof -
  have "b div 16 < 16" "c div 64 < 4" "a mod 4 < 4" "b mod 16 < 16" using assms by (simp_all add: div_less_iff_less_mult)
  then show "a mod 4 * 16 + b div 16 < 64" "b mod 16 * 4 + c div 64 < 64" "a mod 4 * 16 < 64" "b mod 16 * 4 < 64" by linarith+
qed (use assms in \<open>simp_all add: div_less_iff_less_mult\<close>)

lemma group_bytes:
  fixes a b c :: nat
  assumes "b < 256" "c < 256"
  shows "a div 4 * 4 + (a mod 4 * 16 + b div 16) div 16 = a" "(a mod 4 * 16 + b div 16) mod 16 * 16 + (b mod 16 * 4 + c div 64) div 4 = b"
    "(b mod 16 * 4 + c div 64) mod 4 * 64 + c mod 64 = c" "(b mod 16 * 4) div 4 = b mod 16"
proof -
  have "b div 16 < 16" "c div 64 < 4" using assms by (simp_all add: div_less_iff_less_mult)
  then show "a div 4 * 4 + (a mod 4 * 16 + b div 16) div 16 = a" "(a mod 4 * 16 + b div 16) mod 16 * 16 + (b mod 16 * 4 + c div 64) div 4 = b"
    "(b mod 16 * 4 + c div 64) mod 4 * 64 + c mod 64 = c" "(b mod 16 * 4) div 4 = b mod 16"
    by simp_all
qed

lemma decode_body:
  "list_all (\<lambda>b. b < 256) bs \<Longrightarrow>
    a2b_base64 0 0 p (map of_char (b64_body bs) @ replicate ((3 - length bs mod 3) mod 3) 61) = Some bs"
proof (induction bs arbitrary: p rule: b64_body.induct)
  case (1 a b c bs)
  then have lt: "a < 256" "b < 256" "c < 256" by simp_all
  show ?case
    using "1.IH" "1.prems" group_bytes(1,2) [OF lt(2,3), of a] group_bytes(3) [OF lt(2,3)] by (simp add: a2b_char group_bounds [OF lt] del: a2b_base64.simps)
next
  case (2 a b)
  then have lt: "a < 256" "b < 256" "0 < (256 :: nat)" by simp_all
  show ?case
    using group_bytes(1,2) [where a = a and b = b and c = 0] group_bounds [OF lt] lt by (simp add: a2b_char del: a2b_base64.simps(2)) simp
next
  case (3 a)
  then have lt: "a < 256" "0 < (256 :: nat)" by simp_all
  show ?case
    using group_bytes(1,2) [where a = a and b = 0 and c = 0] group_bounds [OF lt(1,2,2)] by (simp add: a2b_char del: a2b_base64.simps(2)) (simp add: numeral_2_eq_2)
qed simp

lemma b64_body_chars: "list_all (\<lambda>b. b < 256) bs \<Longrightarrow> list_all (\<lambda>c. c \<noteq> CHR ''='' \<and> (of_char c :: nat) < 128) (b64_body bs)"
proof (induction bs rule: b64_body.induct)
  case (1 a b c bs)
  then have lt: "a < 256" "b < 256" "c < 256" by simp_all
  with 1 show ?case by (simp add: b64_char_ok group_bounds [OF lt])
next
  case (2 a b)
  then have lt: "a < 256" "b < 256" "0 < (256 :: nat)" by simp_all
  then show ?case using group_bounds [OF lt] by (simp add: b64_char_ok)
next
  case (3 a)
  then have lt: "a < 256" "0 < (256 :: nat)" by simp_all
  then show ?case using group_bounds [OF lt(1,2,2)] by (simp add: b64_char_ok)
qed simp

lemma length_b64_body: "(4 - length (b64_body bs) mod 4) mod 4 = (3 - length bs mod 3) mod 3"
  by (induction bs rule: b64_body.induct) simp_all

lemma rstrip_b64: "list_all (\<lambda>b. b < 256) bs \<Longrightarrow> rstrip CHR ''='' (urlsafe_b64encode bs) = b64_body bs"
proof -
  assume bs: "list_all (\<lambda>b. b < 256) bs"
  have "dropWhile (\<lambda>x. x = c) (replicate k c @ s) = dropWhile (\<lambda>x. x = c) s" for k and c :: char and s
    by (induction k) simp_all
  moreover have "dropWhile (\<lambda>x. x = CHR ''='') (rev (b64_body bs)) = rev (b64_body bs)"
    using b64_body_chars [OF bs] by (intro dropWhile_id) (auto simp: list_all_iff dest: hd_in_set)
  ultimately show ?thesis by (simp add: rstrip_def urlsafe_b64encode_def)
qed

lemma utf8_ascii:
  assumes "ascii s"
  shows "utf8_bytes s = map of_char s" "utf8_decode (map of_char s) = Some s"
proof -
  show "utf8_bytes s = map of_char s"
    using assms by (induction s) (simp_all add: utf8_bytes_def utf8_def unat_of_nat Let_def)
  show "utf8_decode (map of_char s) = Some s"
    using assms by (induction s) simp_all
qed

text \<open>Reading back a stripped text with its padding restored, as cursors do.\<close>

lemma base64_round_trip:
  assumes "ascii s" "token = rstrip CHR ''='' (urlsafe_b64encode (utf8_bytes s))"
  shows "urlsafe_b64decode (utf8_bytes (token @ replicate ((4 - length token mod 4) mod 4) CHR ''='')) = Some (utf8_bytes s)"
proof -
  let ?bs = "map of_char s :: nat list"
  have bytes: "list_all (\<lambda>b. b < 256) ?bs" using assms(1) by (auto simp: ascii_def list_all_iff)
  have token: "token = b64_body ?bs" using assms rstrip_b64 [OF bytes] utf8_ascii(1) by simp
  obtain k where k: "k = (4 - length token mod 4) mod 4" by simp
  have chars: "\<forall>c \<in> set token. (of_char c :: nat) < 128"
    using b64_body_chars [OF bytes] unfolding token by (simp add: list_all_iff)
  have "ascii (token @ replicate k CHR ''='')"
    unfolding ascii_def list_all_iff using chars by fastforce
  then have "utf8_bytes (token @ replicate k CHR ''='') = map of_char token @ replicate k 61"
    by (simp add: utf8_ascii(1))
  moreover have "a2b_base64 0 0 0 (map of_char token @ replicate k 61) = Some ?bs"
    using decode_body [OF bytes, of 0] length_b64_body [of ?bs] k token by simp
  ultimately show ?thesis
    unfolding k [symmetric] urlsafe_b64decode_def utf8_ascii(1) [OF assms(1)] by simp
qed

end
