(* ===== verification/Transfer_Queries.thy ===== *)
theory Transfer_Queries
  imports Database Iso_Time Base64 "HOL-Library.Product_Lexorder"
begin

text \<open>
  The read side for transfers, \<^verbatim>\<open>app/services/transfer_queries.py\<close>: the cursor with its encoding, one transfer
  with its timeline, and the listing by key. \<open>collate\<close> is the sort key of a text under the database's collation,
  \<open>zone\<close> gives the moment of a wall clock in the session's time zone.
\<close>

section \<open>Cursors\<close>

record transfer_details =
  td_transfer :: transfer
  td_source_program :: string
  td_destination_program :: string
  td_events :: "transfer_event list"

record transfer_cursor =
  tc_created_at :: pydatetime
  tc_transfer_id :: string

text \<open>\<^verbatim>\<open>isoformat\<close> of a naive value has no offset. An aware value here is in UTC, as the driver returns it.\<close>

fun pydatetime_isoformat :: "pydatetime \<Rightarrow> string" where
  "pydatetime_isoformat (Aware m) = isoformat m"
| "pydatetime_isoformat (Naive w) = take (length (isoformat w) - 6) (isoformat w)"

definition encode_cursor :: "transfer_cursor \<Rightarrow> string" where
  "encode_cursor c =
     (let raw = json_text (JObj [(''t'', JStr (pydatetime_isoformat (tc_created_at c))), (''id'', JStr (tc_transfer_id c))])
      in rstrip CHR ''='' (urlsafe_b64encode (utf8_bytes raw)))"

definition INVALID_CURSOR_ERROR :: exc where
  "INVALID_CURSOR_ERROR = mk_domain_error INVALID_CURSOR ''The cursor is invalid.'' []"

text \<open>
  Every failure inside the \<^verbatim>\<open>try\<close> (bad Base64, text or JSON, not a dictionary, a member missing, a \<^verbatim>\<open>t\<close> that
  is not the text of a date) is one of the caught exceptions.
\<close>

definition decode_cursor :: "string \<Rightarrow> transfer_cursor result" where
  "decode_cursor token =
     (let padded = token @ replicate ((4 - length token mod 4) mod 4) CHR ''='' in
      of_option INVALID_CURSOR_ERROR
        (Option.bind (urlsafe_b64decode (utf8_bytes padded)) (\<lambda>bytes.
         Option.bind (utf8_decode bytes) (\<lambda>text.
         Option.bind (json_loads text) (\<lambda>data.
           case data of
             JObj kvs \<Rightarrow>
               Option.bind (map_of kvs ''t'') (\<lambda>t.
               Option.bind (case t of JStr s \<Rightarrow> fromisoformat s | _ \<Rightarrow> None) (\<lambda>created_at.
               Option.bind (map_of kvs ''id'') (\<lambda>i.
               Some \<lparr>tc_created_at = created_at, tc_transfer_id = py_str i\<rparr>)))
           | _ \<Rightarrow> None)))))"

section \<open>Queries\<close>

text \<open>The join with the two programs.\<close>

definition with_program_codes :: "db \<Rightarrow> transfer list \<Rightarrow> (transfer \<times> string \<times> string) list" where
  "with_program_codes s ts =
     [(t, prg_code p, prg_code q). t \<leftarrow> ts, p \<leftarrow> db_programs s, prg_id p = tr_source_program_id t,
        q \<leftarrow> db_programs s, prg_id q = tr_destination_program_id t]"

definition get_transfer_details :: "db \<Rightarrow> string \<Rightarrow> string option \<Rightarrow> transfer_details option result" where
  "get_transfer_details s transfer_id user_id =
     (case with_program_codes s (filter (\<lambda>t. tr_id t = transfer_id
             \<and> (case user_id of None \<Rightarrow> True | Some u \<Rightarrow> tr_user_id t = u)) (db_transfers s)) of
        [] \<Rightarrow> Inr None
      | [(t, source_code, destination_code)] \<Rightarrow>
          Inr (Some \<lparr>td_transfer = t, td_source_program = source_code, td_destination_program = destination_code,
            td_events = sort_key ev_id (filter (\<lambda>e. ev_transfer_id e = transfer_id) (db_events s))\<rparr>)
      | _ \<Rightarrow> Inl (OtherError ''MultipleResultsFound''))"

fun moment_of :: "(moment \<Rightarrow> moment) \<Rightarrow> pydatetime \<Rightarrow> moment" where
  "moment_of zone (Aware m) = m"
| "moment_of zone (Naive w) = zone w"

definition transfer_key :: "(string \<Rightarrow> nat list) \<Rightarrow> transfer \<Rightarrow> moment \<times> nat list" where
  "transfer_key collate t = (tr_created_at t, collate (tr_id t))"

definition cursor_key :: "(string \<Rightarrow> nat list) \<Rightarrow> (moment \<Rightarrow> moment) \<Rightarrow> transfer_cursor \<Rightarrow> moment \<times> nat list" where
  "cursor_key collate zone c = (moment_of zone (tc_created_at c), collate (tc_transfer_id c))"

definition list_transfers ::
  "(string \<Rightarrow> nat list) \<Rightarrow> (moment \<Rightarrow> moment) \<Rightarrow> db \<Rightarrow> string \<Rightarrow> nat \<Rightarrow> transfer_cursor option
    \<Rightarrow> (transfer_details list \<times> string option) result" where
  "list_transfers collate zone s user_id limit cursor =
     (let wanted = filter (\<lambda>t. tr_user_id t = user_id
            \<and> (case cursor of None \<Rightarrow> True | Some c \<Rightarrow> transfer_key collate t < cursor_key collate zone c)) (db_transfers s);
          rows = take (limit + 1) (rev (sort_key (\<lambda>(t, _, _). transfer_key collate t) (with_program_codes s wanted)));
          page = map (\<lambda>(t, src, dst). \<lparr>td_transfer = t, td_source_program = src, td_destination_program = dst, td_events = []\<rparr>)
            (take limit rows)
      in if limit < length rows
         then (case rev page of
                 [] \<Rightarrow> Inl (OtherError ''IndexError'')
               | d # _ \<Rightarrow> Inr (page, Some (encode_cursor \<lparr>tc_created_at = Aware (tr_created_at (td_transfer d)),
                            tc_transfer_id = tr_id (td_transfer d)\<rparr>)))
         else Inr (page, None))"

section \<open>The cursor reads back\<close>

lemma decode_encode:
  assumes "datetime_range m"
  shows "decode_cursor (encode_cursor \<lparr>tc_created_at = Aware m, tc_transfer_id = i\<rparr>) = Inr \<lparr>tc_created_at = Aware m, tc_transfer_id = i\<rparr>"
proof -
  let ?v = "JObj [(''t'', JStr (isoformat m)), (''id'', JStr i)]"
  note round = base64_round_trip [OF ascii_json_text refl, of ?v, unfolded utf8_ascii(1) [OF ascii_json_text]]
  have "utf8_decode (map of_char (json_text ?v)) = Some (json_text ?v)" by (rule utf8_ascii(2) [OF ascii_json_text])
  moreover have "json_loads (json_text ?v) = Some ?v" by (rule json_loads_text) simp
  ultimately show ?thesis
    using round fromisoformat_isoformat [OF assms]
    by (simp add: encode_cursor_def decode_cursor_def Let_def utf8_ascii(1) [OF ascii_json_text] del: json_text.simps)
qed

text \<open>No other exception leaves the decoder.\<close>

lemma decode_cursor_Inl: "decode_cursor token = Inl e \<Longrightarrow> e = INVALID_CURSOR_ERROR"
  by (simp add: decode_cursor_def Let_def result_simps)

end
