(* ===== verification/Presenters.thy ===== *)
theory Presenters
  imports Transfer_Queries Transfer_State Api_Errors Rate_Engine
begin

text \<open>
  Response models of \<^verbatim>\<open>app/api/schemas.py\<close> and the presenters of \<^verbatim>\<open>app/api/presenters.py\<close>. The models are
  pydantic's, which is a parameter: how it reads an integer from a stored JSON value, and the text it gives a moment.
\<close>

section \<open>Models\<close>

record pydantic =
  pd_int :: "json \<Rightarrow> int option"
  pd_datetime :: "moment \<Rightarrow> string"

text \<open>An integer field accepts an integer as it is.\<close>

definition reads_integers :: "pydantic \<Rightarrow> bool" where
  "reads_integers py = (\<forall>i. pd_int py (JInt i) = Some i)"

record transfer_source_out =
  so_program :: string
  so_points :: int

record transfer_destination_out =
  do_program :: string
  do_points :: int
  do_base_points :: int
  do_bonus_points :: int

record transfer_failure_out =
  fo_code :: transfer_failure_code
  fo_message :: "string option"

record transfer_event_out =
  eo_from_status :: "transfer_status option"
  eo_to_status :: transfer_status
  eo_reason :: string
  eo_metadata :: "(string \<times> json) list"
  eo_created_at :: moment

record transfer_summary_out =
  to_id :: string
  to_status :: transfer_status
  to_source :: transfer_source_out
  to_destination :: transfer_destination_out
  to_rate :: rate_snapshot
  to_failure :: "transfer_failure_out option"
  to_partner_confirmation_id :: "string option"
  to_created_at :: moment
  to_updated_at :: moment
  to_completed_at :: "moment option"

record transfer_out = transfer_summary_out +
  to_events :: "transfer_event_out list"

section \<open>Presenters\<close>

text \<open>\<^verbatim>\<open>RateSnapshotOut(**d)\<close>: every field is required; members of other names are ignored.\<close>

definition optional_int :: "pydantic \<Rightarrow> json \<Rightarrow> int option option" where
  "optional_int py v = (if v = JNull then Some None else map_option Some (pd_int py v))"

definition rate_snapshot_out :: "pydantic \<Rightarrow> (string \<times> json) list \<Rightarrow> rate_snapshot result" where
  "rate_snapshot_out py d =
     of_option (OtherError ''ValidationError'')
       (Option.bind (Option.bind (map_of d ''rate_id'') (pd_int py)) (\<lambda>rate_id.
        Option.bind (Option.bind (map_of d ''version'') (pd_int py)) (\<lambda>version.
        Option.bind (Option.bind (map_of d ''numerator'') (pd_int py)) (\<lambda>numerator.
        Option.bind (Option.bind (map_of d ''denominator'') (pd_int py)) (\<lambda>denominator.
        Option.bind (Option.bind (map_of d ''bonus_id'') (optional_int py)) (\<lambda>bonus_id.
        Option.bind (Option.bind (map_of d ''bonus_bps'') (optional_int py)) (\<lambda>bonus_bps.
        Some \<lparr>rs_rate_id = rate_id, rs_version = version, rs_numerator = numerator, rs_denominator = denominator,
          rs_bonus_id = bonus_id, rs_bonus_bps = bonus_bps\<rparr>)))))))"

definition transfer_not_found :: exc where
  "transfer_not_found = mk_domain_error TRANSFER_NOT_FOUND ''No such transfer.'' []"

definition transfer_summary_out :: "pydantic \<Rightarrow> transfer_details \<Rightarrow> transfer_summary_out result" where
  "transfer_summary_out py details =
     (let t = td_transfer details in
      bindE (rate_snapshot_out py (tr_rate_snapshot t)) (\<lambda>rate.
      Inr \<lparr>to_id = tr_id t, to_status = tr_status t,
        to_source = \<lparr>so_program = td_source_program details, so_points = tr_source_points t\<rparr>,
        to_destination = \<lparr>do_program = td_destination_program details, do_points = tr_destination_points t,
          do_base_points = tr_base_points t, do_bonus_points = tr_bonus_points t\<rparr>,
        to_rate = rate,
        to_failure = map_option (\<lambda>c. \<lparr>fo_code = c, fo_message = tr_failure_message t\<rparr>) (tr_failure_code t),
        to_partner_confirmation_id = tr_partner_confirmation_id t, to_created_at = tr_created_at t,
        to_updated_at = tr_updated_at t, to_completed_at = tr_completed_at t\<rparr>))"

definition transfer_event_out :: "transfer_event \<Rightarrow> transfer_event_out" where
  "transfer_event_out e =
     \<lparr>eo_from_status = ev_from_status e, eo_to_status = ev_to_status e, eo_reason = ev_reason e,
      eo_metadata = ev_metadata e, eo_created_at = ev_created_at e\<rparr>"

definition transfer_out :: "pydantic \<Rightarrow> transfer_details \<Rightarrow> transfer_out result" where
  "transfer_out py details =
     bindE (transfer_summary_out py details) (\<lambda>summary.
     Inr (transfer_summary_out.extend summary
       (transfer_out.fields (map transfer_event_out (td_events details)))))"

section \<open>Their JSON\<close>

text \<open>\<^verbatim>\<open>model_dump(mode="json")\<close>: the fields in order, enumerations as their texts, moments as pydantic writes them.\<close>

fun transfer_status_text :: "transfer_status \<Rightarrow> string" where
  "transfer_status_text PENDING = ''PENDING''"
| "transfer_status_text SOURCE_DEBITED = ''SOURCE_DEBITED''"
| "transfer_status_text PARTNER_SUBMITTED = ''PARTNER_SUBMITTED''"
| "transfer_status_text COMPLETED = ''COMPLETED''"
| "transfer_status_text REVERSED = ''REVERSED''"
| "transfer_status_text PENDING_VERIFICATION = ''PENDING_VERIFICATION''"
| "transfer_status_text MANUAL_REVIEW = ''MANUAL_REVIEW''"

definition json_option :: "('a \<Rightarrow> json) \<Rightarrow> 'a option \<Rightarrow> json" where
  "json_option f x = (case x of None \<Rightarrow> JNull | Some y \<Rightarrow> f y)"

definition moment_out :: "pydantic \<Rightarrow> moment \<Rightarrow> json" where
  "moment_out py m = JStr (pd_datetime py m)"

definition summary_members :: "pydantic \<Rightarrow> ('z) transfer_summary_out_scheme \<Rightarrow> (string \<times> json) list" where
  "summary_members py x =
     [(''id'', JStr (to_id x)), (''status'', JStr (transfer_status_text (to_status x))),
      (''source'', JObj [(''program'', JStr (so_program (to_source x))), (''points'', JInt (so_points (to_source x)))]),
      (''destination'', JObj [(''program'', JStr (do_program (to_destination x))), (''points'', JInt (do_points (to_destination x))),
        (''base_points'', JInt (do_base_points (to_destination x))), (''bonus_points'', JInt (do_bonus_points (to_destination x)))]),
      (''rate'', JObj (snapshot_to_dict (to_rate x))),
      (''failure'', json_option (\<lambda>f. JObj [(''code'', JStr (failure_code_text (fo_code f))),
        (''message'', json_of_string_option (fo_message f))]) (to_failure x)),
      (''partner_confirmation_id'', json_of_string_option (to_partner_confirmation_id x)),
      (''created_at'', moment_out py (to_created_at x)), (''updated_at'', moment_out py (to_updated_at x)),
      (''completed_at'', json_option (moment_out py) (to_completed_at x))]"

definition event_json :: "pydantic \<Rightarrow> transfer_event_out \<Rightarrow> json" where
  "event_json py e =
     JObj [(''from_status'', json_option (\<lambda>st. JStr (transfer_status_text st)) (eo_from_status e)),
       (''to_status'', JStr (transfer_status_text (eo_to_status e))), (''reason'', JStr (eo_reason e)),
       (''metadata'', JObj (eo_metadata e)), (''created_at'', moment_out py (eo_created_at e))]"

definition transfer_out_json :: "pydantic \<Rightarrow> transfer_out \<Rightarrow> json" where
  "transfer_out_json py x = JObj (summary_members py x @ [(''events'', JArr (map (event_json py) (to_events x)))])"

section \<open>What is shown\<close>

text \<open>The snapshot the engine stored is shown as it was.\<close>

lemma rate_snapshot_out_stored: "reads_integers py \<Longrightarrow> rate_snapshot_out py (snapshot_to_dict r) = Inr r"
  by (cases "rs_bonus_id r"; cases "rs_bonus_bps r")
    (simp_all add: rate_snapshot_out_def snapshot_to_dict_def reads_integers_def optional_int_def json_of_int_option_def)

lemma transfer_summary_out_Inr:
  "transfer_summary_out py d = Inr x \<Longrightarrow> to_id x = tr_id (td_transfer d) \<and> to_status x = tr_status (td_transfer d)"
  by (auto simp: transfer_summary_out_def Let_def result_simps)

lemma transfer_out_Inr:
  "transfer_out py d = Inr x \<Longrightarrow> to_id x = tr_id (td_transfer d) \<and> to_status x = tr_status (td_transfer d)
    \<and> map eo_to_status (to_events x) = map ev_to_status (td_events d)"
  by (auto simp: transfer_out_def transfer_summary_out_def Let_def result_simps transfer_summary_out.defs transfer_out.defs
      transfer_event_out_def)

end
