(* ===== verification/Pagination.thy ===== *)
theory Pagination
  imports Prelude
begin

text \<open>
  The contract of keyset pagination and what a client gets from it. A page lists the rows before a position in
  descending order of their keys; the next position is the key of its last row. \<open>walk\<close> is a client that follows
  the positions, one request per state, while rows may be added between its requests.
\<close>

fun walk :: "('s \<Rightarrow> 'c option \<Rightarrow> 'e + ('r list \<times> 'c option)) \<Rightarrow> 's list \<Rightarrow> 'c option \<Rightarrow> 'e + ('r list \<times> bool)" where
  "walk fetch [] c = Inr ([], False)"
| "walk fetch (s # ss) c =
     bindE (fetch s c) (\<lambda>(page, nxt).
       case nxt of
         None \<Rightarrow> Inr (page, True)
       | Some d \<Rightarrow> bindE (walk fetch ss (Some d)) (\<lambda>(rest, finished). Inr (page @ rest, finished)))"

definition before :: "('r \<Rightarrow> 'k :: linorder) \<Rightarrow> ('c \<Rightarrow> 'k) \<Rightarrow> 'c option \<Rightarrow> 'r \<Rightarrow> bool" where
  "before key pos c r = (case c of None \<Rightarrow> True | Some d \<Rightarrow> key r < pos d)"

locale keyset_pages =
  fixes fetch :: "'s \<Rightarrow> 'c option \<Rightarrow> 'e + ('r list \<times> 'c option)"
    and rows :: "'s \<Rightarrow> 'r set"
    and key :: "'r \<Rightarrow> 'k :: linorder"
    and pos :: "'c \<Rightarrow> 'k"
    and valid :: "'s \<Rightarrow> bool"
    and issued :: "'c option \<Rightarrow> bool"
  assumes start: "issued None"
    and fetch_returns: "valid s \<Longrightarrow> issued c \<Longrightarrow> \<exists>page nxt. fetch s c = Inr (page, nxt)"
    and page_descends: "valid s \<Longrightarrow> issued c \<Longrightarrow> fetch s c = Inr (page, nxt) \<Longrightarrow> sorted_wrt (\<lambda>a b. key b < key a) page"
    and page_within: "valid s \<Longrightarrow> issued c \<Longrightarrow> fetch s c = Inr (page, nxt) \<Longrightarrow> set page \<subseteq> {r \<in> rows s. before key pos c r}"
    and last_page: "valid s \<Longrightarrow> issued c \<Longrightarrow> fetch s c = Inr (page, None) \<Longrightarrow> {r \<in> rows s. before key pos c r} \<subseteq> set page"
    and next_page: "valid s \<Longrightarrow> issued c \<Longrightarrow> fetch s c = Inr (page, Some d) \<Longrightarrow>
      issued (Some d) \<and> page \<noteq> [] \<and> pos d = key (last page) \<and> {r \<in> rows s. before key pos c r \<and> pos d \<le> key r} \<subseteq> set page"
begin

lemma last_is_least: "sorted_wrt (\<lambda>a b. key b < key a) page \<Longrightarrow> r \<in> set page \<Longrightarrow> key (last page) \<le> key r"
  by (induction page) (auto simp: less_imp_le split: if_splits)

text \<open>The next position lies before the current one.\<close>

lemma position_descends:
  assumes "valid s" "issued c" "fetch s c = Inr (page, Some d)"
  shows "before key pos (Some d) r \<Longrightarrow> before key pos c r"
    and "before key pos c (last page)" "key (last page) = pos d" "last page \<in> rows s"
proof -
  have "page \<noteq> []" and d: "pos d = key (last page)" using next_page [OF assms] by auto
  then have "last page \<in> set page" by simp
  then show last: "before key pos c (last page)" "last page \<in> rows s" using page_within [OF assms] by auto
  show "key (last page) = pos d" using d by simp
  show "before key pos (Some d) r \<Longrightarrow> before key pos c r"
    using last(1) d by (auto simp: before_def split: option.splits)
qed

lemma walk_returns:
  "list_all valid ss \<Longrightarrow> issued c \<Longrightarrow> \<exists>out finished. walk fetch ss c = Inr (out, finished)
    \<and> sorted_wrt (\<lambda>a b. key b < key a) out \<and> (\<forall>r \<in> set out. before key pos c r \<and> (\<exists>s \<in> set ss. r \<in> rows s))"
proof (induction ss arbitrary: c)
  case (Cons s ss)
  then have s: "valid s" by simp
  obtain page nxt where fetch: "fetch s c = Inr (page, nxt)" using fetch_returns [OF s Cons.prems(2)] by blast
  note page = page_descends [OF s Cons.prems(2) fetch] page_within [OF s Cons.prems(2) fetch]
  show ?case
  proof (cases nxt)
    case None
    with fetch page show ?thesis by auto
  next
    case (Some d)
    note fetch' = fetch [unfolded Some]
    obtain out finished where rest: "walk fetch ss (Some d) = Inr (out, finished)" "sorted_wrt (\<lambda>a b. key b < key a) out"
      "\<forall>r \<in> set out. before key pos (Some d) r \<and> (\<exists>s \<in> set ss. r \<in> rows s)"
      using Cons.IH [of "Some d"] Cons.prems(1) next_page [OF s Cons.prems(2) fetch'] by auto
    have "key b < key a" if "a \<in> set page" "b \<in> set out" for a b
      using last_is_least [OF page(1) that(1)] rest(3) that(2) position_descends(3) [OF s Cons.prems(2) fetch']
      by (force simp: before_def)
    then show ?thesis
      using fetch' rest page position_descends(1) [OF s Cons.prems(2) fetch'] by (auto simp: sorted_wrt_append)
  qed
qed auto

lemma walk_complete:
  assumes "list_all valid ss" "issued c" "successively (\<lambda>s s'. key ` rows s \<subseteq> key ` rows s') ss" "ss \<noteq> []"
    and "walk fetch ss c = Inr (out, True)"
  shows "key ` {r \<in> rows (hd ss). before key pos c r} \<subseteq> key ` set out"
  using assms
proof (induction ss arbitrary: c out)
  case (Cons s ss)
  then have s: "valid s" by simp
  obtain page nxt where fetch: "fetch s c = Inr (page, nxt)" using fetch_returns [OF s Cons.prems(2)] by blast
  show ?case
  proof (cases nxt)
    case None
    with fetch Cons.prems(5) last_page [OF s Cons.prems(2)] show ?thesis by auto
  next
    case (Some d)
    note fetch' = fetch [unfolded Some]
    from Cons.prems(5) fetch' obtain rest where rest: "walk fetch ss (Some d) = Inr (rest, True)" "out = page @ rest"
      by (cases "walk fetch ss (Some d)") auto
    then have ne: "ss \<noteq> []" by auto
    have "successively (\<lambda>s s'. key ` rows s \<subseteq> key ` rows s') ss" using Cons.prems(3) ne by (simp add: successively_Cons)
    then have IH: "key ` {r \<in> rows (hd ss). before key pos (Some d) r} \<subseteq> key ` set rest"
      using Cons.IH [OF _ _ _ ne rest(1)] Cons.prems(1) next_page [OF s Cons.prems(2) fetch'] by simp
    have "key r \<in> key ` set out" if r: "r \<in> rows s" "before key pos c r" for r
    proof (cases "pos d \<le> key r")
      case True
      then show ?thesis using next_page [OF s Cons.prems(2) fetch'] r rest(2) by auto
    next
      case False
      have "key r \<in> key ` rows (hd ss)" using Cons.prems(3) ne r(1) by (cases ss) auto
      with False IH rest(2) show ?thesis by (force simp: before_def)
    qed
    then show ?thesis by auto
  qed
qed simp

lemma walk_ends:
  assumes "finite K" "list_all (\<lambda>s. valid s \<and> key ` rows s \<subseteq> K) ss" "issued c"
    and "card {k \<in> K. case c of None \<Rightarrow> True | Some d \<Rightarrow> k < pos d} < length ss"
  shows "\<exists>out. walk fetch ss c = Inr (out, True)"
  using assms(2-4)
proof (induction ss arbitrary: c)
  case (Cons s ss)
  then have s: "valid s" by simp
  obtain page nxt where fetch: "fetch s c = Inr (page, nxt)" using fetch_returns [OF s Cons.prems(2)] by blast
  show ?case
  proof (cases nxt)
    case None
    with fetch show ?thesis by simp
  next
    case (Some d)
    note fetch' = fetch [unfolded Some]
    let ?left = "\<lambda>c. {k \<in> K. case c of None \<Rightarrow> True | Some d \<Rightarrow> k < pos d}"
    note last = position_descends(2-4) [OF s Cons.prems(2) fetch']
    then have "pos d \<in> ?left c" "pos d \<notin> ?left (Some d)"
      using Cons.prems(1) by (auto simp: before_def split: option.splits)
    moreover have "?left (Some d) \<subseteq> ?left c"
      using last by (auto simp: before_def split: option.splits)
    ultimately have "card (?left (Some d)) < card (?left c)"
      using assms(1) by (intro psubset_card_mono) auto
    then have "\<exists>out. walk fetch ss (Some d) = Inr (out, True)"
      using Cons.IH [of "Some d"] Cons.prems next_page [OF s Cons.prems(2) fetch'] by auto
    with fetch' show ?thesis by auto
  qed
qed simp

end

end
