(* ===== verification/Api_Transfers.thy ===== *)
theory Api_Transfers
  imports Presenters Config Pagination
begin

text \<open>
  The transfer endpoints, \<^verbatim>\<open>app/api/routes/transfers.py\<close>, with the dependencies of \<^verbatim>\<open>app/api/deps.py\<close> they run
  behind. FastAPI resolves the dependencies in the order of the declaration, those of the route first, before it
  validates query and body; a request it refuses is \<open>RequestValidationError\<close>.
\<close>

definition request_invalid :: exc where
  "request_invalid = OtherError ''RequestValidationError''"

section \<open>Dependencies\<close>

text \<open>\<^verbatim>\<open>X-User-Id\<close> must name an existing user.\<close>

definition get_current_user_id :: "string option \<Rightarrow> db \<Rightarrow> string result" where
  "get_current_user_id x_user_id s =
     (case x_user_id of
        None \<Rightarrow> Inl (mk_domain_error AUTHENTICATION_REQUIRED ''Missing or malformed X-User-Id header.'' [])
      | Some u \<Rightarrow>
          if \<not> user_id_format u
          then Inl (mk_domain_error AUTHENTICATION_REQUIRED ''Missing or malformed X-User-Id header.'' [])
          else if \<not> list_ex (\<lambda>r. usr_id r = u) (db_users s)
          then Inl (mk_domain_error AUTHENTICATION_REQUIRED ''Unknown user.'' [])
          else Inr u)"

text \<open>\<^verbatim>\<open>TRANSFER_ID_PATTERN.fullmatch\<close>: the format of the column.\<close>

abbreviation TRANSFER_ID_PATTERN :: "string \<Rightarrow> bool" where
  "TRANSFER_ID_PATTERN \<equiv> transfer_id_format"

section \<open>Reading\<close>

definition http_status_for :: "transfer_status \<Rightarrow> int" where
  "http_status_for st = (if st \<in> set FINAL_STATUSES then 201 else 202)"

definition get_transfer :: "pydantic \<Rightarrow> string \<Rightarrow> string option \<Rightarrow> db \<Rightarrow> transfer_out result" where
  "get_transfer py transfer_id x_user_id s =
     bindE (get_current_user_id x_user_id s) (\<lambda>user_id.
     bindE (raise_if (\<not> TRANSFER_ID_PATTERN transfer_id) transfer_not_found) (\<lambda>_.
     bindE (get_transfer_details s transfer_id (Some user_id)) (\<lambda>found.
     bindE (of_option transfer_not_found found) (transfer_out py))))"

text \<open>A list comprehension of calls that may raise.\<close>

fun mapE :: "('a \<Rightarrow> 'e + 'b) \<Rightarrow> 'a list \<Rightarrow> 'e + 'b list" where
  "mapE f [] = Inr []"
| "mapE f (x # xs) = bindE (f x) (\<lambda>y. bindE (mapE f xs) (\<lambda>ys. Inr (y # ys)))"

definition transfers_page ::
  "(string \<Rightarrow> nat list) \<Rightarrow> (moment \<Rightarrow> moment) \<Rightarrow> pydantic \<Rightarrow> string \<Rightarrow> int \<Rightarrow> db \<Rightarrow> string option
    \<Rightarrow> (transfer_summary_out list \<times> string option) result" where
  "transfers_page collate zone py user_id page_limit s cursor =
     bindE (raise_if (page_limit < 1 \<or> 100 < page_limit \<or> (case cursor of None \<Rightarrow> False | Some c \<Rightarrow> 512 < length c)) request_invalid) (\<lambda>_.
     bindE (case cursor of None \<Rightarrow> Inr None | Some c \<Rightarrow> if c = [] then Inr None
            else bindE (decode_cursor c) (\<lambda>d. Inr (Some d))) (\<lambda>decoded.
     bindE (list_transfers collate zone s user_id (nat page_limit) decoded) (\<lambda>(page, next_cursor).
     bindE (mapE (transfer_summary_out py) page) (\<lambda>data. Inr (data, next_cursor)))))"

definition get_transfers ::
  "(string \<Rightarrow> nat list) \<Rightarrow> (moment \<Rightarrow> moment) \<Rightarrow> pydantic \<Rightarrow> string option \<Rightarrow> int \<Rightarrow> string option \<Rightarrow> db
    \<Rightarrow> (transfer_summary_out list \<times> string option) result" where
  "get_transfers collate zone py x_user_id page_limit cursor s =
     bindE (get_current_user_id x_user_id s) (\<lambda>user_id. transfers_page collate zone py user_id page_limit s cursor)"

section \<open>Creating\<close>

text \<open>
  \<^verbatim>\<open>TransferCreateRequest\<close>: exactly the three members, program codes in their format and a strict integer in range.
\<close>

definition transfer_create_request :: "json \<Rightarrow> transfer_request result" where
  "transfer_create_request body =
     (case body of
        JObj kvs \<Rightarrow>
          if \<not> set (map fst kvs) \<subseteq> {''source_program'', ''destination_program'', ''source_points''} then Inl request_invalid
          else (case (map_of kvs ''source_program'', map_of kvs ''destination_program'', map_of kvs ''source_points'') of
                  (Some (JStr a), Some (JStr b), Some (JInt n)) \<Rightarrow>
                    if program_code_format a \<and> program_code_format b \<and> points_field_ok n
                    then Inr \<lparr>rq_source_program = a, rq_destination_program = b, rq_source_points = n\<rparr>
                    else Inl request_invalid
                | _ \<Rightarrow> Inl request_invalid)
      | _ \<Rightarrow> Inl request_invalid)"

text \<open>
  The handler: the saga, then the transfer as it is stored once others had their turn (\<open>others 4\<close>), with the status
  that says whether it is final.
\<close>

definition transfer_handler ::
  "pydantic \<Rightarrow> 'w transfer_service \<Rightarrow> timing \<Rightarrow> (nat \<Rightarrow> db \<Rightarrow> db) \<Rightarrow> string \<Rightarrow> string \<Rightarrow> transfer_request \<Rightarrow> string
    \<Rightarrow> db \<Rightarrow> 'w \<Rightarrow> handler_result result \<times> db \<times> 'w" where
  "transfer_handler py sv tm others new_id user_id request key s w =
     (case create_transfer sv tm others new_id user_id request key s w of
        (Inl e, s1, w1) \<Rightarrow> (Inl e, s1, w1)
      | (Inr transfer_id, s1, w1) \<Rightarrow>
          (bindE (get_transfer_details (others 4 s1) transfer_id (Some user_id)) (\<lambda>found.
           bindE (of_option (RuntimeError (''transfer '' @ transfer_id @ '' vanished after creation'')) found) (\<lambda>details.
           bindE (transfer_out py details) (\<lambda>out.
           Inr \<lparr>hn_status_code = http_status_for (tr_status (td_transfer details)), hn_body = transfer_out_json py out,
                hn_resource_id = Some transfer_id\<rparr>))), others 4 s1, w1))"

record 'r clients =
  cl_redis :: "'r redis"
  cl_pipeline :: "'r pipeline"

definition TRANSFERS_PATH :: string where "TRANSFERS_PATH = ''/v1/transfers''"

text \<open>
  The endpoint. \<open>headers\<close> are \<^verbatim>\<open>X-User-Id\<close> and \<^verbatim>\<open>Idempotency-Key\<close>. The clock is read by the limiter and by the
  idempotency service; \<open>others 0\<close> and \<open>others 1\<close> are what other requests commit around the key's transactions and
  the saga's; \<open>token\<close> and \<open>new_id\<close> are the random values of the request.
\<close>

definition post_transfer ::
  "'r clients \<Rightarrow> settings \<Rightarrow> pydantic \<Rightarrow> 'w partner_registry \<Rightarrow> timing \<Rightarrow> (nat \<Rightarrow> nat \<Rightarrow> db \<Rightarrow> db) \<Rightarrow> moment \<Rightarrow> string \<Rightarrow> string
    \<Rightarrow> string option \<Rightarrow> string option \<times> string option \<Rightarrow> json \<Rightarrow> db \<Rightarrow> 'r \<Rightarrow> 'w
    \<Rightarrow> json_response result \<times> db \<times> 'r \<times> 'w" where
  "post_transfer cl st py partners tm others now token new_id request_id headers body s r w =
     (case get_current_user_id (fst headers) s of
        Inl e \<Rightarrow> (Inl e, s, r, w)
      | Inr user_id \<Rightarrow>
        (case enforce_transfer_rate_limit (cl_pipeline cl) st now user_id r of
           (Inl e, r1) \<Rightarrow> (Inl e, s, r1, w)
         | (Inr _, r1) \<Rightarrow>
           (case bindE (validate_idempotency_key (snd headers)) (\<lambda>key. bindE (transfer_create_request body) (\<lambda>rq. Inr (key, rq))) of
              Inl e \<Rightarrow> (Inl e, s, r1, w)
            | Inr (key, rq) \<Rightarrow>
              run_idempotent (cl_redis cl) (get_idempotency_service st) (others 0) now token TRANSFERS_PATH request_id user_id key
                (compute_fingerprint ''POST'' TRANSFERS_PATH
                  (transfer_body (rq_source_program rq) (rq_destination_program rq) (rq_source_points rq)))
                (transfer_handler py (get_transfer_service partners st) tm (others 1) new_id user_id rq key) s r1 w)))"

end
