(* ===== verification/Transfer_Pages.thy ===== *)
theory Transfer_Pages
  imports Api_Transfers
begin

text \<open>
  Correctness of the transfer listing: \<open>transfers_page\<close> satisfies the contract of keyset pagination, so a client that
  follows \<^verbatim>\<open>next_cursor\<close> gets every transfer once while transfers are added.
\<close>

section \<open>Tokens are short enough\<close>

definition plain :: "string \<Rightarrow> bool" where
  "plain s = list_all (\<lambda>c. 32 \<le> (of_char c :: nat) \<and> (of_char c :: nat) < 127 \<and> c \<noteq> CHR 0x22 \<and> c \<noteq> CHR 0x5C) s"

lemma plain_simps [simp]: "plain []" "plain (a @ b) \<longleftrightarrow> plain a \<and> plain b"
  by (simp_all add: plain_def)

lemma plain_quoted: "plain s \<Longrightarrow> quoted s = CHR 0x22 # s @ [CHR 0x22]"
  unfolding quoted_def plain_def
  by (induction s) (auto simp: escape_ascii_def escape_char_def Let_def)

lemma plain_digits: "list_all is_digit s \<Longrightarrow> plain s"
  by (auto simp: plain_def list_all_iff is_digit_def in_range_def)

lemma plain_isoformat: "plain (isoformat m)"
proof -
  have pads: "plain (pad k n)" for k n by (rule plain_digits [OF pad_digits])
  have marks: "plain ''-''" "plain ''T''" "plain '':''" "plain ''.''" "plain ''+00:00''" by (simp_all add: plain_def)
  show ?thesis
    unfolding isoformat_def Let_def split_beta plain_simps(2) by (simp add: pads marks del: pad.simps append.simps)
qed

lemma length_isoformat: "length (isoformat m) \<le> 32"
  by (simp add: isoformat_def Let_def split_beta del: pad.simps)

lemma plain_transfer_id: "transfer_id_format i \<Longrightarrow> plain i"
proof -
  assume i: "transfer_id_format i"
  then have "plain (take 3 i)" by (simp add: transfer_id_format_def plain_def)
  moreover have "plain (drop 3 i)"
    using i by (auto simp: transfer_id_format_def plain_def list_all_iff is_crockford_def is_digit_def in_range_def)
  ultimately show ?thesis using plain_simps(2) [of "take 3 i" "drop 3 i"] by simp
qed

lemma b64_body_short: "3 * length (b64_body bs) \<le> 4 * length bs + 2"
  by (induction bs rule: b64_body.induct) simp_all

lemma length_rstrip: "length (rstrip c s) \<le> length s"
  using length_dropWhile_le [of "\<lambda>x. x = c" "rev s"] by (simp add: rstrip_def)

lemma token_fits:
  assumes "transfer_id_format i"
  shows "length (encode_cursor \<lparr>tc_created_at = Aware m, tc_transfer_id = i\<rparr>) \<le> 512"
proof -
  let ?raw = "json_text (JObj [(''t'', JStr (isoformat m)), (''id'', JStr i)])"
  have "length i = 29" using assms by (simp add: transfer_id_format_def)
  then have "length ?raw \<le> 84"
    using length_isoformat [of m]
    by (simp add: plain_quoted [OF plain_isoformat] plain_quoted [OF plain_transfer_id [OF assms]] plain_quoted [of "''t''"]
        plain_quoted [of "''id''"] plain_def [of "''t''"] plain_def [of "''id''"])
  then have "length (utf8_bytes ?raw) \<le> 84"
    using utf8_ascii(1) [OF ascii_json_text, of "JObj [(''t'', JStr (isoformat m)), (''id'', JStr i)]"] by simp
  then have "length (urlsafe_b64encode (utf8_bytes ?raw)) \<le> 512"
    using b64_body_short [of "utf8_bytes ?raw"] by (simp add: urlsafe_b64encode_def)
  then show ?thesis
    using length_rstrip [of "CHR ''=''" "urlsafe_b64encode (utf8_bytes ?raw)"] by (simp add: encode_cursor_def Let_def)
qed

section \<open>The rows of a page\<close>

text \<open>What the constraints of the schema give a listing, and that every stored snapshot can be shown.\<close>

definition listable :: "pydantic \<Rightarrow> db \<Rightarrow> bool" where
  "listable py s =
     (distinct (map tr_id (db_transfers s)) \<and> distinct (map prg_id (db_programs s))
      \<and> list_all (\<lambda>t. transfer_id_format (tr_id t) \<and> datetime_range (tr_created_at t)
          \<and> (case rate_snapshot_out py (tr_rate_snapshot t) of Inl _ \<Rightarrow> False | Inr _ \<Rightarrow> True)
          \<and> list_ex (\<lambda>p. prg_id p = tr_source_program_id t) (db_programs s)
          \<and> list_ex (\<lambda>p. prg_id p = tr_destination_program_id t) (db_programs s)) (db_transfers s))"

definition program_code :: "db \<Rightarrow> int \<Rightarrow> string" where
  "program_code s i = (case find (\<lambda>p. prg_id p = i) (db_programs s) of None \<Rightarrow> [] | Some p \<Rightarrow> prg_code p)"

definition listed :: "db \<Rightarrow> transfer \<Rightarrow> transfer_details" where
  "listed s t = \<lparr>td_transfer = t, td_source_program = program_code s (tr_source_program_id t),
     td_destination_program = program_code s (tr_destination_program_id t), td_events = []\<rparr>"

text \<open>A transfer as a page shows it.\<close>

definition shown :: "pydantic \<Rightarrow> db \<Rightarrow> transfer \<Rightarrow> transfer_summary_out" where
  "shown py s t = (case transfer_summary_out py (listed s t) of Inr x \<Rightarrow> x | Inl _ \<Rightarrow> undefined)"

lemma join_program:
  assumes "distinct (map prg_id (db_programs s))" "list_ex (\<lambda>p. prg_id p = i) (db_programs s)"
  shows "concat (map (\<lambda>p. if prg_id p = i then f (prg_code p) else []) (db_programs s)) = f (program_code s i)"
proof -
  obtain p where p: "p \<in> set (db_programs s)" "prg_id p = i" using assms(2) by (auto simp: list_ex_iff)
  have "find (\<lambda>q. prg_id q = i) (db_programs s) = Some p"
    using find_unique [of prg_id "db_programs s" p] assms(1) p by simp
  then show ?thesis
    using join_unique [OF assms(1) p, where f = "\<lambda>q. f (prg_code q)"] by (simp add: program_code_def)
qed

lemma with_program_codes_listable:
  assumes "listable py s" "set ts \<subseteq> set (db_transfers s)"
  shows "with_program_codes s ts
    = map (\<lambda>t. (t, program_code s (tr_source_program_id t), program_code s (tr_destination_program_id t))) ts"
proof -
  have "concat (map (\<lambda>p. if prg_id p = tr_source_program_id t
          then concat (map (\<lambda>q. if prg_id q = tr_destination_program_id t then [(t, prg_code p, prg_code q)] else []) (db_programs s))
          else []) (db_programs s))
      = [(t, program_code s (tr_source_program_id t), program_code s (tr_destination_program_id t))]" if "t \<in> set ts" for t
    using assms that join_program [of s "tr_source_program_id t"
        "\<lambda>a. concat (map (\<lambda>q. if prg_id q = tr_destination_program_id t then [(t, a, prg_code q)] else []) (db_programs s))"]
      join_program [of s "tr_destination_program_id t" "\<lambda>b. [(t, program_code s (tr_source_program_id t), b)]"]
    by (auto simp: listable_def list_all_iff)
  then have "with_program_codes s ts
      = concat (map (\<lambda>t. [(t, program_code s (tr_source_program_id t), program_code s (tr_destination_program_id t))]) ts)"
    unfolding with_program_codes_def by (metis (no_types, lifting) map_eq_conv)
  then show ?thesis by (simp add: concat_map_singleton)
qed

lemma shown_Inr:
  assumes "listable py s" "t \<in> set (db_transfers s)"
  shows "transfer_summary_out py (listed s t) = Inr (shown py s t)"
    and "to_id (shown py s t) = tr_id t" "to_created_at (shown py s t) = tr_created_at t"
proof -
  have "case rate_snapshot_out py (tr_rate_snapshot t) of Inl _ \<Rightarrow> False | Inr _ \<Rightarrow> True"
    using assms by (simp add: listable_def list_all_iff)
  then obtain r where "rate_snapshot_out py (tr_rate_snapshot t) = Inr r" by (auto split: sum.splits)
  then show "transfer_summary_out py (listed s t) = Inr (shown py s t)"
    and "to_id (shown py s t) = tr_id t" "to_created_at (shown py s t) = tr_created_at t"
    by (simp_all add: shown_def transfer_summary_out_def Let_def listed_def)
qed

lemma mapE_shown:
  "listable py s \<Longrightarrow> set ts \<subseteq> set (db_transfers s)
   \<Longrightarrow> mapE (transfer_summary_out py) (map (listed s) ts) = Inr (map (shown py s) ts)"
  by (induction ts) (auto simp: shown_Inr(1))

section \<open>The page as a window of the ordered rows\<close>

definition summary_key :: "(string \<Rightarrow> nat list) \<Rightarrow> transfer_summary_out \<Rightarrow> moment \<times> nat list" where
  "summary_key collate x = (to_created_at x, collate (to_id x))"

definition token_position :: "(string \<Rightarrow> nat list) \<Rightarrow> (moment \<Rightarrow> moment) \<Rightarrow> string \<Rightarrow> moment \<times> nat list" where
  "token_position collate zone token = (case decode_cursor token of Inr c \<Rightarrow> cursor_key collate zone c | Inl _ \<Rightarrow> (0, []))"

text \<open>The cursors that the service issues.\<close>

definition token_issued :: "string option \<Rightarrow> bool" where
  "token_issued c = (case c of None \<Rightarrow> True
     | Some token \<Rightarrow> \<exists>m i. datetime_range m \<and> transfer_id_format i \<and> token = encode_cursor \<lparr>tc_created_at = Aware m, tc_transfer_id = i\<rparr>)"

definition own_rows :: "pydantic \<Rightarrow> string \<Rightarrow> db \<Rightarrow> transfer_summary_out set" where
  "own_rows py user_id s = shown py s ` {t \<in> set (db_transfers s). tr_user_id t = user_id}"

definition pageable :: "(string \<Rightarrow> nat list) \<Rightarrow> pydantic \<Rightarrow> int \<Rightarrow> db \<Rightarrow> bool" where
  "pageable collate py page_limit s = (inj collate \<and> 1 \<le> page_limit \<and> page_limit \<le> 100 \<and> listable py s)"

definition newest_first :: "(string \<Rightarrow> nat list) \<Rightarrow> (moment \<Rightarrow> moment) \<Rightarrow> string \<Rightarrow> db \<Rightarrow> string option \<Rightarrow> transfer list" where
  "newest_first collate zone user_id s c =
     rev (sort_key (transfer_key collate)
       (filter (\<lambda>t. tr_user_id t = user_id \<and> before (transfer_key collate) (token_position collate zone) c t) (db_transfers s)))"

definition token_of :: "transfer \<Rightarrow> string" where
  "token_of t = encode_cursor \<lparr>tc_created_at = Aware (tr_created_at t), tc_transfer_id = tr_id t\<rparr>"

lemma sort_key_map: "sort_key f (map g xs) = map g (sort_key (\<lambda>x. f (g x)) xs)"
proof -
  have "insort_key f (g x) (map g ys) = map g (insort_key (\<lambda>x. f (g x)) x ys)" for x ys
    by (induction ys) auto
  then show ?thesis by (induction xs) simp_all
qed

lemma set_newest_first:
  "set (newest_first collate zone user_id s c) =
     {t \<in> set (db_transfers s). tr_user_id t = user_id \<and> before (transfer_key collate) (token_position collate zone) c t}"
  by (auto simp: newest_first_def)

lemma newest_first_sorted:
  assumes "inj collate" "listable py s"
  shows "sorted_wrt (\<lambda>a b. transfer_key collate b < transfer_key collate a) (newest_first collate zone user_id s c)"
proof -
  let ?ts = "filter (\<lambda>t. tr_user_id t = user_id \<and> before (transfer_key collate) (token_position collate zone) c t) (db_transfers s)"
  have "distinct (map tr_id ?ts)" using assms(2) by (simp add: listable_def distinct_map_filter)
  then have "distinct (map (transfer_key collate) ?ts)"
    using assms(1) by (auto simp: distinct_map inj_on_def transfer_key_def)
  then have "distinct (map (transfer_key collate) (sort_key (transfer_key collate) ?ts))"
    by (simp add: distinct_map)
  then have "sorted_wrt (<) (map (transfer_key collate) (sort_key (transfer_key collate) ?ts))"
    by (simp add: strict_sorted_iff)
  then show ?thesis by (simp add: newest_first_def sorted_wrt_rev sorted_wrt_map)
qed

lemma token_position_encode:
  "datetime_range m \<Longrightarrow> token_position collate zone (encode_cursor \<lparr>tc_created_at = Aware m, tc_transfer_id = i\<rparr>) = (m, collate i)"
  by (simp add: token_position_def decode_encode cursor_key_def)

lemma token_of_position:
  "listable py s \<Longrightarrow> t \<in> set (db_transfers s) \<Longrightarrow>
   token_issued (Some (token_of t)) \<and> token_position collate zone (token_of t) = transfer_key collate t"
  by (auto simp: listable_def list_all_iff token_issued_def token_of_def token_position_encode transfer_key_def)

lemma encode_nonempty: "datetime_range m \<Longrightarrow> encode_cursor \<lparr>tc_created_at = Aware m, tc_transfer_id = i\<rparr> \<noteq> []"
proof
  assume "datetime_range m" "encode_cursor \<lparr>tc_created_at = Aware m, tc_transfer_id = i\<rparr> = []"
  then have "decode_cursor [] = Inr \<lparr>tc_created_at = Aware m, tc_transfer_id = i\<rparr>" using decode_encode [of m i] by simp
  moreover have "decode_cursor [] = Inl INVALID_CURSOR_ERROR" by code_simp
  ultimately show False by simp
qed

lemma list_transfers_window:
  assumes "listable py s" "0 < n"
    and c: "\<And>t. (case decoded of None \<Rightarrow> True | Some d \<Rightarrow> transfer_key collate t < cursor_key collate zone d)
      = before (transfer_key collate) (token_position collate zone) c t"
  shows "list_transfers collate zone s user_id n decoded =
    (let L = newest_first collate zone user_id s c
     in Inr (map (listed s) (take n L), if n < length L then Some (token_of (L ! (n - 1))) else None))"
proof -
  let ?L = "newest_first collate zone user_id s c"
  let ?g = "\<lambda>t. (t, program_code s (tr_source_program_id t), program_code s (tr_destination_program_id t))"
  let ?ts = "filter (\<lambda>t. tr_user_id t = user_id \<and> before (transfer_key collate) (token_position collate zone) c t) (db_transfers s)"
  have codes: "with_program_codes s ?ts = map ?g ?ts"
    by (rule with_program_codes_listable [OF assms(1)]) auto
  have rows: "rev (sort_key (\<lambda>(t, _, _). transfer_key collate t) (map ?g ?ts)) = map ?g ?L"
    by (simp add: sort_key_map rev_map newest_first_def)
  have page: "map (\<lambda>(t, src, dst). \<lparr>td_transfer = t, td_source_program = src, td_destination_program = dst, td_events = []\<rparr>)
      (take n (take (n + 1) (map ?g ?L))) = map (listed s) (take n ?L)"
    by (simp add: take_map listed_def min_def)
  show ?thesis
  proof (cases "n < length ?L")
    case True
    then obtain rest where "rev (map (listed s) (take n ?L)) = listed s (?L ! (n - 1)) # rest"
      using assms(2) by (cases n) (simp_all add: take_Suc_conv_app_nth)
    with True show ?thesis
      unfolding list_transfers_def Let_def c codes rows page by (simp add: token_of_def listed_def)
  next
    case False
    then show ?thesis
      unfolding list_transfers_def Let_def c codes rows page by simp
  qed
qed

lemma transfers_page_window:
  assumes "pageable collate py page_limit s" "token_issued c"
  shows "transfers_page collate zone py user_id page_limit s c =
    (let L = newest_first collate zone user_id s c; n = nat page_limit
     in Inr (map (shown py s) (take n L), if n < length L then Some (token_of (L ! (n - 1))) else None))"
proof -
  let ?L = "newest_first collate zone user_id s c"
  have ok: "listable py s" "0 < nat page_limit" "\<not> page_limit < 1" "\<not> 100 < page_limit" using assms(1) by (auto simp: pageable_def)
  have "set (take (nat page_limit) ?L) \<subseteq> set (db_transfers s)"
    using set_take_subset [of "nat page_limit" ?L] set_newest_first by fastforce
  note data = mapE_shown [OF ok(1) this]
  show ?thesis
  proof (cases c)
    case None
    have "list_transfers collate zone s user_id (nat page_limit) None =
      (let L = newest_first collate zone user_id s None
       in Inr (map (listed s) (take (nat page_limit) L), if nat page_limit < length L then Some (token_of (L ! (nat page_limit - 1))) else None))"
      by (rule list_transfers_window [OF ok(1,2)]) (simp add: before_def)
    with None data ok show ?thesis by (simp add: transfers_page_def Let_def)
  next
    case (Some token)
    with assms(2) obtain m i where token: "datetime_range m" "transfer_id_format i"
      "token = encode_cursor \<lparr>tc_created_at = Aware m, tc_transfer_id = i\<rparr>" by (auto simp: token_issued_def)
    let ?d = "\<lparr>tc_created_at = Aware m, tc_transfer_id = i\<rparr>"
    have "list_transfers collate zone s user_id (nat page_limit) (Some ?d) =
      (let L = newest_first collate zone user_id s (Some token)
       in Inr (map (listed s) (take (nat page_limit) L), if nat page_limit < length L then Some (token_of (L ! (nat page_limit - 1))) else None))"
      by (rule list_transfers_window [OF ok(1,2)]) (simp add: before_def token token_position_encode cursor_key_def)
    with Some data ok show ?thesis
      using token_fits [OF token(2), of m] encode_nonempty [OF token(1), of i] decode_encode [OF token(1), of i]
      by (simp add: transfers_page_def Let_def token(3))
  qed
qed

lemma summary_key_shown: "listable py s \<Longrightarrow> t \<in> set (db_transfers s) \<Longrightarrow> summary_key collate (shown py s t) = transfer_key collate t"
  by (simp add: summary_key_def transfer_key_def shown_Inr)

lemma before_shown:
  "listable py s \<Longrightarrow> t \<in> set (db_transfers s) \<Longrightarrow>
   before (summary_key collate) pos c (shown py s t) = before (transfer_key collate) pos c t"
  by (simp add: before_def summary_key_shown split: option.splits)

text \<open>The rows that a position leaves, in terms of the ordered transfers.\<close>

lemma rows_before:
  assumes "listable py s"
  shows "{r \<in> own_rows py user_id s. before (summary_key collate) (token_position collate zone) c r}
    = shown py s ` set (newest_first collate zone user_id s c)"
  using before_shown [OF assms] by (auto simp: own_rows_def set_newest_first)

lemma sorted_take_key:
  assumes "listable py s" "inj collate"
  shows "sorted_wrt (\<lambda>a b. summary_key collate b < summary_key collate a)
    (map (shown py s) (take n (newest_first collate zone user_id s c)))"
proof -
  let ?L = "newest_first collate zone user_id s c"
  have "sorted_wrt (\<lambda>a b. transfer_key collate b < transfer_key collate a) (take n ?L)"
    by (rule sorted_wrt_take [OF newest_first_sorted [OF assms(2,1)]])
  then show ?thesis
    unfolding sorted_wrt_map
    by (rule sorted_wrt_mono_rel [rotated])
      (use set_newest_first summary_key_shown [OF assms(1)] in \<open>fastforce dest: in_set_takeD\<close>)
qed

text \<open>What a page with a successor leaves for the following ones lies below its last row.\<close>

lemma window_cut:
  assumes "sorted_wrt (\<lambda>a b. key b < key a) L" "n < length L" "0 < n" "t \<in> set L" "key (L ! (n - 1)) \<le> (key t :: 'k :: linorder)"
  shows "t \<in> set (take n L)"
proof -
  obtain i where i: "i < length L" "t = L ! i" using assms(4) by (auto simp: in_set_conv_nth)
  have "i < n"
  proof (rule ccontr)
    assume "\<not> i < n"
    then have "key (L ! i) < key (L ! (n - 1))"
      using assms(1-3) i(1) by (auto simp: sorted_wrt_iff_nth_less)
    with assms(5) i(2) show False by simp
  qed
  with i show ?thesis by (auto simp: in_set_conv_nth intro!: exI [of _ i])
qed

interpretation transfer_pages: keyset_pages
  "transfers_page collate zone py user_id page_limit" "own_rows py user_id" "summary_key collate" "token_position collate zone"
  "pageable collate py page_limit" token_issued
  for collate zone py user_id page_limit
proof (unfold_locales, goal_cases)
  case 1
  show ?case by (simp add: token_issued_def)
next
  case (2 s c)
  then show ?case by (simp add: transfers_page_window Let_def)
next
  case (3 s c page nxt)
  then show ?case
    using sorted_take_key [of py s collate] by (auto simp: transfers_page_window Let_def pageable_def)
next
  case (4 s c page nxt)
  then have "listable py s" by (simp add: pageable_def)
  with 4 show ?case
    unfolding rows_before [OF \<open>listable py s\<close>] by (auto simp: transfers_page_window Let_def intro: imageI [OF in_set_takeD])
next
  case (5 s c page)
  then have "listable py s" by (simp add: pageable_def)
  with 5 show ?case
    unfolding rows_before [OF \<open>listable py s\<close>] by (auto simp: transfers_page_window Let_def split: if_splits)
next
  case (6 s c page d)
  let ?L = "newest_first collate zone user_id s c" and ?n = "nat page_limit"
  have ok: "listable py s" "inj collate" "0 < ?n" using 6(1) by (auto simp: pageable_def)
  have page: "page = map (shown py s) (take ?n ?L)" "?n < length ?L" "d = token_of (?L ! (?n - 1))"
    using 6 by (auto simp: transfers_page_window Let_def split: if_splits)
  let ?t = "?L ! (?n - 1)"
  have "?t \<in> set ?L" using page(2) by simp
  then have t: "?t \<in> set (db_transfers s)" by (simp add: set_newest_first)
  have "last page = shown py s ?t"
  proof -
    have ne: "take ?n ?L \<noteq> []" and len: "length (take ?n ?L) = ?n" using page(2) ok(3) by auto
    then have "last (take ?n ?L) = ?t" using ok(3) by (simp only: last_conv_nth [OF ne] len nth_take)
    with ne show ?thesis by (simp add: page(1) last_map)
  qed
  moreover have "t' \<in> set (take ?n ?L)" if "t' \<in> set ?L" "transfer_key collate ?t \<le> transfer_key collate t'" for t'
    using window_cut [OF newest_first_sorted [OF ok(2,1)] page(2) ok(3) that] .
  moreover have "{r \<in> own_rows py user_id s. before (summary_key collate) (token_position collate zone) c r \<and> k \<le> summary_key collate r}
      = shown py s ` {t \<in> set ?L. k \<le> transfer_key collate t}" for k
  proof -
    have "{r \<in> own_rows py user_id s. before (summary_key collate) (token_position collate zone) c r \<and> k \<le> summary_key collate r}
        = {r \<in> shown py s ` set ?L. k \<le> summary_key collate r}"
      using rows_before [OF ok(1), of user_id collate zone c] by blast
    moreover have "summary_key collate (shown py s t) = transfer_key collate t" if "t \<in> set ?L" for t
      using that summary_key_shown [OF ok(1)] by (simp add: set_newest_first)
    ultimately show ?thesis by auto
  qed
  ultimately show ?case
    using page ok(3) token_of_position [OF ok(1) t, of collate zone] summary_key_shown [OF ok(1) t] by auto
qed

section \<open>A client that follows the cursors\<close>

definition own_transfers :: "string \<Rightarrow> db \<Rightarrow> (moment \<times> string) set" where
  "own_transfers user_id s = (\<lambda>t. (tr_created_at t, tr_id t)) ` {t \<in> set (db_transfers s). tr_user_id t = user_id}"

abbreviation identity :: "transfer_summary_out \<Rightarrow> moment \<times> string" where
  "identity x \<equiv> (to_created_at x, to_id x)"

lemma own_rows_identity: "listable py s \<Longrightarrow> identity ` own_rows py user_id s = own_transfers user_id s"
  by (auto simp: own_rows_def own_transfers_def shown_Inr image_image intro!: rev_image_eqI)

lemma summary_key_identity: "summary_key collate x = map_prod id collate (identity x)"
  by (simp add: summary_key_def)

lemma key_rows: "listable py s \<Longrightarrow> summary_key collate ` own_rows py user_id s = map_prod id collate ` own_transfers user_id s"
  unfolding own_rows_identity [symmetric] image_image summary_key_identity ..

lemma successively_last:
  "successively (\<lambda>s s'. f s \<subseteq> f s') ss \<Longrightarrow> s \<in> set ss \<Longrightarrow> f s \<subseteq> f (last ss)"
proof (induction ss arbitrary: s rule: induct_list012)
  case (3 x y zs)
  then have succ: "successively (\<lambda>s s'. f s \<subseteq> f s') (y # zs)" "f x \<subseteq> f y" by simp_all
  have IH: "f u \<subseteq> f (last (x # y # zs))" if "u \<in> set (y # zs)" for u
    using 3(2) [OF succ(1) that] by simp
  show ?case using IH [of y] IH [of s] succ(2) 3(4) by (auto simp del: last.simps)
qed auto

text \<open>
  C19: the pages list every transfer once. A client asks for the first page and follows \<^verbatim>\<open>next_cursor\<close>, one request per
  database of a sequence in which the user's transfers are only added, and asks more often than there are transfers.
  Every request succeeds and the last answers that there is no further page; the rows are in strictly descending
  order of creation time and id, so none is repeated, all transfers that existed at the first request are among
  them, and nothing but the user's own transfers.
\<close>

theorem pages_list_every_transfer_once:
  assumes collation: "inj collate" and limits: "1 \<le> page_limit" "page_limit \<le> 100"
    and states: "list_all (listable py) ss" "ss \<noteq> []"
    and growing: "successively (\<lambda>s s'. own_transfers user_id s \<subseteq> own_transfers user_id s') ss"
    and enough: "card (own_transfers user_id (last ss)) < length ss"
  shows "\<exists>out. walk (transfers_page collate zone py user_id page_limit) ss None = Inr (out, True)
    \<and> sorted_wrt (\<lambda>a b. (to_created_at b, collate (to_id b)) < (to_created_at a, collate (to_id a))) out
    \<and> own_transfers user_id (hd ss) \<subseteq> set (map identity out) \<and> set (map identity out) \<subseteq> own_transfers user_id (last ss)"
proof -
  let ?K = "map_prod id collate ` own_transfers user_id (last ss)"
  have listable: "listable py s" if "s \<in> set ss" for s using states(1) that by (simp add: list_all_iff)
  then have valid: "list_all (pageable collate py page_limit) ss"
    using collation limits by (simp add: list_all_iff pageable_def)
  have inj: "inj (map_prod id collate)" using collation by (simp add: map_prod_inj_on [of id UNIV collate UNIV, simplified])
  have keys: "summary_key collate ` own_rows py user_id s \<subseteq> ?K" if "s \<in> set ss" for s
    unfolding key_rows [OF listable [OF that]] by (rule image_mono [OF successively_last [OF growing that]])
  have "finite ?K" by (simp add: own_transfers_def)
  moreover have "card ?K < length ss" using enough by (simp add: card_image [OF inj_on_subset [OF inj]])
  ultimately obtain out where out: "walk (transfers_page collate zone py user_id page_limit) ss None = Inr (out, True)"
    using transfer_pages.walk_ends [where K = ?K and ss = ss and c = None and collate = collate and py = py and user_id = user_id
      and page_limit = page_limit and zone = zone] valid keys
    by (auto simp: list_all_iff token_issued_def)
  have "successively (\<lambda>s s'. summary_key collate ` own_rows py user_id s \<subseteq> summary_key collate ` own_rows py user_id s') ss"
    using growing by (rule successively_mono) (simp add: key_rows listable image_mono)
  note complete = transfer_pages.walk_complete [OF valid transfer_pages.start this states(2) out]
  have all: "identity ` own_rows py user_id (hd ss) \<subseteq> identity ` set out"
  proof -
    have "map_prod id collate ` identity ` own_rows py user_id (hd ss) \<subseteq> map_prod id collate ` identity ` set out"
      using complete unfolding image_image summary_key_identity by (simp add: before_def)
    then show ?thesis by (simp only: inj_image_subset_iff [OF inj])
  qed
  from transfer_pages.walk_returns [OF valid transfer_pages.start, where zone = zone and user_id = user_id] out
  have sorted: "sorted_wrt (\<lambda>a b. summary_key collate b < summary_key collate a) out"
    and own: "\<forall>r \<in> set out. \<exists>s \<in> set ss. r \<in> own_rows py user_id s" by auto
  have "identity r \<in> own_transfers user_id (last ss)" if "r \<in> set out" for r
    using own that own_rows_identity [OF listable] successively_last [OF growing] by blast
  with out sorted all states(2) show ?thesis
    by (auto simp: summary_key_def own_rows_identity [OF listable, symmetric])
qed

text \<open>A small pydantic, and a user with two transfers, one of which appears during the walk.\<close>

definition plain_pydantic :: pydantic where
  "plain_pydantic = \<lparr>pd_int = (\<lambda>v. case v of JInt i \<Rightarrow> Some i | _ \<Rightarrow> None), pd_datetime = isoformat\<rparr>"

definition page_id :: "char \<Rightarrow> string" where
  "page_id c = ''tr_'' @ replicate 26 c"

definition page_transfer :: "char \<Rightarrow> moment \<Rightarrow> transfer" where
  "page_transfer c m = sample_transfer\<lparr>tr_id := page_id c, tr_created_at := m,
     tr_rate_snapshot := snapshot_to_dict \<lparr>rs_rate_id = 1, rs_version = 1, rs_numerator = 2, rs_denominator = 3,
       rs_bonus_id = None, rs_bonus_bps = None\<rparr>\<rparr>"

definition page_db :: "transfer list \<Rightarrow> db" where
  "page_db ts = empty_db\<lparr>db_programs := db_programs sample_db, db_transfers := ts\<rparr>"

definition char_codes :: "string \<Rightarrow> nat list" where
  "char_codes = map of_char"

lemma page_transfer_simps [simp]:
  "tr_id (page_transfer c m) = page_id c" "tr_created_at (page_transfer c m) = m" "tr_user_id (page_transfer c m) = ''user_1''"
  by (simp_all add: page_transfer_def sample_transfer_def)

lemma own_page:
  "own_transfers u (page_db ts) = set (map (\<lambda>t. (tr_created_at t, tr_id t)) (filter (\<lambda>t. tr_user_id t = u) ts))"
  by (simp add: own_transfers_def page_db_def)

theorem pages_list_every_transfer_once_witness:
  "\<exists>out. walk (transfers_page char_codes id plain_pydantic ''user_1'' 1)
      [page_db [page_transfer CHR ''A'' 5], page_db [page_transfer CHR ''A'' 5, page_transfer CHR ''B'' 9],
       page_db [page_transfer CHR ''A'' 5, page_transfer CHR ''B'' 9]] None = Inr (out, True)
    \<and> (5, page_id CHR ''A'') \<in> set (map identity out)"
proof -
  let ?s = "page_db [page_transfer CHR ''A'' 5]" and ?u = "page_db [page_transfer CHR ''A'' 5, page_transfer CHR ''B'' 9]"
  have "inj (of_char :: char \<Rightarrow> nat)" by (rule inj_of_char)
  then have 1: "inj char_codes" unfolding char_codes_def by (rule inj_mapI)
  have 2: "list_all (listable plain_pydantic) [?s, ?u, ?u]" by code_simp
  show ?thesis
    using pages_list_every_transfer_once [OF 1, of 1 plain_pydantic "[?s, ?u, ?u]" "''user_1''" id] 2 by (simp add: own_page) blast
qed

end
