(* ===== verification/Rate_Cache.thy ===== *)
theory Rate_Cache
  imports Rate_Repository Iso_Time
begin

text \<open>
  The route cache, \<^verbatim>\<open>app/cache/rate_cache.py\<close>: routes as JSON texts in Redis with a time to live, and the
  provider that serves from it. The commands of the Redis client are an argument; each takes the server's time,
  and may fail (\<open>None\<close>). A cached text whose members have other types than the writer gives them is refused.
\<close>

section \<open>Texts of routes\<close>

definition KEY_PREFIX :: string where "KEY_PREFIX = ''rate-engine:v1:route''"

definition route_cache_key :: "string \<Rightarrow> string \<Rightarrow> string" where
  "route_cache_key source_code destination_code = KEY_PREFIX @ '':'' @ source_code @ '':'' @ destination_code"

definition moment_json :: "moment option \<Rightarrow> json" where
  "moment_json m = (case m of None \<Rightarrow> JNull | Some t \<Rightarrow> JStr (isoformat t))"

text \<open>\<^verbatim>\<open>asdict(route)\<close>, with the encoder for moments.\<close>

definition program_json :: "program_ref \<Rightarrow> json" where
  "program_json p = JObj [(''id'', JInt (pr_id p)), (''code'', JStr (pr_code p)), (''active'', JBool (pr_active p))]"

definition rate_json :: "rate_rule \<Rightarrow> json" where
  "rate_json r = JObj [(''rate_id'', JInt (rr_rate_id r)), (''version'', JInt (rr_version r)),
     (''numerator'', JInt (rr_numerator r)), (''denominator'', JInt (rr_denominator r)),
     (''min_source_points'', JInt (rr_min_source_points r)), (''source_increment'', JInt (rr_source_increment r)),
     (''max_source_points'', json_of_int_option (rr_max_source_points r)), (''effective_to'', moment_json (rr_effective_to r))]"

definition bonus_json :: "bonus_rule \<Rightarrow> json" where
  "bonus_json b = JObj [(''bonus_id'', JInt (br_bonus_id b)), (''bonus_bps'', JInt (br_bonus_bps b)),
     (''starts_at'', JStr (isoformat (br_starts_at b))), (''ends_at'', JStr (isoformat (br_ends_at b)))]"

definition serialize_route :: "route_config \<Rightarrow> string" where
  "serialize_route route =
     json_text (JObj [(''source'', program_json (rc_source route)), (''destination'', program_json (rc_destination route)),
       (''rate'', case rc_rate route of None \<Rightarrow> JNull | Some r \<Rightarrow> rate_json r),
       (''bonus'', case rc_bonus route of None \<Rightarrow> JNull | Some b \<Rightarrow> bonus_json b),
       (''valid_until'', moment_json (rc_valid_until route))])"

text \<open>Reading: a member of a dictionary, and values of the expected types.\<close>

definition member :: "json \<Rightarrow> string \<Rightarrow> json option" where
  "member v k = (case v of JObj kvs \<Rightarrow> map_of kvs k | _ \<Rightarrow> None)"

definition as_int :: "json \<Rightarrow> int option" where
  "as_int v = (case v of JInt i \<Rightarrow> Some i | _ \<Rightarrow> None)"

definition as_int_option :: "json \<Rightarrow> int option option" where
  "as_int_option v = (case v of JNull \<Rightarrow> Some None | JInt i \<Rightarrow> Some (Some i) | _ \<Rightarrow> None)"

definition as_moment :: "json \<Rightarrow> moment option" where
  "as_moment v = (case v of JStr s \<Rightarrow> (case fromisoformat s of Some (Aware m) \<Rightarrow> Some m | _ \<Rightarrow> None) | _ \<Rightarrow> None)"

definition as_moment_option :: "json \<Rightarrow> moment option option" where
  "as_moment_option v = (case v of JNull \<Rightarrow> Some None | _ \<Rightarrow> map_option Some (as_moment v))"

text \<open>\<^verbatim>\<open>ProgramRef(**d)\<close> needs exactly its three members; \<^verbatim>\<open>RateRule(**d)\<close> its eight.\<close>

definition keys_are :: "json \<Rightarrow> string list \<Rightarrow> bool" where
  "keys_are v ks = (case v of JObj kvs \<Rightarrow> set (map fst kvs) = set ks | _ \<Rightarrow> False)"

definition read_program :: "json \<Rightarrow> program_ref option" where
  "read_program v =
     (if \<not> keys_are v [''id'', ''code'', ''active''] then None
      else Option.bind (Option.bind (member v ''id'') as_int) (\<lambda>i.
           case (member v ''code'', member v ''active'') of
             (Some (JStr c), Some (JBool a)) \<Rightarrow> Some \<lparr>pr_id = i, pr_code = c, pr_active = a\<rparr>
           | _ \<Rightarrow> None))"

definition read_rate :: "json \<Rightarrow> rate_rule option" where
  "read_rate v =
     (if \<not> keys_are v [''rate_id'', ''version'', ''numerator'', ''denominator'', ''min_source_points'', ''source_increment'',
        ''max_source_points'', ''effective_to''] then None
      else
        Option.bind (Option.bind (member v ''rate_id'') as_int) (\<lambda>i.
        Option.bind (Option.bind (member v ''version'') as_int) (\<lambda>ver.
        Option.bind (Option.bind (member v ''numerator'') as_int) (\<lambda>num.
        Option.bind (Option.bind (member v ''denominator'') as_int) (\<lambda>den.
        Option.bind (Option.bind (member v ''min_source_points'') as_int) (\<lambda>low.
        Option.bind (Option.bind (member v ''source_increment'') as_int) (\<lambda>inc.
        Option.bind (Option.bind (member v ''max_source_points'') as_int_option) (\<lambda>high.
        Option.bind (Option.bind (member v ''effective_to'') as_moment_option) (\<lambda>e.
        Some \<lparr>rr_rate_id = i, rr_version = ver, rr_numerator = num, rr_denominator = den, rr_min_source_points = low,
          rr_source_increment = inc, rr_max_source_points = high, rr_effective_to = e\<rparr>)))))))))"

definition read_bonus :: "json \<Rightarrow> bonus_rule option" where
  "read_bonus v =
     Option.bind (Option.bind (member v ''bonus_id'') as_int) (\<lambda>i.
     Option.bind (Option.bind (member v ''bonus_bps'') as_int) (\<lambda>bps.
     Option.bind (Option.bind (member v ''starts_at'') as_moment) (\<lambda>a.
     Option.bind (Option.bind (member v ''ends_at'') as_moment) (\<lambda>e.
     Some \<lparr>br_bonus_id = i, br_bonus_bps = bps, br_starts_at = a, br_ends_at = e\<rparr>))))"

text \<open>\<^verbatim>\<open>f(x) if x else None\<close> for a value that may be absent.\<close>

definition if_truthy :: "json \<Rightarrow> (json \<Rightarrow> 'a option) \<Rightarrow> 'a option option" where
  "if_truthy v f = (if truthy v then map_option Some (f v) else Some None)"

definition deserialize_route :: "string \<Rightarrow> route_config option" where
  "deserialize_route payload =
     Option.bind (json_loads payload) (\<lambda>data.
     Option.bind (member data ''rate'') (\<lambda>rate.
     Option.bind (member data ''bonus'') (\<lambda>bonus.
     Option.bind (Option.bind (member data ''source'') read_program) (\<lambda>source.
     Option.bind (Option.bind (member data ''destination'') read_program) (\<lambda>destination.
     Option.bind (if_truthy rate read_rate) (\<lambda>rate_rule.
     Option.bind (if_truthy bonus read_bonus) (\<lambda>bonus_rule.
     Option.bind (Option.bind (member data ''valid_until'') as_moment_option) (\<lambda>valid_until.
     Some \<lparr>rc_source = source, rc_destination = destination, rc_rate = rate_rule, rc_bonus = bonus_rule,
       rc_valid_until = valid_until\<rparr>))))))))"

section \<open>The cache and the provider\<close>

text \<open>
  The commands of the client on a store \<open>'r\<close>, at the server's time: \<^verbatim>\<open>GET\<close>, \<^verbatim>\<open>SET\<close> with \<^verbatim>\<open>PX\<close> in milliseconds
  and \<^verbatim>\<open>DEL\<close>. \<open>None\<close> is a \<^verbatim>\<open>RedisError\<close>; a command that fails may have taken effect or not.
\<close>

record 'r cache_commands =
  cc_get :: "moment \<Rightarrow> string \<Rightarrow> 'r \<Rightarrow> string option option"
  cc_set :: "moment \<Rightarrow> string \<Rightarrow> string \<Rightarrow> int \<Rightarrow> 'r \<Rightarrow> unit option \<times> 'r"
  cc_delete :: "moment \<Rightarrow> string \<Rightarrow> 'r \<Rightarrow> unit option \<times> 'r"

definition cache_get :: "'r cache_commands \<Rightarrow> moment \<Rightarrow> string \<Rightarrow> string \<Rightarrow> 'r \<Rightarrow> route_config option" where
  "cache_get redis clock source_code destination_code w =
     (case cc_get redis clock (route_cache_key source_code destination_code) w of
        None \<Rightarrow> None
      | Some None \<Rightarrow> None
      | Some (Some payload) \<Rightarrow> deserialize_route payload)"

text \<open>
  The time to live in milliseconds. \<^verbatim>\<open>int(... * 1000)\<close> cuts towards zero; the product of floats it cuts may lie
  just below a whole number of milliseconds, which then ends the entry one millisecond earlier than here.
\<close>

definition cut_ms :: "int \<Rightarrow> int" where
  "cut_ms us = (if 0 \<le> us then us div 1000 else - ((- us) div 1000))"

definition ttl_ms :: "int \<Rightarrow> route_config \<Rightarrow> moment \<Rightarrow> int" where
  "ttl_ms ttl_seconds route at_time =
     (case rc_valid_until route of
        None \<Rightarrow> ttl_seconds * 1000
      | Some v \<Rightarrow> min (ttl_seconds * 1000) (cut_ms (v - at_time)))"

definition cache_set :: "'r cache_commands \<Rightarrow> int \<Rightarrow> moment \<Rightarrow> route_config \<Rightarrow> moment \<Rightarrow> 'r \<Rightarrow> 'r" where
  "cache_set redis ttl_seconds clock route at_time w =
     (if ttl_ms ttl_seconds route at_time \<le> 0 then w
      else snd (cc_set redis clock (route_cache_key (pr_code (rc_source route)) (pr_code (rc_destination route)))
                 (serialize_route route) (ttl_ms ttl_seconds route at_time) w))"

definition invalidate :: "'r cache_commands \<Rightarrow> moment \<Rightarrow> string \<Rightarrow> string \<Rightarrow> 'r \<Rightarrow> 'r" where
  "invalidate redis clock source_code destination_code w =
     snd (cc_delete redis clock (route_cache_key source_code destination_code) w)"

text \<open>
  The provider: a hit is returned as it is, a miss is answered by the inner provider and stored. The two
  time arguments are those of the server at the read and the write of Redis; the inner provider's argument is the database
  it reads.
\<close>

definition cached_get_route ::
  "'r cache_commands \<Rightarrow> int \<Rightarrow> (string \<Rightarrow> string \<Rightarrow> moment \<Rightarrow> route_config result) \<Rightarrow> moment \<Rightarrow> moment
   \<Rightarrow> string \<Rightarrow> string \<Rightarrow> moment \<Rightarrow> 'r \<Rightarrow> route_config result \<times> 'r" where
  "cached_get_route redis ttl_seconds inner read_time write_time source_code destination_code at_time w =
     (case cache_get redis read_time source_code destination_code w of
        Some cached \<Rightarrow> (Inr cached, w)
      | None \<Rightarrow>
          (case inner source_code destination_code at_time of
             Inl e \<Rightarrow> (Inl e, w)
           | Inr route \<Rightarrow> (Inr route, cache_set redis ttl_seconds write_time route at_time w)))"

section \<open>Reading back a cached route\<close>

definition option_range :: "moment option \<Rightarrow> bool" where
  "option_range m = (case m of None \<Rightarrow> True | Some t \<Rightarrow> datetime_range t)"

definition route_range :: "route_config \<Rightarrow> bool" where
  "route_range r =
     ((case rc_rate r of None \<Rightarrow> True | Some q \<Rightarrow> option_range (rr_effective_to q))
      \<and> (case rc_bonus r of None \<Rightarrow> True | Some b \<Rightarrow> datetime_range (br_starts_at b) \<and> datetime_range (br_ends_at b))
      \<and> option_range (rc_valid_until r))"

lemma as_moment_json [simp]:
  "datetime_range m \<Longrightarrow> as_moment (JStr (isoformat m)) = Some m"
  "option_range v \<Longrightarrow> as_moment_option (moment_json v) = Some v"
  by (auto simp: as_moment_def as_moment_option_def moment_json_def option_range_def fromisoformat_isoformat split: option.splits)

lemma as_int_json [simp]: "as_int (JInt i) = Some i" "as_int_option (json_of_int_option v) = Some v"
  by (auto simp: as_int_def as_int_option_def json_of_int_option_def split: option.splits)

lemma read_program_json [simp]: "read_program (program_json p) = Some p"
  by (simp add: read_program_def program_json_def keys_are_def member_def)

lemma read_rate_json [simp]: "option_range (rr_effective_to r) \<Longrightarrow> read_rate (rate_json r) = Some r"
  by (simp add: read_rate_def rate_json_def keys_are_def member_def)

lemma read_bonus_json [simp]:
  "datetime_range (br_starts_at b) \<Longrightarrow> datetime_range (br_ends_at b) \<Longrightarrow> read_bonus (bonus_json b) = Some b"
  by (simp add: read_bonus_def bonus_json_def member_def)

lemma unique_keys_moment [simp]: "unique_keys (moment_json m)" "unique_keys (json_of_int_option i)"
  by (simp_all add: moment_json_def json_of_int_option_def split: option.splits)

lemma unique_keys_route [simp]: "unique_keys (program_json p)" "unique_keys (rate_json r)" "unique_keys (bonus_json b)"
  by (simp_all add: program_json_def rate_json_def bonus_json_def)

lemma truthy_json [simp]: "truthy (rate_json r)" "truthy (bonus_json b)" "\<not> truthy JNull"
  by (simp_all add: rate_json_def bonus_json_def)

lemma deserialize_serialize:
  assumes "route_range r"
  shows "deserialize_route (serialize_route r) = Some r"
proof -
  let ?v = "JObj [(''source'', program_json (rc_source r)), (''destination'', program_json (rc_destination r)),
    (''rate'', case rc_rate r of None \<Rightarrow> JNull | Some r \<Rightarrow> rate_json r),
    (''bonus'', case rc_bonus r of None \<Rightarrow> JNull | Some b \<Rightarrow> bonus_json b),
    (''valid_until'', moment_json (rc_valid_until r))]"
  have "unique_keys ?v" by (auto split: option.splits)
  then have loads: "json_loads (serialize_route r) = Some ?v"
    unfolding serialize_route_def by (rule json_loads_text)
  have "if_truthy (case rc_rate r of None \<Rightarrow> JNull | Some r \<Rightarrow> rate_json r) read_rate = Some (rc_rate r)"
    and "if_truthy (case rc_bonus r of None \<Rightarrow> JNull | Some b \<Rightarrow> bonus_json b) read_bonus = Some (rc_bonus r)"
    and "as_moment_option (moment_json (rc_valid_until r)) = Some (rc_valid_until r)"
    using assms by (auto simp: if_truthy_def route_range_def split: option.splits)
  then show ?thesis by (simp add: deserialize_route_def loads member_def)
qed

section \<open>How old a served route can be\<close>

text \<open>
  What the cache relies on: a text is returned only for the key it was set under and for no longer than its time
  to live, whether the commands report success or not, and deleting adds nothing.
\<close>

definition expires :: "'r cache_commands \<Rightarrow> bool" where
  "expires redis =
     ((\<forall>t u k k' v x px w. t \<le> u \<longrightarrow> cc_get redis u k' (snd (cc_set redis t k v px w)) = Some (Some x) \<longrightarrow>
         k' = k \<and> x = v \<and> u < t + px * 1000 \<or> cc_get redis u k' w = Some (Some x))
      \<and> (\<forall>t u k k' x w. t \<le> u \<longrightarrow> cc_get redis u k' (snd (cc_delete redis t k w)) = Some (Some x) \<longrightarrow>
         cc_get redis u k' w = Some (Some x)))"

text \<open>
  What the rows promise: program codes have their format, moments are dates Python can write, and the exclusion
  constraint keeps the bonus windows of a route apart.
\<close>

definition cacheable :: "db \<Rightarrow> bool" where
  "cacheable s =
     (list_all (\<lambda>p. program_code_format (prg_code p)) (db_programs s)
      \<and> list_all (\<lambda>r. option_range (cr_effective_to r)) (db_rates s)
      \<and> list_all (\<lambda>b. datetime_range (tb_starts_at b) \<and> datetime_range (tb_ends_at b)) (db_bonuses s)
      \<and> bonuses_disjoint s)"

text \<open>
  The stores that requests and administrators produce, with the server's time. \<open>rows\<close> is the committed database
  at each moment. A request fills the cache within \<open>delay\<close> of the moment it priced, from the rows of a moment in
  between; that no version is dated after the priced moment leaves out a rate change committed in between.
\<close>

inductive cache_state :: "'r cache_commands \<Rightarrow> int \<Rightarrow> (moment \<Rightarrow> db) \<Rightarrow> int \<Rightarrow> moment \<Rightarrow> 'r \<Rightarrow> bool"
  for redis ttl_seconds rows delay where
  empty: "(\<And>u k x. cc_get redis u k w \<noteq> Some (Some x)) \<Longrightarrow> cache_state redis ttl_seconds rows delay now w"
| fill: "cache_state redis ttl_seconds rows delay now w \<Longrightarrow> now \<le> clock \<Longrightarrow> at_time \<le> d \<Longrightarrow> d \<le> clock
    \<Longrightarrow> clock - at_time \<le> delay \<Longrightarrow> get_route (rows d) src dst at_time = Inr route \<Longrightarrow> rates_started (rows d) at_time
    \<Longrightarrow> cache_state redis ttl_seconds rows delay clock (cache_set redis ttl_seconds clock route at_time w)"
| drop_entry: "cache_state redis ttl_seconds rows delay now w \<Longrightarrow> now \<le> clock
    \<Longrightarrow> cache_state redis ttl_seconds rows delay clock (invalidate redis clock src dst w)"

text \<open>An entry of the cache: the text of a route that was loaded lately enough.\<close>

definition fresh_entry :: "int \<Rightarrow> (moment \<Rightarrow> db) \<Rightarrow> int \<Rightarrow> moment \<Rightarrow> string \<Rightarrow> string \<Rightarrow> bool" where
  "fresh_entry ttl_seconds rows delay u k x =
     (\<exists>src dst at_time d clock route. k = route_cache_key src dst \<and> x = serialize_route route
        \<and> get_route (rows d) src dst at_time = Inr route \<and> rates_started (rows d) at_time
        \<and> at_time \<le> d \<and> d \<le> clock \<and> clock \<le> u \<and> clock - at_time \<le> delay
        \<and> 0 < ttl_ms ttl_seconds route at_time \<and> u < clock + ttl_ms ttl_seconds route at_time * 1000)"

lemma expires_set:
  "expires redis \<Longrightarrow> t \<le> u \<Longrightarrow> cc_get redis u k' (snd (cc_set redis t k v px w)) = Some (Some x)
   \<Longrightarrow> k' = k \<and> x = v \<and> u < t + px * 1000 \<or> cc_get redis u k' w = Some (Some x)"
  unfolding expires_def by blast

lemma expires_delete:
  "expires redis \<Longrightarrow> t \<le> u \<Longrightarrow> cc_get redis u k' (snd (cc_delete redis t k w)) = Some (Some x)
   \<Longrightarrow> cc_get redis u k' w = Some (Some x)"
  unfolding expires_def by blast

lemma get_route_codes:
  "get_route s src dst m = Inr route \<Longrightarrow> pr_code (rc_source route) = src \<and> pr_code (rc_destination route) = dst"
  by (drule get_route_Inr) auto

lemma cache_entries_fresh:
  assumes "cache_state redis ttl_seconds rows delay now w" "expires redis"
  shows "now \<le> u \<Longrightarrow> cc_get redis u k w = Some (Some x) \<Longrightarrow> fresh_entry ttl_seconds rows delay u k x"
  using assms
proof (induction arbitrary: u k x)
  case (fill now w clock at_time d src dst route)
  show ?case
  proof (cases "ttl_ms ttl_seconds route at_time \<le> 0")
    case True
    with fill show ?thesis by (simp add: cache_set_def)
  next
    case False
    then have "k = route_cache_key src dst \<and> x = serialize_route route \<and> u < clock + ttl_ms ttl_seconds route at_time * 1000
        \<or> cc_get redis u k w = Some (Some x)"
      using fill.prems(2) get_route_codes [OF fill.hyps(6)] expires_set [OF fill.prems(3,1)] by (auto simp: cache_set_def)
    then show ?thesis
    proof
      assume "k = route_cache_key src dst \<and> x = serialize_route route \<and> u < clock + ttl_ms ttl_seconds route at_time * 1000"
      with fill.hyps fill.prems(1) False show ?thesis
        unfolding fresh_entry_def
        by (intro exI [of _ src] exI [of _ dst] exI [of _ at_time] exI [of _ d] exI [of _ clock] exI [of _ route]) simp
    next
      assume "cc_get redis u k w = Some (Some x)"
      then show ?thesis using fill.IH fill.hyps(2) fill.prems by fastforce
    qed
  qed
next
  case (drop_entry now w clock src dst)
  have "cc_get redis u k w = Some (Some x)"
    using expires_delete [OF drop_entry.prems(3,1)] drop_entry.prems(2) unfolding invalidate_def .
  with drop_entry.IH drop_entry.hyps(2) drop_entry.prems(1,3) show ?case by fastforce
qed simp

lemma code_no_colon: "program_code_format s \<Longrightarrow> CHR '':'' \<notin> set s"
  by (auto simp: program_code_format_def list_all_iff is_upper_def is_digit_def in_range_def split: list.splits)

lemma route_cache_key_inj:
  assumes "route_cache_key a b = route_cache_key c d" "CHR '':'' \<notin> set c" "CHR '':'' \<notin> set d"
  shows "a = c \<and> b = d"
proof -
  from assms(1) have eq: "a @ CHR '':'' # b = c @ CHR '':'' # d" by (simp add: route_cache_key_def)
  then have "count_list (a @ CHR '':'' # b) CHR '':'' = count_list (c @ CHR '':'' # d) CHR '':''" by simp
  with assms(2,3) have "CHR '':'' \<notin> set a" by (auto simp: count_list_0_iff)
  then show ?thesis using eq split_at_mark [of "CHR '':''" a c b d] assms(2) by simp
qed

lemma route_in_range:
  assumes "get_route s src dst m = Inr route" "cacheable s"
  shows "route_range route"
proof -
  obtain p q where r: "rc_rate route = map_option to_rate_rule (current_rate s p q m)"
    "rc_bonus route = map_option to_bonus_rule (current_bonus s p q m)"
    "rc_valid_until route = earliest (known [Option.bind (rc_rate route) rr_effective_to,
       map_option br_ends_at (rc_bonus route), next_bonus_start s p q m])"
    using get_route_Inr [OF assms(1)] by blast
  have rate: "option_range (rr_effective_to x)" if "rc_rate route = Some x" for x
    using that assms(2) r(1) by (auto simp: cacheable_def list_all_iff to_rate_rule_def dest: current_rate_Some(1))
  have bonus: "datetime_range (br_starts_at x) \<and> datetime_range (br_ends_at x)" if "rc_bonus route = Some x" for x
    using that assms(2) r(2) by (auto simp: cacheable_def list_all_iff to_bonus_rule_def current_bonus_def dest!: find_SomeD)
  have start: "datetime_range v" if "next_bonus_start s p q m = Some v" for v
    using that assms(2) by (auto simp: next_bonus_start_def earliest_Some_iff cacheable_def list_all_iff)
  have "datetime_range v" if "rc_valid_until route = Some v" for v
  proof -
    have "Some v \<in> {Option.bind (rc_rate route) rr_effective_to, map_option br_ends_at (rc_bonus route), next_bonus_start s p q m}"
      using that r(3) set_known [of "[Option.bind (rc_rate route) rr_effective_to, map_option br_ends_at (rc_bonus route), next_bonus_start s p q m]"]
      by (auto simp: earliest_Some_iff simp del: known.simps)
    then show ?thesis
      using rate bonus start
      by (cases "rc_rate route"; cases "rc_bonus route") (auto simp: option_range_def split: option.splits)
  qed
  with rate bonus show ?thesis by (auto simp: route_range_def option_range_def split: option.splits)
qed

lemma cut_ms_le: "0 < cut_ms us \<Longrightarrow> cut_ms us * 1000 \<le> us"
  using mult_div_mod_eq [of 1000 us] pos_mod_sign [of 1000 us] pos_imp_zdiv_nonneg_iff [of 1000 "- us"]
  by (auto simp: cut_ms_def split: if_splits)

text \<open>A hit is a route the rows of the last \<open>ttl + delay\<close> gave, at a moment at most \<open>delay\<close> before the request's.\<close>

lemma fresh_hit:
  assumes fresh: "fresh_entry ttl_seconds rows delay u (route_cache_key src dst) x" and rows: "\<forall>d. cacheable (rows d)"
    and hit: "deserialize_route x = Some route" and at: "at_time \<le> u"
  shows "\<exists>m d. get_route (rows d) src dst m = Inr route \<and> at_time - delay \<le> m \<and> m \<le> u
    \<and> u - ttl_seconds * 1000000 - delay < d \<and> d \<le> u"
proof -
  from fresh obtain src' dst' a d c r where e: "route_cache_key src dst = route_cache_key src' dst'" "x = serialize_route r"
    "get_route (rows d) src' dst' a = Inr r" "rates_started (rows d) a" "a \<le> d" "d \<le> c" "c \<le> u" "c - a \<le> delay"
    "0 < ttl_ms ttl_seconds r a" "u < c + ttl_ms ttl_seconds r a * 1000"
    unfolding fresh_entry_def by blast
  have cd: "cacheable (rows d)" using rows by blast
  have "r = route" using hit e(2) deserialize_serialize [OF route_in_range [OF e(3) cd]] by simp
  moreover have "program_code_format src'" "program_code_format dst'"
    using get_route_Inr [OF e(3)] cd by (auto simp: cacheable_def list_all_iff)
  then have "src' = src \<and> dst' = dst"
    using route_cache_key_inj [OF e(1)] code_no_colon by blast
  ultimately have load: "get_route (rows d) src dst a = Inr route" using e(3) by simp
  let ?m = "max a (at_time - delay)"
  have "?m < v" if "rc_valid_until route = Some v" for v
    using that e(8-10) at \<open>r = route\<close> cut_ms_le [of "v - a"] by (auto simp: ttl_ms_def)
  then have "get_route (rows d) src dst ?m = Inr route"
    using get_route_stable [OF load] e(4) cd by (simp add: cacheable_def)
  moreover have "ttl_ms ttl_seconds r a \<le> ttl_seconds * 1000"
    by (auto simp: ttl_ms_def split: option.splits)
  ultimately show ?thesis
    using e(5-10) at by (intro exI [of _ ?m] exI [of _ d]) auto
qed

text \<open>
  C24: a cached quote is nearly current. Whatever requests and administrators did before, and whether or not Redis
  answers, the provider fails only as the database does; a route it returns is the one that rows no older than
  the time to live plus \<open>delay\<close> gave for a moment at most \<open>delay\<close> before the request's, where \<open>delay\<close> bounds the time
  from a request's clock reading to its write of the cache. So without such a delay a rate or bonus that
  ends or starts is seen at once, and a change of an administrator within the time to live.
\<close>

theorem cached_route_nearly_current:
  assumes "expires redis" "\<forall>d. cacheable (rows d)" "0 \<le> delay" "0 < ttl_seconds"
    and "cache_state redis ttl_seconds rows delay now w" "now \<le> u" "at_time \<le> u" "u \<le> d"
  shows "case fst (cached_get_route redis ttl_seconds (get_route (rows d)) u c src dst at_time w) of
      Inl e \<Rightarrow> get_route (rows d) src dst at_time = Inl e
    | Inr route \<Rightarrow> \<exists>m d'. get_route (rows d') src dst m = Inr route \<and> at_time - delay \<le> m \<and> m \<le> u
        \<and> u - ttl_seconds * 1000000 - delay < d' \<and> d' \<le> d"
proof (cases "cache_get redis u src dst w")
  case None
  have "at_time - delay \<le> at_time \<and> at_time \<le> u \<and> u - ttl_seconds * 1000000 - delay < d \<and> d \<le> d"
    using assms(3,4,7,8) by linarith
  with None show ?thesis by (fastforce simp: cached_get_route_def split: sum.splits)
next
  case (Some route)
  then obtain x where x: "cc_get redis u (route_cache_key src dst) w = Some (Some x)" "deserialize_route x = Some route"
    by (auto simp: cache_get_def split: option.splits)
  note fresh = cache_entries_fresh [OF assms(5,1,6) x(1)]
  from fresh_hit [OF fresh assms(2) x(2) assms(7)] assms(8) Some show ?thesis
    by (fastforce simp: cached_get_route_def)
qed

text \<open>A store that drops entries at their expiry, and a route whose bonus starts 5 ms after the epoch.\<close>

definition plain_cache :: "(string \<times> string \<times> moment) list cache_commands" where
  "plain_cache = \<lparr>
     cc_get = (\<lambda>u k w. Some (case map_of w k of None \<Rightarrow> None | Some (x, e) \<Rightarrow> if u < e then Some x else None)),
     cc_set = (\<lambda>t k v px w. (Some (), (k, v, t + px * 1000) # w)),
     cc_delete = (\<lambda>t k w. (Some (), filter (\<lambda>e. fst e \<noteq> k) w))\<rparr>"

definition cache_db :: db where
  "cache_db = sample_db\<lparr>db_bonuses := [\<lparr>tb_id = 1, tb_source_program_id = 1, tb_destination_program_id = 2,
     tb_bonus_bps = 2500, tb_starts_at = 5000, tb_ends_at = 90000, tb_created_at = 0\<rparr>]\<rparr>"

definition cache_route :: route_config where
  "cache_route = \<lparr>rc_source = \<lparr>pr_id = 1, pr_code = ''CARD_A'', pr_active = True\<rparr>,
     rc_destination = \<lparr>pr_id = 2, pr_code = ''AIR_B'', pr_active = True\<rparr>,
     rc_rate = map_option to_rate_rule (first_row (db_rates sample_db)), rc_bonus = None, rc_valid_until = Some 5000\<rparr>"

lemma map_of_filter_key: "map_of (filter (\<lambda>e. fst e \<noteq> k) w) k' = (if k' = k then None else map_of w k')"
  by (induction w) auto

lemma plain_cache_expires: "expires plain_cache"
  by (auto simp: expires_def plain_cache_def map_of_filter_key split: option.splits if_splits)

lemma cache_sample:
  "get_route cache_db ''CARD_A'' ''AIR_B'' 10 = Inr cache_route" "rates_started cache_db 10" "cacheable cache_db"
  by code_simp+

text \<open>
  The delay shows: a route loaded at 0.01 ms and stored at 3 ms is still served to a request at 6 ms, although
  its bonus started at 5 ms.
\<close>

theorem cached_route_nearly_current_witness:
  "let w = cache_set plain_cache 300 3000 cache_route 10 []
   in fst (cached_get_route plain_cache 300 (get_route cache_db) 6500 6600 ''CARD_A'' ''AIR_B'' 6000 w) = Inr cache_route
      \<and> (\<exists>m. get_route cache_db ''CARD_A'' ''AIR_B'' m = Inr cache_route \<and> 3010 \<le> m \<and> m \<le> 6500)
      \<and> get_route cache_db ''CARD_A'' ''AIR_B'' 6000 \<noteq> Inr cache_route"
proof -
  let ?w = "cache_set plain_cache 300 3000 cache_route 10 []"
  have "cache_state plain_cache 300 (\<lambda>_. cache_db) 2990 3000 ?w"
    by (rule cache_state.fill [OF cache_state.empty [where now = 0], where d = 20 and src = "''CARD_A''" and dst = "''AIR_B''"])
      (simp_all add: cache_sample plain_cache_def)
  note nearly = cached_route_nearly_current [OF plain_cache_expires _ _ _ this, where u = 6500 and at_time = 6000 and d = 6550
      and c = 6600 and src = "''CARD_A''" and dst = "''AIR_B''"]
  have "deserialize_route (serialize_route cache_route) = Some cache_route"
    by (rule deserialize_serialize [OF route_in_range [OF cache_sample(1,3)]])
  then have hit: "fst (cached_get_route plain_cache 300 (get_route cache_db) 6500 6600 ''CARD_A'' ''AIR_B'' 6000 ?w) = Inr cache_route"
    by (simp add: cached_get_route_def cache_get_def cache_set_def plain_cache_def ttl_ms_def cache_route_def cut_ms_def)
  have late: "get_route cache_db ''CARD_A'' ''AIR_B'' 6000 \<noteq> Inr cache_route" by code_simp
  from nearly hit late cache_sample(3) show ?thesis by (auto simp: Let_def)
qed

end
