(* ===== verification/Api_Endpoints.thy ===== *)
theory Api_Endpoints
  imports Api_Transfers Rate_Admin Rate_Cache
begin

text \<open>
  The other endpoints, \<^verbatim>\<open>app/api/routes/\<close>: quotes, programs, accounts, administration and readiness. The models a
  route returns are records; FastAPI writes them out.
\<close>

section \<open>Quotes\<close>

text \<open>\<^verbatim>\<open>QuoteRequest\<close> has the fields of a transfer request.\<close>

definition quote_request :: "json \<Rightarrow> transfer_request result" where
  "quote_request = transfer_create_request"

record quote_response =
  qr_source_program :: string
  qr_destination_program :: string
  qr_source_points :: int
  qr_base_points :: int
  qr_bonus_points :: int
  qr_destination_points :: int
  qr_rate :: rate_snapshot
  qr_quoted_at :: moment
  qr_expires_at :: moment

definition quote_response_of :: "quote \<Rightarrow> quote_response" where
  "quote_response_of q =
     (let c = q_conversion q in
      \<lparr>qr_source_program = q_source_program q, qr_destination_program = q_destination_program q,
       qr_source_points = cv_source_points c, qr_base_points = cv_base_points c, qr_bonus_points = cv_bonus_points c,
       qr_destination_points = cv_destination_points c, qr_rate = cv_snapshot c, qr_quoted_at = q_quoted_at q,
       qr_expires_at = q_expires_at q\<rparr>)"

text \<open>
  \<^verbatim>\<open>get_quote_service\<close>: the service quotes with the cached provider. The store changes where the provider is asked,
  which the two checks before it may prevent.
\<close>

definition quote_with_cache ::
  "'r cache_commands \<Rightarrow> settings \<Rightarrow> moment \<Rightarrow> moment \<Rightarrow> moment \<Rightarrow> transfer_request \<Rightarrow> db \<Rightarrow> 'r \<Rightarrow> quote result \<times> 'r" where
  "quote_with_cache redis st now read_time write_time rq s w =
     (let src = rq_source_program rq; dst = rq_destination_program rq; points = rq_source_points rq;
          most = Some (ss_max_transfer_points (se_service st));
          provider = (\<lambda>a b t. cached_get_route redis (ss_rate_cache_ttl_seconds (se_service st)) (get_route s) read_time write_time a b t w)
      in (quote_transfer (\<lambda>a b t. fst (provider a b t)) (seconds (ss_quote_ttl_seconds (se_service st))) most now src dst points,
          case bindE (ensure_different_programs src dst) (\<lambda>_. ensure_within_platform_limit points most) of
            Inl _ \<Rightarrow> w | Inr _ \<Rightarrow> snd (provider src dst now)))"

definition create_quote ::
  "'r cache_commands \<Rightarrow> settings \<Rightarrow> moment \<Rightarrow> moment \<Rightarrow> moment \<Rightarrow> json \<Rightarrow> db \<Rightarrow> 'r \<Rightarrow> quote_response result \<times> 'r" where
  "create_quote redis st now read_time write_time body s w =
     (case quote_request body of
        Inl e \<Rightarrow> (Inl e, w)
      | Inr rq \<Rightarrow>
          (case quote_with_cache redis st now read_time write_time rq s w of
             (q, w') \<Rightarrow> (bindE q (\<lambda>q. Inr (quote_response_of q)), w')))"

section \<open>Programs and accounts\<close>

record program_out =
  po_code :: string
  po_name :: string
  po_type :: program_type
  po_is_active :: bool

record account_out =
  ao_program :: string
  ao_program_name :: string
  ao_program_type :: program_type
  ao_balance :: int
  ao_external_member_id :: "string option"
  ao_updated_at :: moment

fun program_type_text :: "program_type \<Rightarrow> string" where
  "program_type_text program_type.CARD = ''CARD''"
| "program_type_text LOYALTY = ''LOYALTY''"

text \<open>\<^verbatim>\<open>order_by(Program.type, Program.code)\<close>; the type is a text column too.\<close>

definition by_type_and_code :: "(string \<Rightarrow> nat list) \<Rightarrow> ('a \<Rightarrow> program) \<Rightarrow> 'a list \<Rightarrow> 'a list" where
  "by_type_and_code collate f xs =
     sort_key (\<lambda>x. (collate (program_type_text (prg_type (f x))), collate (prg_code (f x)))) xs"

definition list_programs :: "(string \<Rightarrow> nat list) \<Rightarrow> db \<Rightarrow> program_out list" where
  "list_programs collate s =
     map (\<lambda>p. \<lparr>po_code = prg_code p, po_name = prg_name p, po_type = prg_type p, po_is_active = prg_active p\<rparr>)
       (by_type_and_code collate (\<lambda>p. p) (db_programs s))"

definition list_accounts :: "(string \<Rightarrow> nat list) \<Rightarrow> string option \<Rightarrow> db \<Rightarrow> (string \<times> account_out list) result" where
  "list_accounts collate x_user_id s =
     bindE (get_current_user_id x_user_id s) (\<lambda>user_id.
       let rows = [(a, p). a \<leftarrow> db_accounts s, acc_owner_type a = USER \<and> acc_user_id a = Some user_id,
                     p \<leftarrow> db_programs s, prg_id p = acc_program_id a]
       in Inr (user_id, map (\<lambda>(a, p). \<lparr>ao_program = prg_code p, ao_program_name = prg_name p, ao_program_type = prg_type p,
              ao_balance = acc_balance a, ao_external_member_id = mask_member_id (acc_external_member_id a),
              ao_updated_at = acc_updated_at a\<rparr>) (by_type_and_code collate snd rows)))"

section \<open>Administration\<close>

text \<open>\<^verbatim>\<open>hmac.compare_digest\<close> compares the two texts.\<close>

definition require_admin :: "settings \<Rightarrow> string option \<Rightarrow> unit result" where
  "require_admin st x_admin_key =
     raise_if ((case x_admin_key of None \<Rightarrow> [] | Some k \<Rightarrow> k) \<noteq> se_admin_api_key st)
       (mk_domain_error ADMIN_AUTH_REQUIRED ''Missing or invalid X-Admin-Key header.'' [])"

text \<open>\<^verbatim>\<open>_rate_out\<close>: the version with the property \<^verbatim>\<open>is_current\<close>.\<close>

definition rate_out :: "rate_version \<Rightarrow> rate_version \<times> bool" where
  "rate_out r = (r, is_current r)"

definition admin_list_rates ::
  "settings \<Rightarrow> (string \<Rightarrow> nat list) \<Rightarrow> string option \<Rightarrow> string option \<Rightarrow> string option \<Rightarrow> db \<Rightarrow> (rate_version \<times> bool) list result" where
  "admin_list_rates st collate x_admin_key source_program destination_program s =
     bindE (require_admin st x_admin_key) (\<lambda>_.
     bindE (raise_if (case source_program of None \<Rightarrow> False | Some c \<Rightarrow> \<not> program_code_format c) request_invalid) (\<lambda>_.
     bindE (raise_if (case destination_program of None \<Rightarrow> False | Some c \<Rightarrow> \<not> program_code_format c) request_invalid) (\<lambda>_.
     Inr (map rate_out (list_rates collate source_program destination_program s)))))"

text \<open>The bodies arrive validated: \<open>rate_request_ok\<close> is \<^verbatim>\<open>RateCreateRequest\<close>, \<open>bonus_request_ok\<close> is \<^verbatim>\<open>BonusCreateRequest\<close>.\<close>

definition bonus_request_ok :: "new_bonus \<Rightarrow> bool" where
  "bonus_request_ok n =
     (program_code_format (nb_source_program n) \<and> program_code_format (nb_destination_program n)
      \<and> 0 < nb_bonus_bps n \<and> nb_bonus_bps n \<le> 10000)"

definition admin_create_rate ::
  "'r cache_commands \<Rightarrow> settings \<Rightarrow> moment \<Rightarrow> moment option \<Rightarrow> moment \<Rightarrow> string option \<Rightarrow> new_rate \<Rightarrow> db \<Rightarrow> 'r
    \<Rightarrow> (rate_version \<times> bool) result \<times> db \<times> 'r" where
  "admin_create_rate redis st dbnow clock redis_time x_admin_key body s w =
     (case bindE (require_admin st x_admin_key) (\<lambda>_. raise_if (\<not> rate_request_ok body) request_invalid) of
        Inl e \<Rightarrow> (Inl e, s, w)
      | Inr _ \<Rightarrow>
          (case create_rate_version (invalidate redis redis_time) dbnow clock body s w of
             (r, s', w') \<Rightarrow> (bindE r (\<lambda>v. Inr (rate_out v)), s', w')))"

definition admin_create_bonus ::
  "'r cache_commands \<Rightarrow> settings \<Rightarrow> moment \<Rightarrow> moment \<Rightarrow> moment \<Rightarrow> string option \<Rightarrow> new_bonus \<Rightarrow> db \<Rightarrow> 'r
    \<Rightarrow> bonus_view result \<times> db \<times> 'r" where
  "admin_create_bonus redis st dbnow now redis_time x_admin_key body s w =
     (case bindE (require_admin st x_admin_key) (\<lambda>_. raise_if (\<not> bonus_request_ok body) request_invalid) of
        Inl e \<Rightarrow> (Inl e, s, w)
      | Inr _ \<Rightarrow> create_bonus (invalidate redis redis_time) dbnow body now s w)"

text \<open>What \<^verbatim>\<open>except LookupError\<close> catches: the class, its subclass \<^verbatim>\<open>UnknownPartnerError\<close>, and those of Python.\<close>

fun is_lookup_error :: "exc \<Rightarrow> bool" where
  "is_lookup_error (LookupError _) = True"
| "is_lookup_error (UnknownPartnerError _) = True"
| "is_lookup_error (OtherError name) = (name = ''KeyError'' \<or> name = ''IndexError'')"
| "is_lookup_error _ = False"

text \<open>On-demand reconciliation; the transfer is read after others had their turn (\<open>others 3\<close>).\<close>

definition reconcile_transfer ::
  "pydantic \<Rightarrow> settings \<Rightarrow> 'w partner_registry \<Rightarrow> timing \<Rightarrow> (nat \<Rightarrow> db \<Rightarrow> db) \<Rightarrow> string option \<Rightarrow> string \<Rightarrow> db \<Rightarrow> 'w
    \<Rightarrow> (reconcile_result \<times> transfer_out) result \<times> db \<times> 'w" where
  "reconcile_transfer py st partners tm others x_admin_key transfer_id s w =
     (case bindE (require_admin st x_admin_key) (\<lambda>_. raise_if (\<not> TRANSFER_ID_PATTERN transfer_id) transfer_not_found) of
        Inl e \<Rightarrow> (Inl e, s, w)
      | Inr _ \<Rightarrow>
          (case reconcile partners (from_settings st) tm others transfer_id s w of
             (Inl e, s1, w1) \<Rightarrow> (Inl (if is_lookup_error e then transfer_not_found else e), s1, w1)
           | (Inr result, s1, w1) \<Rightarrow>
               (bindE (get_transfer_details (others 3 s1) transfer_id None) (\<lambda>found.
                bindE (of_option transfer_not_found found) (\<lambda>details.
                bindE (transfer_out py details) (\<lambda>out. Inr (result, out)))), others 3 s1, w1)))"

text \<open>
  The handler cannot tell a transfer that does not exist from one whose partner has no adapter: both are answered
  with \<^verbatim>\<open>TRANSFER_NOT_FOUND\<close>.
\<close>

lemma unknown_partner_reported_missing:
  assumes "reconcile partners (from_settings st) tm others transfer_id s w = (Inl (UnknownPartnerError code), s1, w1)"
    and "transfer_id_format transfer_id"
  shows "reconcile_transfer py st partners tm others (Some (se_admin_api_key st)) transfer_id s w = (Inl transfer_not_found, s1, w1)"
  using assms by (simp add: reconcile_transfer_def require_admin_def)

section \<open>Readiness\<close>

text \<open>How a check ended: in time, or with an exception, a timeout included.\<close>

datatype check_status = Check_Ok | Check_Unavailable

definition run_check :: "'a result \<Rightarrow> check_status" where
  "run_check r = (case r of Inr _ \<Rightarrow> Check_Ok | Inl _ \<Rightarrow> Check_Unavailable)"

definition ready :: "unit result \<Rightarrow> unit result \<Rightarrow> int \<times> check_status \<times> (string \<times> check_status) list" where
  "ready check_database check_redis =
     (let checks = [(''database'', run_check check_database), (''redis'', run_check check_redis)];
          overall = (if list_all (\<lambda>c. snd c = Check_Ok) checks then Check_Ok else Check_Unavailable)
      in (if overall \<noteq> Check_Ok then 503 else 200, overall, checks))"

lemma ready_iff: "fst (ready d r) = 200 \<longleftrightarrow> (\<exists>x y. d = Inr x \<and> r = Inr y)"
  by (auto simp: ready_def run_check_def Let_def split: sum.splits)

end
