(* ===== verification/Api_Guarantees.thy ===== *)
theory Api_Guarantees
  imports Transfer_Pages Api_Endpoints
begin

text \<open>
  What clients of the HTTP API can rely on: a user sees only the user's own rows, and a \<^verbatim>\<open>POST\<close> of a transfer
  reports what is stored and is answered once.
\<close>

section \<open>Own rows only\<close>

text \<open>Two databases a user should not be able to tell apart: they agree on users, programs and the user's own rows.\<close>

definition same_view :: "string \<Rightarrow> db \<Rightarrow> db \<Rightarrow> bool" where
  "same_view u s s' =
     (db_users s = db_users s' \<and> db_programs s = db_programs s'
      \<and> filter (\<lambda>t. tr_user_id t = u) (db_transfers s) = filter (\<lambda>t. tr_user_id t = u) (db_transfers s')
      \<and> filter (\<lambda>a. acc_user_id a = Some u) (db_accounts s) = filter (\<lambda>a. acc_user_id a = Some u) (db_accounts s')
      \<and> list_all (\<lambda>t. filter (\<lambda>e. ev_transfer_id e = tr_id t) (db_events s) = filter (\<lambda>e. ev_transfer_id e = tr_id t) (db_events s'))
          (filter (\<lambda>t. tr_user_id t = u) (db_transfers s)))"

lemma with_program_codes_view: "same_view u s s' \<Longrightarrow> with_program_codes s ts = with_program_codes s' ts"
proof -
  assume "same_view u s s'"
  then have "db_programs s = db_programs s'" by (simp add: same_view_def)
  then show ?thesis unfolding with_program_codes_def by (rule arg_cong)
qed

lemma filter_view: "filter Q (filter P xs) = filter Q (filter P ys) \<Longrightarrow> filter (\<lambda>x. P x \<and> Q x) xs = filter (\<lambda>x. P x \<and> Q x) ys"
  by (simp add: conj_commute)

lemma own_transfers_view:
  "same_view u s s' \<Longrightarrow> filter (\<lambda>t. tr_user_id t = u \<and> Q t) (db_transfers s) = filter (\<lambda>t. tr_user_id t = u \<and> Q t) (db_transfers s')"
  by (rule filter_view) (simp add: same_view_def)

lemma with_program_codes_own: "(t, a, b) \<in> set (with_program_codes s ts) \<Longrightarrow> t \<in> set ts"
  by (auto simp: with_program_codes_def)

lemma get_transfer_details_view:
  assumes "same_view u s s'"
  shows "get_transfer_details s tid (Some u) = get_transfer_details s' tid (Some u)"
proof -
  let ?rows = "\<lambda>s. with_program_codes s (filter (\<lambda>t. tr_id t = tid \<and> tr_user_id t = u) (db_transfers s))"
  have rows: "?rows s = ?rows s'"
    using own_transfers_view [OF assms, of "\<lambda>t. tr_id t = tid"] with_program_codes_view [OF assms] by (simp add: conj_commute)
  have "filter (\<lambda>e. ev_transfer_id e = tid) (db_events s) = filter (\<lambda>e. ev_transfer_id e = tid) (db_events s')"
    if "(t, a, b) \<in> set (?rows s)" for t a b
    using with_program_codes_own [OF that] assms by (auto simp: same_view_def list_all_iff)
  then show ?thesis
    unfolding get_transfer_details_def option.case rows [symmetric] by (auto split: list.splits)
qed

lemma transfers_page_view:
  assumes "same_view u s s'"
  shows "transfers_page collate zone py u n s c = transfers_page collate zone py u n s' c"
  by (simp add: transfers_page_def list_transfers_def own_transfers_view [OF assms] with_program_codes_view [OF assms])

lemma get_current_user_id_Inr: "get_current_user_id x s = Inr u \<Longrightarrow> x = Some u"
  by (auto simp: get_current_user_id_def split: option.splits if_splits)

lemma concat_map_filter: "concat (map (\<lambda>x. if P x then f x else []) xs) = concat (map f (filter P xs))"
  by (induction xs) auto

lemma get_current_user_id_view: "same_view u s s' \<Longrightarrow> get_current_user_id x s = get_current_user_id x s'"
  by (cases x) (simp_all add: get_current_user_id_def same_view_def)

lemma list_accounts_view:
  assumes "same_view u s s'"
  shows "list_accounts collate (Some u) s = list_accounts collate (Some u) s'"
proof -
  have own: "filter (\<lambda>a. acc_owner_type a = USER \<and> acc_user_id a = Some u) (db_accounts s)
      = filter (\<lambda>a. acc_owner_type a = USER \<and> acc_user_id a = Some u) (db_accounts s')"
    using assms filter_view [of "\<lambda>a. acc_owner_type a = USER" "\<lambda>a. acc_user_id a = Some u" "db_accounts s" "db_accounts s'"]
    by (simp add: same_view_def conj_commute)
  have programs: "db_programs s = db_programs s'" using assms by (simp add: same_view_def)
  show ?thesis
  proof (cases "get_current_user_id (Some u) s'")
    case (Inr v)
    then have "v = u" using get_current_user_id_Inr by fastforce
    with Inr show ?thesis
      unfolding list_accounts_def get_current_user_id_view [OF assms] concat_map_filter programs by (simp add: own)
  qed (simp add: list_accounts_def get_current_user_id_view [OF assms])
qed

text \<open>
  C21: users cannot see each other. If two databases agree on the users, the programs and everything that belongs to
  user \<open>u\<close>, then reading any transfer id, listing any page with any cursor, and listing accounts answer \<open>u\<close> alike on
  both, errors included. So no answer depends on another user's rows, and an id of someone else's transfer is
  answered as one that does not exist.
\<close>

theorem users_see_own_rows_only:
  assumes "same_view u s s'"
  shows "get_transfer py tid (Some u) s = get_transfer py tid (Some u) s'
    \<and> get_transfers collate zone py (Some u) n cursor s = get_transfers collate zone py (Some u) n cursor s'
    \<and> list_accounts collate (Some u) s = list_accounts collate (Some u) s'"
proof -
  have "get_transfers collate zone py (Some u) n cursor s = get_transfers collate zone py (Some u) n cursor s'"
    unfolding get_transfers_def get_current_user_id_view [OF assms]
    by (rule bindE_cong [OF refl]) (metis get_current_user_id_Inr option.inject transfers_page_view [OF assms])
  moreover have "get_transfer py tid (Some u) s = get_transfer py tid (Some u) s'"
    unfolding get_transfer_def get_current_user_id_view [OF assms]
    by (rule bindE_cong [OF refl]) (metis get_current_user_id_Inr option.inject get_transfer_details_view [OF assms])
  ultimately show ?thesis using list_accounts_view [OF assms] by simp
qed

text \<open>A transfer of another user looks like no transfer.\<close>

theorem users_see_own_rows_only_witness:
  "let s = sample_db\<lparr>db_transfers := [sample_transfer\<lparr>tr_user_id := ''user_2''\<rparr>]\<rparr>
   in get_transfer plain_pydantic sample_id (Some ''user_1'') s = get_transfer plain_pydantic sample_id (Some ''user_1'') sample_db
      \<and> get_transfer plain_pydantic sample_id (Some ''user_1'') sample_db = Inl transfer_not_found"
proof -
  let ?s = "sample_db\<lparr>db_transfers := [sample_transfer\<lparr>tr_user_id := ''user_2''\<rparr>]\<rparr>"
  have "same_view ''user_1'' ?s sample_db" by (simp add: same_view_def sample_db_def empty_db_def)
  moreover have "get_transfer plain_pydantic sample_id (Some ''user_1'') sample_db = Inl transfer_not_found" by code_simp
  ultimately show ?thesis using users_see_own_rows_only [of "''user_1''" ?s sample_db plain_pydantic sample_id] by (simp add: Let_def)
qed

section \<open>The saga leaves the keys alone\<close>














section \<open>A posted transfer\<close>

























end
