(* ===== verification/Spec2Isabelle.thy ===== *)
theory Spec2Isabelle
  imports Escrow Verification_Loop Seed Ids Key_Cleanup Worker Api_Guarantees
begin

text \<open>
  Verification of the loyalty points transfer engine.

  The program moves points between loyalty programs. A user posts a transfer; the service debits the user's source
  account into a clearing account, asks the partner of the destination program to credit the member, and settles or
  reverses. Every movement is a balanced journal of a double-entry ledger. When the partner's answer is unknown the
  points stay in clearing and a reconciler asks the partner later. PostgreSQL holds the state; Redis holds locks,
  counters and cached routes and may fail at any time.

  \<^bold>\<open>How state and effects are modelled.\<close> The database is the record \<open>db\<close>, one list per table (\<open>Schema\<close>,
  from \<^verbatim>\<open>app/db/models.py\<close> and the migration). A statement is a function on it that returns \<open>exc + _\<close> and checks the
  constraints of its table; \<open>unit_of_work\<close> (\<^verbatim>\<open>app/db/session.py\<close>) runs a body and commits or rolls back, with the deferred
  journal trigger. A service method that commits several times takes a function \<open>others\<close>: what other requests
  and processes commit between its transactions. Clock readings, random values and new ids are arguments. Code
  that is not part of the repository is a parameter: the HTTP client, the Redis commands, pydantic's conversions,
  the database's collation. What is assumed of such a parameter is a named predicate or the law of a locale.

  \<^bold>\<open>Theories, in the order of the code.\<close>

  \<^item> \<open>Prelude\<close>: results of raising code, dictionaries, table updates, JSON values, and the lemmas they share.
  \<^item> \<open>Domain\<close> (\<^verbatim>\<open>app/domain/enums.py\<close>, \<^verbatim>\<open>errors.py\<close>, \<^verbatim>\<open>masking.py\<close>), \<open>Ids\<close> (\<^verbatim>\<open>ids.py\<close>),
    \<open>Transfer_State\<close> (\<^verbatim>\<open>transfer_state.py\<close>): vocabulary, identifiers, the status machine.
  \<^item> \<open>Schema\<close>, \<open>Database\<close>: rows, constraints, statements and transactions.
  \<^item> \<open>Ledger\<close>, \<open>Ledger_Books\<close> (\<^verbatim>\<open>app/services/ledger.py\<close>, \<^verbatim>\<open>ledger_invariants.py\<close>): posting, row locks, the
    invariant queries; the books stay in order under every posting.
  \<^item> \<open>Rate_Engine\<close>, \<open>Rate_Repository\<close>, \<open>Rate_Admin\<close> (\<^verbatim>\<open>rate_engine.py\<close>, \<^verbatim>\<open>rate_repository.py\<close>, \<^verbatim>\<open>rate_admin.py\<close>):
    conversion and quotes, the route in effect and how long it is valid, versions and bonuses.
  \<^item> \<open>Partner\<close>, \<open>Resilience\<close>, \<open>Simulator\<close> (\<^verbatim>\<open>app/partners/\<close>, \<^verbatim>\<open>partner_simulator/\<close>): the HTTP adapter, retries, the
    circuit breaker and the simulator. The laws of the HTTP client (\<open>http_partner\<close>) and of the runtime
    (\<open>partner_runtime\<close>) are locales; the adapter's contract (\<open>partner_contract\<close>) is proved from them for the HTTP
    adapter and again for the retries over it (\<open>partner_stack\<close>), and all are interpreted on the simulator behind a
    network that loses, delays and reorders requests.
  \<^item> \<open>Transfer_Service\<close>, \<open>Reconciliation\<close> (\<^verbatim>\<open>transfer_service.py\<close>, \<^verbatim>\<open>reconciliation.py\<close>): the saga and the reconciler.
    \<open>Saga\<close>, \<open>Resolution\<close> and \<open>Engine\<close> prove their invariants over all interleavings; \<open>Outcomes\<close> and \<open>Verification_Loop\<close>
    what each step does; \<open>Escrow\<close> proves that all of it together implements an abstract escrow.
  \<^item> \<open>Fingerprint\<close>, \<open>Api_Errors\<close>, \<open>Idempotency\<close>, \<open>Key_Cleanup\<close> (\<^verbatim>\<open>app/services/idempotency.py\<close>, \<^verbatim>\<open>app/api/idempotency.py\<close>,
    \<^verbatim>\<open>app/api/errors.py\<close>, \<^verbatim>\<open>scripts/cleanup_idempotency.py\<close>): request keys, with SHA-256 spelled out.
  \<^item> \<open>Json_Text\<close>, \<open>Iso_Time\<close>, \<open>Base64\<close>, \<open>Transfer_Queries\<close>, \<open>Pagination\<close> (\<^verbatim>\<open>transfer_queries.py\<close>): cursors and the texts
    they are made of, the queries, and the contract of keyset pagination as a locale.
  \<^item> \<open>Rate_Limiter\<close>, \<open>Rate_Cache\<close> (\<^verbatim>\<open>app/cache/\<close>), \<open>Config\<close> (\<^verbatim>\<open>app/config.py\<close> and the wiring of \<^verbatim>\<open>app/api/deps.py\<close>),
    \<open>Worker\<close> (\<^verbatim>\<open>app/workers/reconciler.py\<close>), \<open>Seed\<close> (\<^verbatim>\<open>scripts/seed.py\<close>).
  \<^item> \<open>Presenters\<close>, \<open>Api_Transfers\<close>, \<open>Api_Endpoints\<close> (\<^verbatim>\<open>app/api/presenters.py\<close>, \<^verbatim>\<open>schemas.py\<close>, \<^verbatim>\<open>deps.py\<close>, \<^verbatim>\<open>routes/\<close>): the
    endpoints, composed of the services as the code composes them; \<open>Transfer_Pages\<close> interprets the pagination
    contract on the listing endpoint, \<open>Api_Guarantees\<close> states what clients can rely on.

  \<^bold>\<open>What is shown.\<close> The seed script leaves a database in order and can be run again. From a database in order,
  no interleaving of requests and reconcilers reaches one in which the invariant queries report a violation; each
  transfer has exactly the journals and events of its status, and clearing accounts hold exactly the points in
  flight. The engine refines an escrow whose only moves are to hold, to pay and to return points, and every balance
  is what its transfers account for. Through retries, the breaker and HTTP, a reported success means that the partner
  holds the credit, and after \<open>NOT_SENT\<close> or a rejection at the first attempt a credit that was impossible before is
  still impossible; a rejection after an unknown attempt gives no such guarantee, which is a finding. A request key
  admits one request at a time and replays its answer, up to the \<^verbatim>\<open>POST\<close> endpoint. Claims of the reconciler are leases, checks
  end in a resolution or in manual review, and with validated settings live calls are left alone. Conversions round
  down and fit their columns; versions of a rate are contiguous; a cached route is the database's up to a stated
  delay; the limiter admits exactly its limit per window while Redis answers; pages list every transfer once; users see only their own
  rows. Some properties show defects, and the manifest lists them as findings.

  \<^bold>\<open>Bounds and fuel.\<close> The parser of \<open>Json_Text\<close> has fuel, one more than twice the length of the text, which is enough for
  every text (\<open>json_loads_fuel\<close>). The retry loops are bounded by their policy. The loop of the worker may run for ever
  and has fuel; \<open>worker_run_stops\<close> gives the fuel at which it ends. The cleanup loop ends for any table. Integers are
  unbounded as in Python, with the ranges of the columns checked where rows are written; hashing is on 32-bit words.

  \<^bold>\<open>Simplifications.\<close> Characters are code points below 256. Numbers in JSON are integers. Floating point settings and
  delays are rationals. Waiting for row locks is not modelled: a transaction runs on the state it sees when it has
  its locks. Identity values that a rolled-back transaction drew are drawn again.
  \<^verbatim>\<open>fromisoformat\<close> reads the spelling that \<^verbatim>\<open>isoformat\<close> writes; cached texts with members of other types than the
  writer gives them are refused.

  \<^bold>\<open>Not modelled.\<close> Logging, metrics and request ids (\<^verbatim>\<open>app/observability/\<close>) are pure output. \<^verbatim>\<open>app/main.py\<close>,
  \<^verbatim>\<open>app/cache/redis.py\<close> and \<^verbatim>\<open>migrations/env.py\<close> set up libraries. \<^verbatim>\<open>scripts/demo.py\<close> is a client of the HTTP API and
  \<^verbatim>\<open>scripts/check_invariants.py\<close> prints the result of the modelled queries. The handlers of framework errors depend on
  FastAPI's own error values. The listing endpoints of the simulator only read.
\<close>

end
